(* ===== verification/Prelude.thy ===== *)
theory Prelude
  imports Main "HOL-Library.Word" "HOL-Library.Char_ord" "HOL-Library.List_Lexorder"
    "HOL-Library.Code_Target_Numeral"
begin

text \<open>
  Shared vocabulary of the development: fallible results as sums (\<open>Inl\<close> an error value,
  \<open>Inr\<close> a result), loops that stop at the first error, indexed lists, first-match
  searches and the theorem collections the component theories fill. Go strings and byte
  slices are lists of bytes (\<^typ>\<open>string\<close>); the order on them is the byte-wise
  lexicographic order of Go's \<^verbatim>\<open><\<close> and of SQLite's BINARY collation.
\<close>

section \<open>Collections\<close>

named_theorems eval_simps \<open>definitions unfolded when a closed instance is evaluated\<close>
named_theorems wf_dest \<open>what a well-formed document gives its clients\<close>
named_theorems res_simps \<open>rewriting of fallible computations\<close>

type_synonym byte = "8 word"

section \<open>Fallible computations\<close>

definition bind_res :: "'err + 'v \<Rightarrow> ('v \<Rightarrow> 'err + 'w) \<Rightarrow> 'err + 'w" where
  "bind_res r next_step = case_sum Inl next_step r"

definition map_err :: "('err \<Rightarrow> 'wrapped) \<Rightarrow> 'err + 'v \<Rightarrow> 'wrapped + 'v" where
  "map_err wrap = map_sum wrap id"

definition is_ok :: "'e + 'a \<Rightarrow> bool" where
  "is_ok m = (case m of Inl _ \<Rightarrow> False | Inr _ \<Rightarrow> True)"

definition of_option :: "'e \<Rightarrow> 'a option \<Rightarrow> 'e + 'a" where
  "of_option e m = (case m of None \<Rightarrow> Inl e | Some x \<Rightarrow> Inr x)"

text \<open>A loop that collects results and returns at the first error.\<close>

fun traverse :: "('a \<Rightarrow> 'e + 'b) \<Rightarrow> 'a list \<Rightarrow> 'e + 'b list" where
  "traverse f [] = Inr []"
| "traverse f (x # xs) =
     bind_res (f x) (\<lambda>y. bind_res (traverse f xs) (\<lambda>ys. Inr (y # ys)))"

lemma bind_res_simps [simp, res_simps]:
  "bind_res (Inl e) f = Inl e" "bind_res (Inr x) f = f x"
  by (simp_all add: bind_res_def)

lemma map_err_simps [simp, res_simps]:
  "map_err g (Inl e) = Inl (g e)" "map_err g (Inr x) = Inr x"
  by (simp_all add: map_err_def)

lemma of_option_simps [simp, res_simps]:
  "of_option e None = Inl e" "of_option e (Some x) = Inr x"
  by (simp_all add: of_option_def)

lemma is_ok_simps [simp]: "\<not> is_ok (Inl e)" "is_ok (Inr x)"
  by (simp_all add: is_ok_def)

lemma is_ok_iff: "is_ok m \<longleftrightarrow> (\<exists>x. m = Inr x)"
  by (cases m) auto

lemma bind_res_Inr_iff: "bind_res r k = Inr v \<longleftrightarrow> (\<exists>u. r = Inr u \<and> k u = Inr v)"
  by (cases r) auto

lemma map_err_Inr_iff [simp]: "map_err g m = Inr y \<longleftrightarrow> m = Inr y"
  by (cases m) auto

lemma of_option_Inr_iff [simp]: "of_option e m = Inr y \<longleftrightarrow> m = Some y"
  by (cases m) auto

lemma traverse_Inr_iff:
  "traverse f xs = Inr ys \<longleftrightarrow> list_all2 (\<lambda>x y. f x = Inr y) xs ys"
proof (induction xs arbitrary: ys)
  case Nil
  then show ?case by auto
next
  case (Cons x xs)
  then show ?case by (cases ys) (auto simp: bind_res_Inr_iff)
qed

lemma traverse_map:
  assumes "\<And>x. x \<in> set xs \<Longrightarrow> f x = Inr (g x)"
  shows "traverse f xs = Inr (map g xs)"
  using assms by (induction xs) auto

lemma traverse_set: "traverse f xs = Inr ys \<Longrightarrow> set ys = {y. \<exists>x \<in> set xs. f x = Inr y}"
  by (induction xs arbitrary: ys) (auto simp: bind_res_Inr_iff)

section \<open>Lists\<close>

text \<open>The position of a byte, as \<^verbatim>\<open>strings.IndexByte\<close> and \<^verbatim>\<open>LastIndexByte\<close>, \<open>None\<close> for -1.\<close>

fun index_of :: "'a \<Rightarrow> 'a list \<Rightarrow> nat option" where
  "index_of c [] = None"
| "index_of c (x # xs) = (if x = c then Some 0 else map_option Suc (index_of c xs))"

definition last_index_of :: "'a \<Rightarrow> 'a list \<Rightarrow> nat option" where
  "last_index_of c xs = map_option (\<lambda>i. length xs - Suc i) (index_of c (rev xs))"

lemma index_of_None_iff [simp]: "index_of c xs = None \<longleftrightarrow> c \<notin> set xs"
  by (induction xs) auto

lemma index_of_first: "c \<notin> set xs \<Longrightarrow> index_of c (xs @ c # ys) = Some (length xs)"
  by (induction xs) auto

lemma last_index_of_snoc_absent:
  "c \<notin> set ys \<Longrightarrow> last_index_of c (xs @ c # ys) = Some (length xs)"
  by (simp add: last_index_of_def index_of_first)

lemma last_index_of_None_iff [simp]: "last_index_of c xs = None \<longleftrightarrow> c \<notin> set xs"
  by (simp add: last_index_of_def)

text \<open>First match in declaration order.\<close>

lemma find_Some_in: "find P xs = Some x \<Longrightarrow> x \<in> set xs \<and> P x"
  by (auto simp: find_Some_iff)

lemma find_distinct:
  assumes "distinct (map f xs)" and "x \<in> set xs"
  shows "find (\<lambda>y. f y = f x) xs = Some x"
  using assms by (induction xs) (auto simp: image_iff)

lemma find_append:
  "find P (xs @ ys) = (case find P xs of Some x \<Rightarrow> Some x | None \<Rightarrow> find P ys)"
  by (induction xs) auto

end
