(* ===== verification/Go_Strings.thy ===== *)
theory Go_Strings
  imports Prelude
begin

text \<open>
  The parts of Go's \<^verbatim>\<open>strconv\<close>, \<^verbatim>\<open>strings\<close> and \<^verbatim>\<open>net\<close> packages the program calls on
  strings: decimal conversion, white-space trimming, case folding of ASCII keywords and
  \<^verbatim>\<open>net.SplitHostPort\<close>. A Go string is a sequence of bytes, so every function works on bytes.
\<close>

section \<open>Decimal numbers\<close>

definition is_digit :: "char \<Rightarrow> bool" where
  "is_digit c \<longleftrightarrow> 48 \<le> (of_char c :: nat) \<and> (of_char c :: nat) \<le> 57"

definition digit_val :: "char \<Rightarrow> nat" where
  "digit_val c = of_char c - 48"

definition digit_char :: "nat \<Rightarrow> char" where
  "digit_char n = char_of (48 + n)"

text \<open>\<^verbatim>\<open>strconv.Itoa\<close> on a number that is not negative.\<close>

fun dec :: "nat \<Rightarrow> string" where
  "dec n = (if n < 10 then [digit_char n] else dec (n div 10) @ [digit_char (n mod 10)])"

declare dec.simps [simp del]

definition dec_val :: "string \<Rightarrow> nat" where
  "dec_val s = foldl (\<lambda>n c. 10 * n + digit_val c) 0 s"

text \<open>
  \<^verbatim>\<open>strconv.Atoi\<close> on a 64-bit platform: an optional sign, then decimal digits; \<open>None\<close> is a
  syntax or a range error, which no caller tells apart.
\<close>

definition Atoi :: "string \<Rightarrow> int option" where
  "Atoi s =
    (let neg = (case s of [] \<Rightarrow> False | c # _ \<Rightarrow> c = CHR ''-'');
         ds = (case s of [] \<Rightarrow> [] | c # cs \<Rightarrow> if c = CHR ''-'' \<or> c = CHR ''+'' then cs else s)
     in if ds = [] \<or> \<not> list_all is_digit ds then None
        else let n = (if neg then - int (dec_val ds) else int (dec_val ds))
             in if - (2 ^ 63) \<le> n \<and> n < 2 ^ 63 then Some n else None)"

lemma digit_char_props:
  assumes "n < 10"
  shows "is_digit (digit_char n)" and "digit_val (digit_char n) = n"
proof -
  have "(of_char (char_of (48 + n) :: char) :: nat) = 48 + n"
    using assms by (simp add: of_char_of)
  then show "is_digit (digit_char n)" "digit_val (digit_char n) = n"
    using assms by (simp_all add: is_digit_def digit_val_def digit_char_def)
qed

lemma dec_digits: "list_all is_digit (dec n)"
proof (induction n rule: dec.induct)
  case (1 n)
  then show ?case
    by (cases "n < 10") (simp_all add: dec.simps [of n] digit_char_props)
qed

lemma dec_nonempty [simp]: "dec n \<noteq> []"
  by (subst dec.simps) simp

lemma dec_val_snoc: "dec_val (s @ [c]) = 10 * dec_val s + digit_val c"
  by (simp add: dec_val_def)

lemma dec_val_dec [simp]: "dec_val (dec n) = n"
proof (induction n rule: dec.induct)
  case (1 n)
  show ?case
  proof (cases "n < 10")
    case True
    then show ?thesis by (simp add: dec.simps [of n] dec_val_def digit_char_props)
  next
    case False
    with 1 have "dec_val (dec (n div 10)) = n div 10" by simp
    with False show ?thesis
      by (simp add: dec.simps [of n] dec_val_snoc digit_char_props)
  qed
qed

lemma is_digit_cases:
  assumes "is_digit c"
  shows "c \<noteq> CHR ''-''" "c \<noteq> CHR ''+''" "c \<noteq> CHR ''.''" "c \<noteq> CHR '':''" "c \<noteq> CHR ''/''" "c \<noteq> CHR ''%''"
  using assms by (auto simp: is_digit_def)

lemma Atoi_dec: "n < 2 ^ 63 \<Longrightarrow> Atoi (dec n) = Some (int n)"
proof -
  assume n: "n < 2 ^ 63"
  obtain c cs where d: "dec n = c # cs" by (cases "dec n") auto
  have dig: "is_digit c" using dec_digits [of n] by (simp add: d)
  have all: "list_all is_digit (c # cs)" using dec_digits [of n] by (simp add: d)
  have val: "dec_val (c # cs) = n" using dec_val_dec [of n] by (simp add: d)
  have "int n < 2 ^ 63" using n by (metis of_nat_less_iff of_nat_numeral of_nat_power)
  then show ?thesis
    using is_digit_cases(1,2) [OF dig] all val by (simp add: Atoi_def d Let_def)
qed

lemma dec_inj: "dec m = dec n \<Longrightarrow> m = n"
  by (metis dec_val_dec)

section \<open>Trimming and case folding\<close>

text \<open>
  The UTF-8 encodings of the runes for which \<^verbatim>\<open>unicode.IsSpace\<close> holds.
\<close>

definition space_runes :: "string list" where
  "space_runes =
     [[CHR 0x09], [CHR 0x0A], [CHR 0x0B], [CHR 0x0C], [CHR 0x0D], [CHR 0x20],
      [CHR 0xC2, CHR 0x85], [CHR 0xC2, CHR 0xA0], [CHR 0xE1, CHR 0x9A, CHR 0x80]]
     @ map (\<lambda>b. [CHR 0xE2, CHR 0x80, char_of b]) [0x80 ..< 0x8B]
     @ [[CHR 0xE2, CHR 0x80, CHR 0xA8], [CHR 0xE2, CHR 0x80, CHR 0xA9],
        [CHR 0xE2, CHR 0x80, CHR 0xAF], [CHR 0xE2, CHR 0x81, CHR 0x9F],
        [CHR 0xE3, CHR 0x80, CHR 0x80]]"

definition is_prefix :: "'a list \<Rightarrow> 'a list \<Rightarrow> bool" where
  "is_prefix p s \<longleftrightarrow> take (length p) s = p"

fun trim_left :: "string list \<Rightarrow> nat \<Rightarrow> string \<Rightarrow> string" where
  "trim_left seqs 0 s = s"
| "trim_left seqs (Suc fuel) s =
     (case find (\<lambda>p. is_prefix p s) seqs of
        None \<Rightarrow> s
      | Some p \<Rightarrow> trim_left seqs fuel (drop (length p) s))"

text \<open>Each round drops at least one byte, so the length of the string is enough fuel.\<close>

definition TrimSpace :: "string \<Rightarrow> string" where
  "TrimSpace s =
     (let l = trim_left space_runes (length s) s
      in rev (trim_left (map rev space_runes) (length l) (rev l)))"

lemma trim_left_plain:
  assumes "\<And>p. p \<in> set seqs \<Longrightarrow> p \<noteq> [] \<and> hd p \<notin> set s"
  shows "trim_left seqs n s = s"
proof (cases n)
  case (Suc k)
  have "\<not> is_prefix p s" if "p \<in> set seqs" for p
    using assms [OF that] by (cases p; cases s) (auto simp: is_prefix_def)
  then have "find (\<lambda>p. is_prefix p s) seqs = None" by (simp add: find_None_iff)
  then show ?thesis by (simp add: Suc)
qed simp

lemma TrimSpace_plain:
  assumes "\<And>p. p \<in> set space_runes \<Longrightarrow> p \<noteq> [] \<and> hd p \<notin> set s \<and> last p \<notin> set s"
  shows "TrimSpace s = s"
proof -
  have 1: "trim_left space_runes (length s) s = s" using assms by (intro trim_left_plain) blast
  have 2: "trim_left (map rev space_runes) (length s) (rev s) = rev s"
    using assms by (intro trim_left_plain) (auto simp: hd_rev)
  show ?thesis by (simp add: TrimSpace_def Let_def 1 2)
qed

definition ascii_lower :: "char \<Rightarrow> char" where
  "ascii_lower c =
     (if 65 \<le> (of_char c :: nat) \<and> (of_char c :: nat) \<le> 90 then char_of ((of_char c :: nat) + 32) else c)"

text \<open>
  \<^verbatim>\<open>strings.EqualFold\<close> against an ASCII constant without the letters k and s, the only ASCII
  letters with a non-ASCII rune in their folding orbit.
\<close>

definition EqualFold_ascii :: "string \<Rightarrow> string \<Rightarrow> bool" where
  "EqualFold_ascii s t \<longleftrightarrow> map ascii_lower s = map ascii_lower t"

section \<open>host:port\<close>

text \<open>
  \<^verbatim>\<open>net.SplitHostPort\<close>: the port starts after the last colon; a host in brackets may contain
  colons. \<open>None\<close> is any of its address errors.
\<close>

definition SplitHostPort :: "string \<Rightarrow> (string \<times> string) option" where
  "SplitHostPort hostport =
    (case last_index_of (CHR '':'') hostport of
       None \<Rightarrow> None
     | Some i \<Rightarrow>
         (let parts =
            (if hostport ! 0 = CHR ''['' then
               (case index_of (CHR '']'') hostport of
                  None \<Rightarrow> None
                | Some e \<Rightarrow>
                    if e + 1 = length hostport then None
                    else if e + 1 = i then Some (take (e - 1) (drop 1 hostport), 1, e + 1)
                    else None)
             else
               (let host = take i hostport
                in if CHR '':'' \<in> set host then None else Some (host, 0, 0)))
          in case parts of
               None \<Rightarrow> None
             | Some (host, j, k) \<Rightarrow>
                 if CHR ''['' \<in> set (drop j hostport) then None
                 else if CHR '']'' \<in> set (drop k hostport) then None
                 else Some (host, drop (i + 1) hostport)))"

lemma SplitHostPort_plain:
  assumes "CHR '':'' \<notin> set host" "CHR '':'' \<notin> set port"
    and "CHR ''['' \<notin> set host" "CHR ''['' \<notin> set port"
    and "CHR '']'' \<notin> set host" "CHR '']'' \<notin> set port"
  shows "SplitHostPort (host @ CHR '':'' # port) = Some (host, port)"
proof -
  have "last_index_of (CHR '':'') (host @ CHR '':'' # port) = Some (length host)"
    using assms by (simp add: last_index_of_snoc_absent)
  moreover have "(host @ CHR '':'' # port) ! 0 \<noteq> CHR ''[''"
    using assms by (cases host) auto
  ultimately show ?thesis using assms by (simp add: SplitHostPort_def Let_def)
qed

end
