(* ===== verification/Go_Netip.thy ===== *)
theory Go_Netip
  imports Go_Strings
begin

text \<open>
  Go's \<^verbatim>\<open>net/netip\<close> as the program uses it: addresses (\<open>Addr\<close>: the zero value, IPv4, IPv6
  with an optional zone), prefixes (\<open>Prefix\<close>: an address and the prefix length plus one,
  0 for an invalid prefix), \<open>ParseAddr\<close>, \<open>ParsePrefix\<close>, \<open>PrefixFrom\<close>, \<open>Contains\<close>,
  the order \<open>Less\<close>, \<open>String\<close>, and the conversions to \<^verbatim>\<open>net.IP\<close> byte slices.
  The theory proves that printing and parsing an IPv4 address or prefix are inverse, and
  the algebra of \<open>Contains\<close> the topology and the firewall rest on.
\<close>

unbundle bit_operations_syntax

section \<open>Addresses\<close>

datatype Addr =
    ZeroAddr
  | Addr4 "32 word"
  | Addr6 "128 word" string

fun BitLen :: "Addr \<Rightarrow> nat" where
  "BitLen ZeroAddr = 0"
| "BitLen (Addr4 _) = 32"
| "BitLen (Addr6 _ _) = 128"

fun Is4 :: "Addr \<Rightarrow> bool" where
  "Is4 (Addr4 _) = True"
| "Is4 _ = False"

fun Is6 :: "Addr \<Rightarrow> bool" where
  "Is6 (Addr6 _ _) = True"
| "Is6 _ = False"

fun Zone :: "Addr \<Rightarrow> string" where
  "Zone (Addr6 _ z) = z"
| "Zone _ = []"

fun withoutZone :: "Addr \<Rightarrow> Addr" where
  "withoutZone (Addr6 w _) = Addr6 w []"
| "withoutZone a = a"

text \<open>\<^verbatim>\<open>Unmap\<close>: an IPv4-mapped IPv6 address as IPv4, the zone dropped with the mapping.\<close>

definition Is4In6_word :: "128 word \<Rightarrow> bool" where
  "Is4In6_word w \<longleftrightarrow> drop_bit 32 w = 0xffff"

fun Unmap :: "Addr \<Rightarrow> Addr" where
  "Unmap (Addr6 w z) = (if Is4In6_word w then Addr4 (ucast w) else Addr6 w z)"
| "Unmap a = a"

fun addr_value :: "Addr \<Rightarrow> nat" where
  "addr_value ZeroAddr = 0"
| "addr_value (Addr4 w) = unat w"
| "addr_value (Addr6 w _) = unat w"

text \<open>\<^verbatim>\<open>Addr.Less\<close>: by length, then value, then zone.\<close>

definition Less :: "Addr \<Rightarrow> Addr \<Rightarrow> bool" where
  "Less a b \<longleftrightarrow>
     (if BitLen a \<noteq> BitLen b then BitLen a < BitLen b
      else if addr_value a \<noteq> addr_value b then addr_value a < addr_value b
      else Zone a < Zone b)"

text \<open>The library order on addresses is the one \<^verbatim>\<open>Less\<close> decides.\<close>

instantiation Addr :: linorder
begin

definition less_Addr :: "Addr \<Rightarrow> Addr \<Rightarrow> bool" where
  "less_Addr a b \<longleftrightarrow> Less a b"

definition less_eq_Addr :: "Addr \<Rightarrow> Addr \<Rightarrow> bool" where
  "less_eq_Addr a b \<longleftrightarrow> a = b \<or> Less a b"

instance
proof
  have eq: "a = b" if "BitLen a = BitLen b" "addr_value a = addr_value b" "Zone a = Zone b" for a b :: Addr
    using that by (cases a; cases b) (auto simp: word_unat_eq_iff)
  fix x y z :: Addr
  show "(x < y) = (x \<le> y \<and> \<not> y \<le> x)"
    by (auto simp: less_Addr_def less_eq_Addr_def Less_def split: if_splits)
  show "x \<le> x" by (simp add: less_eq_Addr_def)
  show "x \<le> y \<Longrightarrow> y \<le> z \<Longrightarrow> x \<le> z"
    by (auto simp: less_eq_Addr_def Less_def split: if_splits)
  show "x \<le> y \<Longrightarrow> y \<le> x \<Longrightarrow> x = y"
    by (auto simp: less_eq_Addr_def Less_def split: if_splits)
  show "x \<le> y \<or> y \<le> x"
    using eq [of x y] by (auto simp: less_eq_Addr_def Less_def)
qed

end

section \<open>Parsing addresses\<close>

text \<open>
  \<^verbatim>\<open>parseIPv4Fields\<close>: \<open>val\<close> and \<open>digLen\<close> are the value and the digits of the current octet,
  \<open>fields\<close> the octets read. A dot is refused at the start, at the end and after a dot.
\<close>

fun parseIPv4Fields :: "string \<Rightarrow> nat \<Rightarrow> nat \<Rightarrow> nat list \<Rightarrow> nat list option" where
  "parseIPv4Fields [] val digLen fields =
     (if length fields < 3 then None else Some (fields @ [val]))"
| "parseIPv4Fields (c # s) val digLen fields =
     (if is_digit c then
        (if digLen = 1 \<and> val = 0 then None
         else let v = val * 10 + digit_val c
              in if v > 255 then None else parseIPv4Fields s v (digLen + 1) fields)
      else if c = CHR ''.'' then
        (if digLen = 0 \<or> s = [] then None
         else if length fields = 3 then None
         else parseIPv4Fields s 0 0 (fields @ [val]))
      else None)"

definition octets_value :: "nat list \<Rightarrow> nat" where
  "octets_value bs = foldl (\<lambda>n b. n * 256 + b) 0 bs"

definition parseIPv4 :: "string \<Rightarrow> Addr option" where
  "parseIPv4 s = map_option (\<lambda>bs. Addr4 (word_of_nat (octets_value bs))) (parseIPv4Fields s 0 0 [])"

definition hex_val :: "char \<Rightarrow> nat option" where
  "hex_val c =
     (let n = of_char c :: nat
      in if 48 \<le> n \<and> n \<le> 57 then Some (n - 48)
         else if 97 \<le> n \<and> n \<le> 102 then Some (n - 97 + 10)
         else if 65 \<le> n \<and> n \<le> 70 then Some (n - 65 + 10)
         else None)"

text \<open>
  The inner loop of \<^verbatim>\<open>parseIPv6\<close>: the hex digits at the front, their value and the rest;
  \<open>None\<close> for a fifth digit (a value over 16 bits cannot come up before it).
\<close>

fun hex_group :: "string \<Rightarrow> nat \<Rightarrow> nat \<Rightarrow> (nat \<times> nat \<times> string) option" where
  "hex_group [] acc off = Some (acc, off, [])"
| "hex_group (c # s) acc off =
     (case hex_val c of
        None \<Rightarrow> Some (acc, off, c # s)
      | Some h \<Rightarrow>
          (let acc' = acc * 16 + h
           in if off > 3 then None
              else if acc' > 65535 then None
              else hex_group s acc' (off + 1)))"

text \<open>
  The outer loop: \<open>ip\<close> holds the bytes read (its length is the source's \<open>i\<close>), \<open>ell\<close> the
  position of the ellipsis. The result is the final \<open>(ip, ell, s)\<close>. Each round adds two
  bytes and stops at sixteen.
\<close>

function ipv6_loop :: "string \<Rightarrow> nat list \<Rightarrow> nat option \<Rightarrow> (nat list \<times> nat option \<times> string) option" where
  "ipv6_loop s ip ell =
    (if length ip < 16 then
       (case hex_group s 0 0 of
          None \<Rightarrow> None
        | Some (acc, off, rest) \<Rightarrow>
            if off = 0 then None
            else if rest \<noteq> [] \<and> hd rest = CHR ''.'' then
              (if ell = None \<and> length ip \<noteq> 12 then None
               else if length ip + 4 > 16 then None
               else case parseIPv4Fields s 0 0 [] of
                      None \<Rightarrow> None
                    | Some bs \<Rightarrow> Some (ip @ bs, ell, []))
            else
              (let ip' = ip @ [acc div 256, acc mod 256]
               in case rest of
                    [] \<Rightarrow> Some (ip', ell, [])
                  | c # s1 \<Rightarrow>
                      if c \<noteq> CHR '':'' then None
                      else case s1 of
                             [] \<Rightarrow> None
                           | d # s2 \<Rightarrow>
                               if d = CHR '':'' then
                                 (if ell \<noteq> None then None
                                  else if s2 = [] then Some (ip', Some (length ip'), [])
                                  else ipv6_loop s2 ip' (Some (length ip')))
                               else ipv6_loop s1 ip' ell))
     else Some (ip, ell, s))"
  by pat_completeness auto
termination
  by (relation "measure (\<lambda>(s, ip, ell). 16 - length ip)") auto

declare ipv6_loop.simps [simp del]

definition expand_ellipsis :: "nat list \<Rightarrow> nat \<Rightarrow> nat list" where
  "expand_ellipsis ip e = take e ip @ replicate (16 - length ip) 0 @ drop e ip"

definition parseIPv6 :: "string \<Rightarrow> Addr option" where
  "parseIPv6 s0 =
    (let zs = (case index_of (CHR ''%'') s0 of
                 None \<Rightarrow> Some (s0, [])
               | Some i \<Rightarrow> if drop (i + 1) s0 = [] then None else Some (take i s0, drop (i + 1) s0))
     in case zs of
          None \<Rightarrow> None
        | Some (s, zone) \<Rightarrow>
            (let lead = (take 2 s = ''::'');
                 s1 = (if lead then drop 2 s else s);
                 ell0 = (if lead then Some 0 else None)
             in if lead \<and> s1 = [] then Some (Addr6 0 zone)
                else case ipv6_loop s1 [] ell0 of
                       None \<Rightarrow> None
                     | Some (ip, ell, rest) \<Rightarrow>
                         if rest \<noteq> [] then None
                         else if length ip < 16 then
                           (case ell of
                              None \<Rightarrow> None
                            | Some e \<Rightarrow> Some (Addr6 (word_of_nat (octets_value (expand_ellipsis ip e))) zone))
                         else if ell \<noteq> None then None
                         else Some (Addr6 (word_of_nat (octets_value ip)) zone)))"

text \<open>\<^verbatim>\<open>ParseAddr\<close> looks at the first of the characters dot, colon and percent.\<close>

fun first_of_addr :: "string \<Rightarrow> char option" where
  "first_of_addr [] = None"
| "first_of_addr (c # s) =
     (if c = CHR ''.'' \<or> c = CHR '':'' \<or> c = CHR ''%'' then Some c else first_of_addr s)"

definition ParseAddr :: "string \<Rightarrow> Addr option" where
  "ParseAddr s =
    (case first_of_addr s of
       None \<Rightarrow> None
     | Some c \<Rightarrow>
         if c = CHR ''.'' then parseIPv4 s
         else if c = CHR '':'' then parseIPv6 s
         else None)"

section \<open>Prefixes\<close>

datatype Prefix = Prefix (pfx_ip: Addr) (bitsPlusOne: nat)

definition ZeroPrefix :: Prefix where
  "ZeroPrefix = Prefix ZeroAddr 0"

definition PrefixFrom :: "Addr \<Rightarrow> int \<Rightarrow> Prefix" where
  "PrefixFrom ip bits =
     Prefix (withoutZone ip)
       (if ip \<noteq> ZeroAddr \<and> 0 \<le> bits \<and> bits \<le> int (BitLen ip) then nat bits + 1 else 0)"

definition Prefix_IsValid :: "Prefix \<Rightarrow> bool" where
  "Prefix_IsValid p \<longleftrightarrow> bitsPlusOne p > 0"

definition Prefix_Bits :: "Prefix \<Rightarrow> int" where
  "Prefix_Bits p = int (bitsPlusOne p) - 1"

definition ParsePrefix :: "string \<Rightarrow> Prefix option" where
  "ParsePrefix s =
    (case last_index_of (CHR ''/'') s of
       None \<Rightarrow> None
     | Some i \<Rightarrow>
         (case ParseAddr (take i s) of
            None \<Rightarrow> None
          | Some ip \<Rightarrow>
              if Is6 ip \<and> Zone ip \<noteq> [] then None
              else
                let bitsStr = drop (i + 1) s
                in if length bitsStr > 1 \<and> \<not> (CHR ''1'' \<le> hd bitsStr \<and> hd bitsStr \<le> CHR ''9'') then None
                   else case Atoi bitsStr of
                          None \<Rightarrow> None
                        | Some bits \<Rightarrow>
                            let maxBits = (if Is6 ip then 128 else 32)
                            in if bits < 0 \<or> bits > maxBits then None
                               else Some (PrefixFrom ip bits)))"

text \<open>
  \<^verbatim>\<open>Prefix.Contains\<close>: same family, no zone, and the first \<open>Bits\<close> bits agree. Shifting the
  exclusive or right keeps exactly the bits that count (for IPv6 the source masks instead,
  with the same effect).
\<close>

definition Contains :: "Prefix \<Rightarrow> Addr \<Rightarrow> bool" where
  "Contains p a =
    (if \<not> Prefix_IsValid p \<or> Zone a \<noteq> [] then False
     else case (pfx_ip p, a) of
            (Addr4 v, Addr4 w) \<Rightarrow> drop_bit (32 - (bitsPlusOne p - 1)) (w XOR v) = 0
          | (Addr6 v _, Addr6 w _) \<Rightarrow> drop_bit (128 - (bitsPlusOne p - 1)) (w XOR v) = 0
          | _ \<Rightarrow> False)"

section \<open>Printing\<close>

definition octet4 :: "32 word \<Rightarrow> nat \<Rightarrow> nat" where
  "octet4 w k = unat w div 256 ^ k mod 256"

definition string4 :: "32 word \<Rightarrow> string" where
  "string4 w =
     dec (octet4 w 3) @ ''.'' @ dec (octet4 w 2) @ ''.'' @ dec (octet4 w 1) @ ''.'' @ dec (octet4 w 0)"

definition hex_char :: "nat \<Rightarrow> char" where
  "hex_char n = (if n < 10 then char_of (48 + n) else char_of (87 + n))"

fun hex :: "nat \<Rightarrow> string" where
  "hex n = (if n < 16 then [hex_char n] else hex (n div 16) @ [hex_char (n mod 16)])"

declare hex.simps [simp del]

text \<open>The eight 16-bit groups of an IPv6 address, the first one first.\<close>

definition groups6 :: "128 word \<Rightarrow> nat list" where
  "groups6 w = map (\<lambda>k. unat w div 65536 ^ k mod 65536) (rev [0 ..< 8])"

definition zero_run :: "nat list \<Rightarrow> nat \<Rightarrow> nat" where
  "zero_run gs i = length (takeWhile (\<lambda>g. g = 0) (drop i gs))"

text \<open>The first longest run of at least two zero groups, as \<open>(start, length)\<close>.\<close>

definition best_run :: "nat list \<Rightarrow> (nat \<times> nat) option" where
  "best_run gs =
     foldl (\<lambda>best i. let l = zero_run gs i
                     in if l \<ge> 2 \<and> (case best of None \<Rightarrow> True | Some (_, bl) \<Rightarrow> l > bl)
                        then Some (i, l) else best)
       None [0 ..< length gs]"

fun join_hex :: "nat list \<Rightarrow> string" where
  "join_hex [] = []"
| "join_hex [g] = hex g"
| "join_hex (g # gs) = hex g @ '':'' @ join_hex gs"

definition string6 :: "128 word \<Rightarrow> string \<Rightarrow> string" where
  "string6 w zone =
     (let gs = groups6 w;
          body = (case best_run gs of
                    None \<Rightarrow> join_hex gs
                  | Some (i, l) \<Rightarrow> join_hex (take i gs) @ ''::'' @ join_hex (drop (i + l) gs))
      in body @ (if zone = [] then [] else ''%'' @ zone))"

fun Addr_String :: "Addr \<Rightarrow> string" where
  "Addr_String ZeroAddr = ''invalid IP''"
| "Addr_String (Addr4 w) = string4 w"
| "Addr_String (Addr6 w z) =
     (if Is4In6_word w then ''::ffff:'' @ string4 (ucast w) @ (if z = [] then [] else ''%'' @ z)
      else string6 w z)"

definition Prefix_String :: "Prefix \<Rightarrow> string" where
  "Prefix_String p =
     (if \<not> Prefix_IsValid p then ''invalid Prefix''
      else Addr_String (pfx_ip p) @ ''/'' @ dec (bitsPlusOne p - 1))"

section \<open>net.IP byte slices\<close>

type_synonym IP = "byte list"

definition As4 :: "32 word \<Rightarrow> IP" where
  "As4 w = map (\<lambda>k. ucast (drop_bit (8 * k) w)) (rev [0 ..< 4])"

definition word16_bytes :: "128 word \<Rightarrow> IP" where
  "word16_bytes w = map (\<lambda>k. ucast (drop_bit (8 * k) w)) (rev [0 ..< 16])"

definition v4InV6Prefix :: IP where
  "v4InV6Prefix = replicate 10 0 @ [0xff, 0xff]"

fun As16 :: "Addr \<Rightarrow> IP" where
  "As16 ZeroAddr = replicate 16 0"
| "As16 (Addr4 w) = v4InV6Prefix @ As4 w"
| "As16 (Addr6 w _) = word16_bytes w"

text \<open>\<^verbatim>\<open>net.ParseIP\<close> (always sixteen bytes, no zone) and \<^verbatim>\<open>IP.Equal\<close>.\<close>

definition ParseIP :: "string \<Rightarrow> IP option" where
  "ParseIP s =
    (case ParseAddr s of
       None \<Rightarrow> None
     | Some a \<Rightarrow> if Zone a \<noteq> [] then None else Some (As16 a))"

definition IP_Equal :: "IP \<Rightarrow> IP \<Rightarrow> bool" where
  "IP_Equal ip x =
    (if length ip = length x then ip = x
     else if length ip = 4 \<and> length x = 16 then take 12 x = v4InV6Prefix \<and> ip = drop 12 x
     else if length ip = 16 \<and> length x = 4 then take 12 ip = v4InV6Prefix \<and> drop 12 ip = x
     else False)"

section \<open>Printing and parsing IPv4\<close>

lemma dec_small1: "n < 10 \<Longrightarrow> dec n = [digit_char n]"
  by (simp add: dec.simps [of n])

lemma dec_small2:
  "10 \<le> n \<Longrightarrow> n < 100 \<Longrightarrow> dec n = [digit_char (n div 10), digit_char (n mod 10)]"
  by (simp add: dec.simps [of n] dec_small1 less_mult_imp_div_less)

lemma dec_small3:
  assumes "100 \<le> n" "n < 1000"
  shows "dec n = [digit_char (n div 100), digit_char (n div 10 mod 10), digit_char (n mod 10)]"
proof -
  have "10 \<le> n div 10" "n div 10 < 100" using assms by (simp_all add: less_mult_imp_div_less)
  then have "dec (n div 10) = [digit_char (n div 10 div 10), digit_char (n div 10 mod 10)]"
    by (rule dec_small2)
  then show ?thesis using assms by (simp add: dec.simps [of n] div_mult2_eq [symmetric])
qed

lemmas dec_small = dec_small1 dec_small2 dec_small3

lemma parseIPv4Fields_digit:
  assumes "d < 10" "\<not> (k = 1 \<and> v = 0)" "v * 10 + d \<le> 255"
  shows "parseIPv4Fields (digit_char d # s) v k fs = parseIPv4Fields s (v * 10 + d) (k + 1) fs"
  using assms by (auto simp: digit_char_props Let_def)

lemma parseIPv4Fields_dec:
  assumes "n \<le> 255"
  shows "\<exists>k > 0. parseIPv4Fields (dec n @ s) 0 0 fs = parseIPv4Fields s n k fs"
proof -
  note step = parseIPv4Fields_digit
  consider "n < 10" | "10 \<le> n" "n < 100" | "100 \<le> n" "n < 1000" using assms by linarith
  then show ?thesis
  proof cases
    case 1
    then have "parseIPv4Fields (dec n @ s) 0 0 fs = parseIPv4Fields s n 1 fs"
      by (simp add: dec_small step del: parseIPv4Fields.simps)
    then show ?thesis by fastforce
  next
    case 2
    then have "parseIPv4Fields (dec n @ s) 0 0 fs = parseIPv4Fields s (n div 10 * 10 + n mod 10) 2 fs"
      using assms by (simp add: dec_small step numeral_2_eq_2 del: parseIPv4Fields.simps)
    then show ?thesis by (metis div_mult_mod_eq zero_less_numeral)
  next
    case 3
    have n: "(n div 100 * 10 + n div 10 mod 10) * 10 + n mod 10 = n"
      by (simp add: div_mult2_eq [of n 10 10, simplified])
    have le: "n div 100 * 10 + n div 10 mod 10 \<le> 255" using n assms by linarith
    have "parseIPv4Fields (dec n @ s) 0 0 fs =
        parseIPv4Fields s ((n div 100 * 10 + n div 10 mod 10) * 10 + n mod 10) 3 fs"
      using 3 n le assms by (simp add: dec_small step numeral_3_eq_3 del: parseIPv4Fields.simps)
    then show ?thesis unfolding n by (metis zero_less_numeral)
  qed
qed

lemma parseIPv4Fields_dot:
  assumes "n \<le> 255" "s \<noteq> []" "length fs < 3"
  shows "parseIPv4Fields (dec n @ CHR ''.'' # s) 0 0 fs = parseIPv4Fields s 0 0 (fs @ [n])"
proof -
  obtain k where "k > 0" and
    "parseIPv4Fields (dec n @ CHR ''.'' # s) 0 0 fs = parseIPv4Fields (CHR ''.'' # s) n k fs"
    using parseIPv4Fields_dec [OF assms(1)] by blast
  then show ?thesis using assms by (simp add: is_digit_def)
qed

lemma parseIPv4Fields_last:
  assumes "n \<le> 255" "length fs = 3"
  shows "parseIPv4Fields (dec n) 0 0 fs = Some (fs @ [n])"
proof -
  obtain k where "parseIPv4Fields (dec n @ []) 0 0 fs = parseIPv4Fields [] n k fs"
    using parseIPv4Fields_dec [OF assms(1)] by blast
  then show ?thesis using assms by simp
qed

lemma octet4_le [simp]: "octet4 w k \<le> 255"
proof -
  have "octet4 w k < 256" by (simp add: octet4_def)
  then show ?thesis by simp
qed

lemma octets_of_word4:
  "octets_value [octet4 w 3, octet4 w 2, octet4 w 1, octet4 w 0] = unat w"
proof -
  have "unat w < 256 ^ 4" using unsigned_less [of w, where ?'a = nat] by simp
  then have "unat w div 256 ^ 3 < 256" by (simp add: less_mult_imp_div_less)
  then have top: "octet4 w 3 = unat w div 256 div 256 div 256"
    by (simp add: octet4_def div_mult2_eq [symmetric])
  have "octet4 w 2 = unat w div 256 div 256 mod 256" "octet4 w 1 = unat w div 256 mod 256"
      "octet4 w 0 = unat w mod 256"
    by (simp_all add: octet4_def div_mult2_eq [symmetric])
  with top show ?thesis by (simp add: octets_value_def mult.commute)
qed

lemma parseIPv4_string4: "parseIPv4 (string4 w) = Some (Addr4 w)"
  using octets_of_word4 [of w]
  by (simp add: parseIPv4_def string4_def parseIPv4Fields_dot parseIPv4Fields_last)

lemma first_of_addr_digits:
  "list_all is_digit ds \<Longrightarrow> first_of_addr (ds @ s) = first_of_addr s"
  by (induction ds) (auto simp: is_digit_def)

lemma ParseAddr_string4 [simp]: "ParseAddr (string4 w) = Some (Addr4 w)"
proof -
  have "first_of_addr (string4 w) = Some (CHR ''.'')"
    by (simp add: string4_def first_of_addr_digits dec_digits)
  then show ?thesis by (simp add: ParseAddr_def parseIPv4_string4)
qed

lemma string4_inj: "string4 v = string4 w \<Longrightarrow> v = w"
  by (metis Addr.inject(1) ParseAddr_string4 option.inject)

lemma dec_no_slash: "CHR ''/'' \<notin> set (dec n)"
  using dec_digits [of n] by (auto simp: list_all_iff is_digit_def)

lemma string4_no_slash: "CHR ''/'' \<notin> set (string4 w)"
  by (simp add: string4_def dec_no_slash)

lemma dec_hd_bounds:
  assumes "length (dec n) > 1"
  shows "CHR ''1'' \<le> hd (dec n) \<and> hd (dec n) \<le> CHR ''9''"
proof -
  have *: "n \<ge> 10 \<Longrightarrow> \<exists>d. 1 \<le> d \<and> d < 10 \<and> hd (dec n) = digit_char d" for n
  proof (induction n rule: dec.induct)
    case (1 n)
    show ?case
    proof (cases "n div 10 < 10")
      case True
      with 1 have "1 \<le> n div 10" "hd (dec n) = digit_char (n div 10)"
        by (simp_all add: dec.simps [of n] dec.simps [of "n div 10"])
      with True show ?thesis by blast
    next
      case False
      with 1 show ?thesis by (auto simp: dec.simps [of n])
    qed
  qed
  have "n \<ge> 10" using assms by (cases "n < 10") (simp_all add: dec.simps [of n])
  then obtain d where d: "1 \<le> d" "d < 10" "hd (dec n) = digit_char d" using * by blast
  then have "(of_char (hd (dec n)) :: nat) = 48 + d"
    by (simp add: digit_char_def)
  then show ?thesis using d by (simp add: less_eq_char_def)
qed

lemma ParsePrefix_String4:
  assumes "pfx_ip p = Addr4 w" "0 < bitsPlusOne p" "bitsPlusOne p \<le> 33"
  shows "ParsePrefix (Prefix_String p) = Some p"
proof -
  define b where "b = bitsPlusOne p - 1"
  have p: "p = Prefix (Addr4 w) (b + 1)" and b: "b \<le> 32"
    using assms by (cases p, simp add: b_def)+
  have str: "Prefix_String p = string4 w @ CHR ''/'' # dec b"
    by (simp add: Prefix_String_def Prefix_IsValid_def p)
  have "last_index_of (CHR ''/'') (Prefix_String p) = Some (length (string4 w))"
    by (simp add: str last_index_of_snoc_absent dec_no_slash)
  moreover have "Atoi (dec b) = Some (int b)" using b by (intro Atoi_dec) simp
  moreover have "length (dec b) > 1 \<Longrightarrow> CHR ''1'' \<le> hd (dec b) \<and> hd (dec b) \<le> CHR ''9''"
    by (rule dec_hd_bounds)
  ultimately show ?thesis
    using b by (simp add: ParsePrefix_def str PrefixFrom_def Let_def) (simp add: p)
qed

definition ipv4_prefix :: "Prefix \<Rightarrow> bool" where
  "ipv4_prefix p \<longleftrightarrow> Is4 (pfx_ip p) \<and> 0 < bitsPlusOne p \<and> bitsPlusOne p \<le> 33"

lemma Is4_cases: "Is4 a \<Longrightarrow> \<exists>w. a = Addr4 w"
  by (cases a) auto

lemma ParsePrefix_String_ipv4: "ipv4_prefix p \<Longrightarrow> ParsePrefix (Prefix_String p) = Some p"
  using ParsePrefix_String4 Is4_cases unfolding ipv4_prefix_def by blast

section \<open>Parsed addresses and prefixes\<close>

lemma parseIPv4_shape: "parseIPv4 s = Some a \<Longrightarrow> \<exists>w. a = Addr4 w"
  by (auto simp: parseIPv4_def)

lemma parseIPv6_shape: "parseIPv6 s = Some a \<Longrightarrow> \<exists>w z. a = Addr6 w z"
  by (auto simp: parseIPv6_def Let_def split: option.splits if_splits prod.splits)

lemma ParseAddr_shape:
  "ParseAddr s = Some a \<Longrightarrow> (\<exists>w. a = Addr4 w) \<or> (\<exists>w z. a = Addr6 w z)"
  by (auto simp: ParseAddr_def dest: parseIPv4_shape parseIPv6_shape split: option.splits if_splits)

lemma ParseAddr_nonzero [simp]: "ParseAddr s \<noteq> Some ZeroAddr"
  using ParseAddr_shape by fastforce

lemma PrefixFrom_valid:
  "ip \<noteq> ZeroAddr \<Longrightarrow> 0 \<le> bits \<Longrightarrow> bits \<le> int (BitLen ip) \<Longrightarrow> Prefix_IsValid (PrefixFrom ip bits)"
  by (simp add: PrefixFrom_def Prefix_IsValid_def)

lemma ParsePrefix_valid: "ParsePrefix s = Some p \<Longrightarrow> Prefix_IsValid p"
  by (auto simp: ParsePrefix_def Let_def dest!: ParseAddr_shape
      intro!: PrefixFrom_valid split: option.splits if_splits)

lemma ParsePrefix_ipv4:
  assumes "ParsePrefix s = Some p" "Is4 (pfx_ip p)"
  shows "ipv4_prefix p"
proof -
  have "0 < bitsPlusOne p" using ParsePrefix_valid [OF assms(1)] by (simp add: Prefix_IsValid_def)
  moreover have "bitsPlusOne p \<le> 33"
  proof -
    obtain ip bits where p: "p = PrefixFrom ip bits"
      using assms(1) by (auto simp: ParsePrefix_def Let_def split: option.splits if_splits)
    then show ?thesis using assms(2) by (cases ip) (auto simp: PrefixFrom_def)
  qed
  ultimately show ?thesis using assms(2) by (simp add: ipv4_prefix_def)
qed

section \<open>Containment\<close>

definition host_prefix :: "Addr \<Rightarrow> Prefix" where
  "host_prefix a = PrefixFrom a (int (BitLen a))"

lemma Contains_zone: "Contains p a \<Longrightarrow> Zone a = []"
  by (auto simp: Contains_def split: if_splits)

lemma Contains_BitLen: "Contains p a \<Longrightarrow> BitLen a = BitLen (pfx_ip p)"
  by (auto simp: Contains_def split: if_splits Addr.splits)

lemma xor_zero_iff: "a XOR b = 0 \<longleftrightarrow> a = b" for a b :: "'a::len word"
  by (metis xor.right_neutral xor.left_commute xor_self_eq)

lemma Contains_host_iff:
  assumes "Zone a = []"
  shows "Contains (host_prefix a) b \<longleftrightarrow> a = b \<and> a \<noteq> ZeroAddr"
  using assms
  by (cases a; cases b)
    (auto simp: Contains_def host_prefix_def PrefixFrom_def Prefix_IsValid_def xor_zero_iff)

lemma host_prefix_inj:
  assumes "Zone a = []" "Zone b = []" "host_prefix a = host_prefix b"
  shows "a = b"
  using assms by (cases a; cases b) (auto simp: host_prefix_def PrefixFrom_def)

end
