(* ===== verification/Spec_Types.thy ===== *)
theory Spec_Types
  imports Go_Netip
begin

text \<open>
  Package \<^verbatim>\<open>internal/spec\<close>, data and lookups: the network document as an operator commits it
  (\<^verbatim>\<open>types.go\<close>), the defaults (\<^verbatim>\<open>defaults.go\<close>) and the lookups (\<^verbatim>\<open>lookup.go\<close>). Field names
  carry the name of their struct. Go's \<^verbatim>\<open>int\<close> and \<^verbatim>\<open>time.Duration\<close> fields are integers here:
  nothing in the package computes with them but the YAML decoding of a duration, where the
  wrap-around is written out. The last section gives the laws of the lookups as a locale and
  interprets it for hubs and for agents.
\<close>

section \<open>types.go\<close>

definition APIVersion :: string where "APIVersion = ''seine.io/v1''"
definition Kind :: string where "Kind = ''Network''"

definition DefaultMTU :: int where "DefaultMTU = 1420"
definition DefaultPersistentKeepalive :: int where "DefaultPersistentKeepalive = 25 * 1000000000"
definition DefaultHubListenPort :: int where "DefaultHubListenPort = 51820"

definition ActionAllow :: string where "ActionAllow = ''allow''"
definition ActionDeny :: string where "ActionDeny = ''deny''"

lemmas [eval_simps] = APIVersion_def Kind_def DefaultMTU_def DefaultPersistentKeepalive_def
  DefaultHubListenPort_def ActionAllow_def ActionDeny_def

record Metadata =
  Metadata_Name :: string
  Metadata_Description :: string

record WireGuard =
  MTU :: int
  PersistentKeepalive :: int
  HubListenPort :: int

record Hub =
  Hub_Name :: string
  Hub_Endpoint :: string
  Hub_TunnelIP :: string

record Agent =
  Agent_Name :: string
  Agent_TunnelIP :: string
  Agent_Hub :: string
  Agent_Groups :: "string list"

record ACL =
  ACL_From :: "string list"
  ACL_To :: "string list"
  ACL_Action :: string

record Network =
  CIDR :: string
  Network_WireGuard :: WireGuard
  Hubs :: "Hub list"
  Agents :: "Agent list"
  Groups :: "string list"
  ACLs :: "ACL list"

record Document =
  Document_APIVersion :: string
  Document_Kind :: string
  Document_Metadata :: Metadata
  Document_Spec :: Network

section \<open>defaults.go\<close>

definition wg_defaults :: "WireGuard \<Rightarrow> WireGuard" where
  "wg_defaults w =
     (let w1 = (if MTU w = 0 then w\<lparr>MTU := DefaultMTU\<rparr> else w);
          w2 = (if PersistentKeepalive w1 = 0
                then w1\<lparr>PersistentKeepalive := DefaultPersistentKeepalive\<rparr> else w1)
      in if HubListenPort w2 = 0 then w2\<lparr>HubListenPort := DefaultHubListenPort\<rparr> else w2)"

definition ApplyDefaults :: "Document \<Rightarrow> Document" where
  "ApplyDefaults d =
     (let d1 = (if Document_APIVersion d = [] then d\<lparr>Document_APIVersion := APIVersion\<rparr> else d);
          d2 = (if Document_Kind d1 = [] then d1\<lparr>Document_Kind := Kind\<rparr> else d1)
      in d2\<lparr>Document_Spec :=
              (Document_Spec d2)\<lparr>Network_WireGuard := wg_defaults (Network_WireGuard (Document_Spec d2))\<rparr>\<rparr>)"

section \<open>lookup.go\<close>

definition FindHub :: "Document \<Rightarrow> string \<Rightarrow> Hub option" where
  "FindHub d name = find (\<lambda>h. Hub_Name h = name) (Hubs (Document_Spec d))"

definition FindAgent :: "Document \<Rightarrow> string \<Rightarrow> Agent option" where
  "FindAgent d name = find (\<lambda>a. Agent_Name a = name) (Agents (Document_Spec d))"

definition AgentsForHub :: "Document \<Rightarrow> string \<Rightarrow> Agent list" where
  "AgentsForHub d hubName = filter (\<lambda>a. Agent_Hub a = hubName) (Agents (Document_Spec d))"

definition HasGroup :: "Document \<Rightarrow> string \<Rightarrow> bool" where
  "HasGroup d name = list_ex (\<lambda>g. g = name) (Groups (Document_Spec d))"

lemmas [eval_simps] = wg_defaults_def ApplyDefaults_def FindHub_def FindAgent_def
  AgentsForHub_def HasGroup_def

section \<open>Defaults\<close>

text \<open>Zero values are filled and everything else is kept.\<close>

lemma wg_defaults_fields [simp]:
  "MTU (wg_defaults w) = (if MTU w = 0 then DefaultMTU else MTU w)"
  "PersistentKeepalive (wg_defaults w) =
     (if PersistentKeepalive w = 0 then DefaultPersistentKeepalive else PersistentKeepalive w)"
  "HubListenPort (wg_defaults w) =
     (if HubListenPort w = 0 then DefaultHubListenPort else HubListenPort w)"
  by (auto simp: wg_defaults_def Let_def)

lemma wg_defaults_idem [simp]: "wg_defaults (wg_defaults w) = wg_defaults w"
  by (simp add: wg_defaults_def Let_def DefaultMTU_def DefaultPersistentKeepalive_def
      DefaultHubListenPort_def)

lemma ApplyDefaults_fields [simp]:
  "Document_APIVersion (ApplyDefaults d) =
     (if Document_APIVersion d = [] then APIVersion else Document_APIVersion d)"
  "Document_Kind (ApplyDefaults d) = (if Document_Kind d = [] then Kind else Document_Kind d)"
  "Document_Metadata (ApplyDefaults d) = Document_Metadata d"
  "Network_WireGuard (Document_Spec (ApplyDefaults d)) =
     wg_defaults (Network_WireGuard (Document_Spec d))"
  "CIDR (Document_Spec (ApplyDefaults d)) = CIDR (Document_Spec d)"
  "Hubs (Document_Spec (ApplyDefaults d)) = Hubs (Document_Spec d)"
  "Agents (Document_Spec (ApplyDefaults d)) = Agents (Document_Spec d)"
  "Groups (Document_Spec (ApplyDefaults d)) = Groups (Document_Spec d)"
  "ACLs (Document_Spec (ApplyDefaults d)) = ACLs (Document_Spec d)"
  by (simp_all add: ApplyDefaults_def Let_def)

lemma ApplyDefaults_fixed_point:
  assumes "Document_APIVersion d \<noteq> []" "Document_Kind d \<noteq> []"
    and "wg_defaults (Network_WireGuard (Document_Spec d)) = Network_WireGuard (Document_Spec d)"
  shows "ApplyDefaults d = d"
  using assms by (simp add: ApplyDefaults_def Let_def)

section \<open>Lookups\<close>

text \<open>
  The contract of a lookup by name over a declaration list: it returns a declared element of
  that name, fails exactly when there is none, and on a list without repeated names finds
  every element.
\<close>

locale named_lookup =
  fixes elems :: "Document \<Rightarrow> 'x list"
    and name_of :: "'x \<Rightarrow> string"
    and lookup :: "Document \<Rightarrow> string \<Rightarrow> 'x option"
  assumes lookup_eq_find: "lookup d n = find (\<lambda>x. name_of x = n) (elems d)"
begin

lemma lookup_SomeD: "lookup d n = Some x \<Longrightarrow> x \<in> set (elems d) \<and> name_of x = n"
  unfolding lookup_eq_find by (rule find_Some_in)

lemma lookup_None_iff: "lookup d n = None \<longleftrightarrow> n \<notin> name_of ` set (elems d)"
  by (auto simp: lookup_eq_find find_None_iff)

lemma lookup_distinct:
  "distinct (map name_of (elems d)) \<Longrightarrow> x \<in> set (elems d) \<Longrightarrow> lookup d (name_of x) = Some x"
  unfolding lookup_eq_find by (rule find_distinct)

lemma lookup_iff:
  "distinct (map name_of (elems d)) \<Longrightarrow>
     lookup d n = Some x \<longleftrightarrow> x \<in> set (elems d) \<and> name_of x = n"
  using lookup_SomeD lookup_distinct by blast

end

interpretation hubs: named_lookup "\<lambda>d. Hubs (Document_Spec d)" Hub_Name FindHub
  by unfold_locales (simp add: FindHub_def)

interpretation agents: named_lookup "\<lambda>d. Agents (Document_Spec d)" Agent_Name FindAgent
  by unfold_locales (simp add: FindAgent_def)

lemma AgentsForHub_set:
  "set (AgentsForHub d h) = {a \<in> set (Agents (Document_Spec d)). Agent_Hub a = h}"
  by (auto simp: AgentsForHub_def)

lemma HasGroup_iff [simp]: "HasGroup d g \<longleftrightarrow> g \<in> set (Groups (Document_Spec d))"
  by (auto simp: HasGroup_def list_ex_iff)

end
