(* ===== verification/Spec_Validate.thy ===== *)
theory Spec_Validate
  imports Spec_Types
begin

text \<open>
  Package \<^verbatim>\<open>internal/spec\<close>, \<^verbatim>\<open>validate.go\<close>: the DNS-1123 name pattern, the endpoint check and
  \<open>Validate\<close> with its accumulated errors. The state of the run (errors, declared groups,
  names in use, tunnel addresses in use, hub names) is a record the loops thread through. An
  error message is a value that names the offending path and value; \<^verbatim>\<open>errors.Join\<close> of no error
  is nil, so a document is accepted exactly when the list is empty. The theory states what
  acceptance means (\<open>wf_Document\<close>) and proves that \<open>Validate\<close> decides it.
\<close>

section \<open>The name pattern\<close>

text \<open>
  Anchored regular expressions of the shape the package uses: byte classes, concatenation,
  an optional part and a bounded repetition.
\<close>

datatype regex =
    RClass "(char \<times> char) list"
  | RCat regex regex
  | ROpt regex
  | RRep nat nat regex

fun rep_match :: "(string \<Rightarrow> bool) \<Rightarrow> nat \<Rightarrow> nat \<Rightarrow> string \<Rightarrow> bool" where
  "rep_match m lo 0 s = (lo = 0 \<and> s = [])"
| "rep_match m lo (Suc hi) s =
     ((lo = 0 \<and> s = []) \<or>
      (\<exists>i \<in> set [0 ..< length s + 1]. m (take i s) \<and> rep_match m (lo - 1) hi (drop i s)))"

primrec re_match :: "regex \<Rightarrow> string \<Rightarrow> bool" where
  "re_match (RClass rs) s =
     (case s of [c] \<Rightarrow> (\<exists>(lo, hi) \<in> set rs. lo \<le> c \<and> c \<le> hi) | _ \<Rightarrow> False)"
| "re_match (RCat a b) s =
     (\<exists>i \<in> set [0 ..< length s + 1]. re_match a (take i s) \<and> re_match b (drop i s))"
| "re_match (ROpt a) s = (s = [] \<or> re_match a s)"
| "re_match (RRep lo hi a) s = rep_match (re_match a) lo hi s"

definition alnum_class :: "(char \<times> char) list" where
  "alnum_class = [(CHR ''a'', CHR ''z''), (CHR ''0'', CHR ''9'')]"

definition dns1123Label :: regex where
  "dns1123Label =
     RCat (RClass alnum_class)
       (ROpt (RCat (RRep 0 61 (RClass ((CHR ''-'', CHR ''-'') # alnum_class))) (RClass alnum_class)))"

definition validName :: "string \<Rightarrow> bool" where
  "validName s = re_match dns1123Label s"

section \<open>Endpoints\<close>

datatype EndpointError = NotHostPort | HostEmpty | PortOutOfRange string

definition validateEndpoint :: "string \<Rightarrow> EndpointError option" where
  "validateEndpoint ep =
    (case SplitHostPort ep of
       None \<Rightarrow> Some NotHostPort
     | Some (host, port) \<Rightarrow>
         if host = [] then Some HostEmpty
         else case Atoi port of
                None \<Rightarrow> Some (PortOutOfRange port)
              | Some p \<Rightarrow> if p < 1 \<or> p > 65535 then Some (PortOutOfRange port) else None)"

section \<open>Validate\<close>

text \<open>Where an error was found: a declaration of the document by kind and index.\<close>

datatype Path = HubPath nat | AgentPath nat | ACLPath nat

datatype ValidationError =
    BadAPIVersion string
  | BadKind string
  | BadMetadataName string
  | BadCIDR string
  | InvalidCIDR string
  | BadMTU int
  | BadHubListenPort int
  | BadGroupName nat string
  | DuplicateGroup nat string
  | BadTunnelIP Path string
  | TunnelIPOutsideOverlay Path Addr Prefix
  | TunnelIPInUse Path Addr string
  | BadName Path string
  | NameInUse Path string string
  | EndpointRequired Path
  | BadEndpoint Path EndpointError
  | HubRequired Path
  | HubNotDeclared Path string
  | AgentGroupNotDeclared Path nat string
  | AgentGroupDuplicate Path nat string
  | BadAction Path string
  | FromEmpty Path
  | ToEmpty Path
  | FromNotDeclared Path nat string
  | ToNotDeclared Path nat string
  | NoHubs

record vstate =
  v_errs :: "ValidationError list"
  v_groups :: "string set"
  v_names :: "string \<rightharpoonup> string"
  v_tunnelIPs :: "Addr \<rightharpoonup> string"
  v_hubNames :: "string set"

definition init_vstate :: vstate where
  "init_vstate = \<lparr>v_errs = [], v_groups = {}, v_names = Map.empty, v_tunnelIPs = Map.empty, v_hubNames = {}\<rparr>"

definition v_add :: "ValidationError \<Rightarrow> vstate \<Rightarrow> vstate" where
  "v_add e st = st\<lparr>v_errs := v_errs st @ [e]\<rparr>"

definition v_add_if :: "bool \<Rightarrow> ValidationError \<Rightarrow> vstate \<Rightarrow> vstate" where
  "v_add_if b e st = (if b then v_add e st else st)"

definition validateEnvelope :: "Document \<Rightarrow> vstate \<Rightarrow> vstate" where
  "validateEnvelope d st =
     (let st = v_add_if (Document_APIVersion d \<noteq> APIVersion) (BadAPIVersion (Document_APIVersion d)) st;
          st = v_add_if (Document_Kind d \<noteq> Kind) (BadKind (Document_Kind d)) st
      in v_add_if (\<not> validName (Metadata_Name (Document_Metadata d)))
           (BadMetadataName (Metadata_Name (Document_Metadata d))) st)"

text \<open>The overlay prefix (the zero prefix when the CIDR does not parse) and the state.\<close>

definition validateCIDR :: "Document \<Rightarrow> vstate \<Rightarrow> Prefix \<times> vstate" where
  "validateCIDR d st =
     (let cidr = CIDR (Document_Spec d)
      in case ParsePrefix cidr of
           None \<Rightarrow> (ZeroPrefix, v_add (BadCIDR cidr) st)
         | Some overlay \<Rightarrow> (overlay, v_add_if (\<not> Prefix_IsValid overlay) (InvalidCIDR cidr) st))"

definition validateWireGuard :: "Document \<Rightarrow> vstate \<Rightarrow> vstate" where
  "validateWireGuard d st =
     (let wg = Network_WireGuard (Document_Spec d);
          st = v_add_if (MTU wg < 1280 \<or> MTU wg > 1500) (BadMTU (MTU wg)) st
      in v_add_if (HubListenPort wg < 1 \<or> HubListenPort wg > 65535) (BadHubListenPort (HubListenPort wg)) st)"

fun validateGroups :: "nat \<Rightarrow> string list \<Rightarrow> vstate \<Rightarrow> vstate" where
  "validateGroups i [] st = st"
| "validateGroups i (g # gs) st =
     (if \<not> validName g then validateGroups (i + 1) gs (v_add (BadGroupName i g) st)
      else if g \<in> v_groups st then validateGroups (i + 1) gs (v_add (DuplicateGroup i g) st)
      else validateGroups (i + 1) gs (st\<lparr>v_groups := insert g (v_groups st)\<rparr>))"

definition checkAddrInOverlay :: "Prefix \<Rightarrow> Path \<Rightarrow> string \<Rightarrow> vstate \<Rightarrow> vstate \<times> Addr \<times> bool" where
  "checkAddrInOverlay overlay path raw st =
    (case ParseAddr raw of
       None \<Rightarrow> (v_add (BadTunnelIP path raw) st, ZeroAddr, False)
     | Some addr \<Rightarrow>
         (let st = v_add_if (Prefix_IsValid overlay \<and> \<not> Contains overlay addr)
                     (TunnelIPOutsideOverlay path addr overlay) st;
              st = (case v_tunnelIPs st addr of
                      Some other \<Rightarrow> v_add (TunnelIPInUse path addr other) st
                    | None \<Rightarrow> st\<lparr>v_tunnelIPs := (v_tunnelIPs st)(addr \<mapsto> raw)\<rparr>)
          in (st, addr, True)))"

definition validateHub :: "Prefix \<Rightarrow> nat \<Rightarrow> Hub \<Rightarrow> vstate \<Rightarrow> vstate" where
  "validateHub overlay i h st =
     (let path = HubPath i;
          st = (if \<not> validName (Hub_Name h) then v_add (BadName path (Hub_Name h)) st
                else case v_names st (Hub_Name h) of
                       Some other \<Rightarrow> v_add (NameInUse path (Hub_Name h) other) st
                     | None \<Rightarrow> st\<lparr>v_names := (v_names st)(Hub_Name h \<mapsto> ''hub''),
                                 v_hubNames := insert (Hub_Name h) (v_hubNames st)\<rparr>);
          st = (if Hub_Endpoint h = [] then v_add (EndpointRequired path) st
                else case validateEndpoint (Hub_Endpoint h) of
                       Some e \<Rightarrow> v_add (BadEndpoint path e) st
                     | None \<Rightarrow> st)
      in fst (checkAddrInOverlay overlay path (Hub_TunnelIP h) st))"

fun validateHubs :: "Prefix \<Rightarrow> nat \<Rightarrow> Hub list \<Rightarrow> vstate \<Rightarrow> vstate" where
  "validateHubs overlay i [] st = st"
| "validateHubs overlay i (h # hs) st = validateHubs overlay (i + 1) hs (validateHub overlay i h st)"

text \<open>The inner loop over an agent's groups; \<open>seen\<close> is the source's \<open>seenG\<close>.\<close>

fun validateAgentGroups :: "Path \<Rightarrow> nat \<Rightarrow> string list \<Rightarrow> string set \<Rightarrow> vstate \<Rightarrow> vstate" where
  "validateAgentGroups path j [] seen st = st"
| "validateAgentGroups path j (g # gs) seen st =
     (let st = v_add_if (g \<notin> v_groups st) (AgentGroupNotDeclared path j g) st;
          st = v_add_if (g \<in> seen) (AgentGroupDuplicate path j g) st
      in validateAgentGroups path (j + 1) gs (insert g seen) st)"

definition validateAgent :: "Prefix \<Rightarrow> nat \<Rightarrow> Agent \<Rightarrow> vstate \<Rightarrow> vstate" where
  "validateAgent overlay i a st =
     (let path = AgentPath i;
          st = (if \<not> validName (Agent_Name a) then v_add (BadName path (Agent_Name a)) st
                else case v_names st (Agent_Name a) of
                       Some other \<Rightarrow> v_add (NameInUse path (Agent_Name a) other) st
                     | None \<Rightarrow> st\<lparr>v_names := (v_names st)(Agent_Name a \<mapsto> ''agent'')\<rparr>);
          st = fst (checkAddrInOverlay overlay path (Agent_TunnelIP a) st);
          st = (if Agent_Hub a = [] then v_add (HubRequired path) st
                else v_add_if (Agent_Hub a \<notin> v_hubNames st) (HubNotDeclared path (Agent_Hub a)) st)
      in validateAgentGroups path 0 (Agent_Groups a) {} st)"

fun validateAgents :: "Prefix \<Rightarrow> nat \<Rightarrow> Agent list \<Rightarrow> vstate \<Rightarrow> vstate" where
  "validateAgents overlay i [] st = st"
| "validateAgents overlay i (a # as) st = validateAgents overlay (i + 1) as (validateAgent overlay i a st)"

fun validateFrom :: "Path \<Rightarrow> nat \<Rightarrow> string list \<Rightarrow> vstate \<Rightarrow> vstate" where
  "validateFrom path j [] st = st"
| "validateFrom path j (g # gs) st =
     validateFrom path (j + 1) gs (v_add_if (g \<notin> v_groups st) (FromNotDeclared path j g) st)"

fun validateTo :: "Path \<Rightarrow> nat \<Rightarrow> string list \<Rightarrow> vstate \<Rightarrow> vstate" where
  "validateTo path j [] st = st"
| "validateTo path j (g # gs) st =
     validateTo path (j + 1) gs (v_add_if (g \<notin> v_groups st) (ToNotDeclared path j g) st)"

definition validateACL :: "nat \<Rightarrow> ACL \<Rightarrow> vstate \<Rightarrow> vstate" where
  "validateACL i r st =
     (let path = ACLPath i;
          st = v_add_if (ACL_Action r \<noteq> ActionAllow \<and> ACL_Action r \<noteq> ActionDeny)
                 (BadAction path (ACL_Action r)) st;
          st = v_add_if (length (ACL_From r) = 0) (FromEmpty path) st;
          st = v_add_if (length (ACL_To r) = 0) (ToEmpty path) st;
          st = validateFrom path 0 (ACL_From r) st
      in validateTo path 0 (ACL_To r) st)"

fun validateACLs :: "nat \<Rightarrow> ACL list \<Rightarrow> vstate \<Rightarrow> vstate" where
  "validateACLs i [] st = st"
| "validateACLs i (r # rs) st = validateACLs (i + 1) rs (validateACL i r st)"

definition Validate :: "Document \<Rightarrow> ValidationError list" where
  "Validate d =
     (let st = validateEnvelope d init_vstate;
          (overlay, st) = validateCIDR d st;
          st = validateWireGuard d st;
          st = validateGroups 0 (Groups (Document_Spec d)) st;
          st = validateHubs overlay 0 (Hubs (Document_Spec d)) st;
          st = validateAgents overlay 0 (Agents (Document_Spec d)) st;
          st = validateACLs 0 (ACLs (Document_Spec d)) st;
          st = v_add_if (length (Hubs (Document_Spec d)) = 0) NoHubs st
      in v_errs st)"

section \<open>What an accepted document promises\<close>

definition node_names :: "Document \<Rightarrow> string list" where
  "node_names d = map Hub_Name (Hubs (Document_Spec d)) @ map Agent_Name (Agents (Document_Spec d))"

definition node_ips :: "Document \<Rightarrow> string list" where
  "node_ips d = map Hub_TunnelIP (Hubs (Document_Spec d)) @ map Agent_TunnelIP (Agents (Document_Spec d))"

definition wf_envelope :: "Document \<Rightarrow> bool" where
  "wf_envelope d \<longleftrightarrow>
     Document_APIVersion d = APIVersion \<and> Document_Kind d = Kind \<and>
     validName (Metadata_Name (Document_Metadata d)) \<and>
     1280 \<le> MTU (Network_WireGuard (Document_Spec d)) \<and>
     MTU (Network_WireGuard (Document_Spec d)) \<le> 1500 \<and>
     1 \<le> HubListenPort (Network_WireGuard (Document_Spec d)) \<and>
     HubListenPort (Network_WireGuard (Document_Spec d)) \<le> 65535"

definition wf_names :: "Document \<Rightarrow> bool" where
  "wf_names d \<longleftrightarrow>
     (\<forall>g \<in> set (Groups (Document_Spec d)). validName g) \<and> distinct (Groups (Document_Spec d)) \<and>
     (\<forall>n \<in> set (node_names d). validName n) \<and> distinct (node_names d)"

definition wf_addrs :: "Document \<Rightarrow> bool" where
  "wf_addrs d \<longleftrightarrow>
     (\<exists>overlay. ParsePrefix (CIDR (Document_Spec d)) = Some overlay \<and>
        (\<forall>ip \<in> set (node_ips d). \<exists>a. ParseAddr ip = Some a \<and> Contains overlay a)) \<and>
     distinct (map ParseAddr (node_ips d))"

definition wf_refs :: "Document \<Rightarrow> bool" where
  "wf_refs d \<longleftrightarrow>
     Hubs (Document_Spec d) \<noteq> [] \<and>
     (\<forall>h \<in> set (Hubs (Document_Spec d)). validateEndpoint (Hub_Endpoint h) = None) \<and>
     (\<forall>a \<in> set (Agents (Document_Spec d)).
        Agent_Hub a \<in> Hub_Name ` set (Hubs (Document_Spec d)) \<and>
        set (Agent_Groups a) \<subseteq> set (Groups (Document_Spec d)) \<and> distinct (Agent_Groups a)) \<and>
     (\<forall>r \<in> set (ACLs (Document_Spec d)).
        ACL_Action r \<in> {ActionAllow, ActionDeny} \<and> ACL_From r \<noteq> [] \<and> ACL_To r \<noteq> [] \<and>
        set (ACL_From r) \<union> set (ACL_To r) \<subseteq> set (Groups (Document_Spec d)))"

definition wf_Document :: "Document \<Rightarrow> bool" where
  "wf_Document d \<longleftrightarrow> wf_envelope d \<and> wf_names d \<and> wf_addrs d \<and> wf_refs d"

section \<open>The name pattern, characterised\<close>

definition is_alnum :: "char \<Rightarrow> bool" where
  "is_alnum c \<longleftrightarrow> (CHR ''a'' \<le> c \<and> c \<le> CHR ''z'') \<or> (CHR ''0'' \<le> c \<and> c \<le> CHR ''9'')"

definition is_label_char :: "char \<Rightarrow> bool" where
  "is_label_char c \<longleftrightarrow> c = CHR ''-'' \<or> is_alnum c"

definition one_char :: "(char \<Rightarrow> bool) \<Rightarrow> string \<Rightarrow> bool" where
  "one_char P s = (case s of [c] \<Rightarrow> P c | _ \<Rightarrow> False)"

lemma one_char_iff: "one_char P s \<longleftrightarrow> (\<exists>c. s = [c] \<and> P c)"
  by (auto simp: one_char_def split: list.splits)

lemma splits_iff:
  "(\<exists>i \<in> set [0 ..< length s + 1]. P (take i s) (drop i s)) \<longleftrightarrow> (\<exists>u v. s = u @ v \<and> P u v)"
proof
  assume "\<exists>u v. s = u @ v \<and> P u v"
  then obtain u v where "s = u @ v" "P u v" by blast
  then show "\<exists>i \<in> set [0 ..< length s + 1]. P (take i s) (drop i s)"
    by (intro bexI [of _ "length u"]) auto
qed (metis append_take_drop_id)

lemma ex_one_first: "(\<exists>u v. s = u @ v \<and> one_char P u \<and> Q v) \<longleftrightarrow> (\<exists>c v. s = c # v \<and> P c \<and> Q v)"
  unfolding one_char_iff by (metis append_Cons append_Nil)

lemma ex_one_last: "(\<exists>u v. s = u @ v \<and> Q u \<and> one_char P v) \<longleftrightarrow> (\<exists>u c. s = u @ [c] \<and> Q u \<and> P c)"
  unfolding one_char_iff by metis

lemma re_match_RCat: "re_match (RCat a b) s \<longleftrightarrow> (\<exists>u v. s = u @ v \<and> re_match a u \<and> re_match b v)"
  using splits_iff [of s "\<lambda>u v. re_match a u \<and> re_match b v"] by simp

lemma rep_match_Suc:
  "rep_match m lo (Suc hi) s \<longleftrightarrow>
     (lo = 0 \<and> s = []) \<or> (\<exists>u v. s = u @ v \<and> m u \<and> rep_match m (lo - 1) hi v)"
  using splits_iff [of s "\<lambda>u v. m u \<and> rep_match m (lo - 1) hi v"] by simp

lemma rep_match_one_char:
  "rep_match (one_char P) 0 n s \<longleftrightarrow> length s \<le> n \<and> list_all P s"
proof (induction n arbitrary: s)
  case (Suc n)
  have "rep_match (one_char P) 0 (Suc n) s \<longleftrightarrow>
      s = [] \<or> (\<exists>u v. s = u @ v \<and> one_char P u \<and> length v \<le> n \<and> list_all P v)"
    unfolding rep_match_Suc by (simp add: Suc)
  then show ?case unfolding ex_one_first by (cases s) auto
qed auto

lemma re_match_class:
  "re_match (RClass alnum_class) = one_char is_alnum"
  "re_match (RClass ((CHR ''-'', CHR ''-'') # alnum_class)) = one_char is_label_char"
  by (auto simp: fun_eq_iff one_char_def alnum_class_def is_alnum_def is_label_char_def
      split: list.splits)

lemma validName_unfold:
  "validName s \<longleftrightarrow>
     (\<exists>c t. s = c # t \<and> is_alnum c \<and>
        (t = [] \<or> (\<exists>m e. t = m @ [e] \<and> length m \<le> 61 \<and> list_all is_label_char m \<and> is_alnum e)))"
  unfolding validName_def dns1123Label_def re_match_RCat re_match.simps(3,4) re_match_class
    rep_match_one_char ex_one_last ex_one_first
  by auto

lemma validName_code [code]:
  "validName s =
     (case s of
        [] \<Rightarrow> False
      | c # t \<Rightarrow> is_alnum c \<and>
          (t = [] \<or> length t \<le> 62 \<and> list_all is_label_char (butlast t) \<and> is_alnum (last t)))"
proof (cases s)
  case (Cons c t)
  show ?thesis
  proof (cases t rule: rev_cases)
    case Nil
    then show ?thesis by (simp add: validName_unfold Cons)
  next
    case (snoc m e)
    then show ?thesis by (auto simp: validName_unfold Cons)
  qed
qed (simp add: validName_unfold)

lemmas [eval_simps] = validName_code is_alnum_def is_label_char_def

lemma validName_nonempty [simp]: "\<not> validName []"
  by (simp add: validName_code)

section \<open>Error bookkeeping\<close>

lemma v_add_simps [simp]:
  "v_errs (v_add e st) = v_errs st @ [e]" "v_groups (v_add e st) = v_groups st"
  "v_names (v_add e st) = v_names st" "v_tunnelIPs (v_add e st) = v_tunnelIPs st"
  "v_hubNames (v_add e st) = v_hubNames st"
  by (simp_all add: v_add_def)

lemma v_add_if_simps [simp]:
  "v_errs (v_add_if b e st) = [] \<longleftrightarrow> v_errs st = [] \<and> \<not> b"
  "v_groups (v_add_if b e st) = v_groups st" "v_names (v_add_if b e st) = v_names st"
  "v_tunnelIPs (v_add_if b e st) = v_tunnelIPs st" "v_hubNames (v_add_if b e st) = v_hubNames st"
  by (simp_all add: v_add_if_def)

text \<open>Addresses in use, as parse results.\<close>

definition v_used :: "vstate \<Rightarrow> Addr option set" where
  "v_used st = Some ` dom (v_tunnelIPs st)"

definition ok_addr :: "Prefix \<Rightarrow> string \<Rightarrow> bool" where
  "ok_addr overlay raw \<longleftrightarrow> (\<exists>a. ParseAddr raw = Some a \<and> Contains overlay a)"

section \<open>Stage by stage\<close>

lemma validateGroups_frame [simp]:
  "v_names (validateGroups i gs st) = v_names st"
  "v_tunnelIPs (validateGroups i gs st) = v_tunnelIPs st"
  "v_hubNames (validateGroups i gs st) = v_hubNames st"
  by (induction i gs st rule: validateGroups.induct) auto

lemma validateGroups_ok:
  "v_errs (validateGroups i gs st) = [] \<longleftrightarrow>
     v_errs st = [] \<and> (\<forall>g \<in> set gs. validName g) \<and> distinct gs \<and> set gs \<inter> v_groups st = {}"
  by (induction i gs st rule: validateGroups.induct) auto

lemma validateGroups_groups:
  "v_errs (validateGroups i gs st) = [] \<Longrightarrow> v_groups (validateGroups i gs st) = v_groups st \<union> set gs"
  by (induction i gs st rule: validateGroups.induct) (auto simp: validateGroups_ok)

lemma checkAddrInOverlay_frame [simp]:
  "v_names (fst (checkAddrInOverlay ov p raw st)) = v_names st"
  "v_groups (fst (checkAddrInOverlay ov p raw st)) = v_groups st"
  "v_hubNames (fst (checkAddrInOverlay ov p raw st)) = v_hubNames st"
  by (auto simp: checkAddrInOverlay_def Let_def split: option.splits)

lemma checkAddrInOverlay_ok:
  assumes "Prefix_IsValid ov"
  shows "v_errs (fst (checkAddrInOverlay ov p raw st)) = [] \<longleftrightarrow>
     v_errs st = [] \<and> ok_addr ov raw \<and> ParseAddr raw \<notin> v_used st"
  using assms
  by (auto simp: checkAddrInOverlay_def ok_addr_def v_used_def Let_def split: option.splits)

lemma checkAddrInOverlay_used:
  assumes "Prefix_IsValid ov" "v_errs (fst (checkAddrInOverlay ov p raw st)) = []"
  shows "v_used (fst (checkAddrInOverlay ov p raw st)) = insert (ParseAddr raw) (v_used st)"
  using assms
  by (auto simp: checkAddrInOverlay_def ok_addr_def v_used_def Let_def split: option.splits)

lemma validateEndpoint_empty [simp]: "validateEndpoint [] = Some NotHostPort"
  by (simp add: validateEndpoint_def SplitHostPort_def last_index_of_def)

text \<open>One hub: its own conditions, and what it leaves in use.\<close>

definition ok_hub :: "Prefix \<Rightarrow> Hub \<Rightarrow> bool" where
  "ok_hub ov h \<longleftrightarrow> validName (Hub_Name h) \<and> validateEndpoint (Hub_Endpoint h) = None \<and>
     ok_addr ov (Hub_TunnelIP h)"

lemma validateHub_ok:
  assumes "Prefix_IsValid ov"
  shows "v_errs (validateHub ov i h st) = [] \<longleftrightarrow>
     v_errs st = [] \<and> ok_hub ov h \<and> Hub_Name h \<notin> dom (v_names st) \<and>
     ParseAddr (Hub_TunnelIP h) \<notin> v_used st"
  using assms
  by (auto simp: validateHub_def Let_def checkAddrInOverlay_ok ok_hub_def v_used_def
      split: option.splits)

lemma validateHub_post:
  assumes "Prefix_IsValid ov" "v_errs (validateHub ov i h st) = []"
  shows "dom (v_names (validateHub ov i h st)) = insert (Hub_Name h) (dom (v_names st))"
    and "v_hubNames (validateHub ov i h st) = insert (Hub_Name h) (v_hubNames st)"
    and "v_groups (validateHub ov i h st) = v_groups st"
    and "v_used (validateHub ov i h st) = insert (ParseAddr (Hub_TunnelIP h)) (v_used st)"
proof -
  note ok = assms(2) [unfolded validateHub_ok [OF assms(1)] ok_hub_def]
  show "dom (v_names (validateHub ov i h st)) = insert (Hub_Name h) (dom (v_names st))"
      "v_hubNames (validateHub ov i h st) = insert (Hub_Name h) (v_hubNames st)"
      "v_groups (validateHub ov i h st) = v_groups st"
    using ok by (auto simp: validateHub_def Let_def split: option.splits)
  show "v_used (validateHub ov i h st) = insert (ParseAddr (Hub_TunnelIP h)) (v_used st)"
    using assms(2) unfolding validateHub_def Let_def
    by (subst checkAddrInOverlay_used [OF assms(1)])
      (use ok in \<open>auto simp: v_used_def split: option.splits\<close>)
qed

lemma validateHubs_ok:
  assumes "Prefix_IsValid ov"
  shows "v_errs (validateHubs ov i hs st) = [] \<longleftrightarrow>
     v_errs st = [] \<and> (\<forall>h \<in> set hs. ok_hub ov h) \<and>
     distinct (map Hub_Name hs) \<and> Hub_Name ` set hs \<inter> dom (v_names st) = {} \<and>
     distinct (map (\<lambda>h. ParseAddr (Hub_TunnelIP h)) hs) \<and>
     (\<lambda>h. ParseAddr (Hub_TunnelIP h)) ` set hs \<inter> v_used st = {}"
proof (induction hs arbitrary: i st)
  case (Cons h hs)
  show ?case
  proof (cases "v_errs (validateHub ov i h st) = []")
    case True
    with Cons show ?thesis
      by (auto simp: validateHub_ok [OF assms] validateHub_post [OF assms])
  next
    case False
    with Cons show ?thesis by (auto simp: validateHub_ok [OF assms])
  qed
qed simp

lemma validateHubs_post:
  assumes "Prefix_IsValid ov" "v_errs (validateHubs ov i hs st) = []"
  shows "dom (v_names (validateHubs ov i hs st)) = dom (v_names st) \<union> Hub_Name ` set hs \<and>
    v_hubNames (validateHubs ov i hs st) = v_hubNames st \<union> Hub_Name ` set hs \<and>
    v_groups (validateHubs ov i hs st) = v_groups st \<and>
    v_used (validateHubs ov i hs st) = v_used st \<union> (\<lambda>h. ParseAddr (Hub_TunnelIP h)) ` set hs"
  using assms(2)
proof (induction hs arbitrary: i st)
  case (Cons h hs)
  then have "v_errs (validateHub ov i h st) = []" by (simp add: validateHubs_ok [OF assms(1)])
  with Cons show ?case by (auto simp: validateHub_post [OF assms(1)])
qed simp

lemma validateAgentGroups_frame [simp]:
  "v_names (validateAgentGroups p j gs seen st) = v_names st"
  "v_groups (validateAgentGroups p j gs seen st) = v_groups st"
  "v_tunnelIPs (validateAgentGroups p j gs seen st) = v_tunnelIPs st"
  "v_hubNames (validateAgentGroups p j gs seen st) = v_hubNames st"
  by (induction p j gs seen st rule: validateAgentGroups.induct) (auto simp: Let_def)

lemma validateAgentGroups_ok:
  "v_errs (validateAgentGroups p j gs seen st) = [] \<longleftrightarrow>
     v_errs st = [] \<and> set gs \<subseteq> v_groups st \<and> distinct gs \<and> set gs \<inter> seen = {}"
  by (induction p j gs seen st rule: validateAgentGroups.induct) (auto simp: Let_def)

definition ok_agent :: "Prefix \<Rightarrow> string set \<Rightarrow> string set \<Rightarrow> Agent \<Rightarrow> bool" where
  "ok_agent ov hubs grps a \<longleftrightarrow> validName (Agent_Name a) \<and> ok_addr ov (Agent_TunnelIP a) \<and>
     Agent_Hub a \<noteq> [] \<and> Agent_Hub a \<in> hubs \<and> set (Agent_Groups a) \<subseteq> grps \<and> distinct (Agent_Groups a)"

lemma validateAgent_ok:
  assumes "Prefix_IsValid ov"
  shows "v_errs (validateAgent ov i a st) = [] \<longleftrightarrow>
     v_errs st = [] \<and> ok_agent ov (v_hubNames st) (v_groups st) a \<and>
     Agent_Name a \<notin> dom (v_names st) \<and> ParseAddr (Agent_TunnelIP a) \<notin> v_used st"
  using assms
  by (auto simp: validateAgent_def Let_def checkAddrInOverlay_ok validateAgentGroups_ok
      ok_agent_def v_used_def split: option.splits)

lemma validateAgent_post:
  assumes "Prefix_IsValid ov" "v_errs (validateAgent ov i a st) = []"
  shows "dom (v_names (validateAgent ov i a st)) = insert (Agent_Name a) (dom (v_names st))"
    and "v_hubNames (validateAgent ov i a st) = v_hubNames st"
    and "v_groups (validateAgent ov i a st) = v_groups st"
    and "v_used (validateAgent ov i a st) = insert (ParseAddr (Agent_TunnelIP a)) (v_used st)"
proof -
  note ok = assms(2) [unfolded validateAgent_ok [OF assms(1)] ok_agent_def]
  let ?st = "st\<lparr>v_names := (v_names st)(Agent_Name a \<mapsto> ''agent'')\<rparr>"
  have used: "v_used (fst (checkAddrInOverlay ov (AgentPath i) (Agent_TunnelIP a) ?st))
      = insert (ParseAddr (Agent_TunnelIP a)) (v_used st)"
    using ok by (subst checkAddrInOverlay_used [OF assms(1)])
      (auto simp: checkAddrInOverlay_ok [OF assms(1)] v_used_def)
  have none: "v_names st (Agent_Name a) = None" using ok by auto
  show "dom (v_names (validateAgent ov i a st)) = insert (Agent_Name a) (dom (v_names st))"
      "v_hubNames (validateAgent ov i a st) = v_hubNames st"
      "v_groups (validateAgent ov i a st) = v_groups st"
    using ok none by (simp_all add: validateAgent_def Let_def)
  show "v_used (validateAgent ov i a st) = insert (ParseAddr (Agent_TunnelIP a)) (v_used st)"
    using ok none used by (simp add: validateAgent_def Let_def v_used_def)
qed

lemma validateAgents_ok:
  assumes "Prefix_IsValid ov"
  shows "v_errs (validateAgents ov i as st) = [] \<longleftrightarrow>
     v_errs st = [] \<and> (\<forall>a \<in> set as. ok_agent ov (v_hubNames st) (v_groups st) a) \<and>
     distinct (map Agent_Name as) \<and> Agent_Name ` set as \<inter> dom (v_names st) = {} \<and>
     distinct (map (\<lambda>a. ParseAddr (Agent_TunnelIP a)) as) \<and>
     (\<lambda>a. ParseAddr (Agent_TunnelIP a)) ` set as \<inter> v_used st = {}"
proof (induction as arbitrary: i st)
  case (Cons a as)
  show ?case
  proof (cases "v_errs (validateAgent ov i a st) = []")
    case True
    with Cons show ?thesis
      by (auto simp: validateAgent_ok [OF assms] validateAgent_post [OF assms])
  next
    case False
    with Cons show ?thesis by (auto simp: validateAgent_ok [OF assms])
  qed
qed simp

lemma validateAgents_groups:
  assumes "Prefix_IsValid ov" "v_errs (validateAgents ov i as st) = []"
  shows "v_groups (validateAgents ov i as st) = v_groups st"
  using assms(2)
proof (induction as arbitrary: i st)
  case (Cons a as)
  then have "v_errs (validateAgent ov i a st) = []" by (simp add: validateAgents_ok [OF assms(1)])
  with Cons show ?case by (simp add: validateAgent_post [OF assms(1)])
qed simp

lemma validateFrom_ok:
  "v_errs (validateFrom p j gs st) = [] \<longleftrightarrow> v_errs st = [] \<and> set gs \<subseteq> v_groups st"
  by (induction p j gs st rule: validateFrom.induct) auto

lemma validateTo_ok:
  "v_errs (validateTo p j gs st) = [] \<longleftrightarrow> v_errs st = [] \<and> set gs \<subseteq> v_groups st"
  by (induction p j gs st rule: validateTo.induct) auto

lemma validateFrom_groups [simp]: "v_groups (validateFrom p j gs st) = v_groups st"
  by (induction p j gs st rule: validateFrom.induct) auto

lemma validateTo_groups [simp]: "v_groups (validateTo p j gs st) = v_groups st"
  by (induction p j gs st rule: validateTo.induct) auto

definition ok_acl :: "string set \<Rightarrow> ACL \<Rightarrow> bool" where
  "ok_acl grps r \<longleftrightarrow> ACL_Action r \<in> {ActionAllow, ActionDeny} \<and> ACL_From r \<noteq> [] \<and> ACL_To r \<noteq> [] \<and>
     set (ACL_From r) \<union> set (ACL_To r) \<subseteq> grps"

lemma validateACL_ok:
  "v_errs (validateACL i r st) = [] \<longleftrightarrow> v_errs st = [] \<and> ok_acl (v_groups st) r"
  by (auto simp: validateACL_def Let_def validateFrom_ok validateTo_ok ok_acl_def)

lemma validateACL_groups [simp]: "v_groups (validateACL i r st) = v_groups st"
  by (simp add: validateACL_def Let_def)

lemma validateACLs_ok:
  "v_errs (validateACLs i rs st) = [] \<longleftrightarrow> v_errs st = [] \<and> (\<forall>r \<in> set rs. ok_acl (v_groups st) r)"
  by (induction rs arbitrary: i st) (auto simp: validateACL_ok)

section \<open>Validate decides well-formedness\<close>

lemma validateEnvelope_simps [simp]:
  "v_errs (validateEnvelope d st) = [] \<longleftrightarrow>
     v_errs st = [] \<and> Document_APIVersion d = APIVersion \<and> Document_Kind d = Kind \<and>
     validName (Metadata_Name (Document_Metadata d))"
  "v_groups (validateEnvelope d st) = v_groups st" "v_names (validateEnvelope d st) = v_names st"
  "v_tunnelIPs (validateEnvelope d st) = v_tunnelIPs st"
  "v_hubNames (validateEnvelope d st) = v_hubNames st"
  by (auto simp: validateEnvelope_def Let_def)

lemma validateWireGuard_simps [simp]:
  "v_errs (validateWireGuard d st) = [] \<longleftrightarrow>
     v_errs st = [] \<and> 1280 \<le> MTU (Network_WireGuard (Document_Spec d)) \<and>
     MTU (Network_WireGuard (Document_Spec d)) \<le> 1500 \<and>
     1 \<le> HubListenPort (Network_WireGuard (Document_Spec d)) \<and>
     HubListenPort (Network_WireGuard (Document_Spec d)) \<le> 65535"
  "v_groups (validateWireGuard d st) = v_groups st" "v_names (validateWireGuard d st) = v_names st"
  "v_tunnelIPs (validateWireGuard d st) = v_tunnelIPs st"
  "v_hubNames (validateWireGuard d st) = v_hubNames st"
  by (auto simp: validateWireGuard_def Let_def)

lemma init_vstate_simps [simp]:
  "v_errs init_vstate = []" "v_groups init_vstate = {}" "v_names init_vstate = Map.empty"
  "v_tunnelIPs init_vstate = Map.empty" "v_hubNames init_vstate = {}"
  by (simp_all add: init_vstate_def)

text \<open>Whatever the overlay is, a stage that leaves no error was entered with none.\<close>

lemma validateHub_errs: "v_errs (validateHub ov i h st) = [] \<Longrightarrow> v_errs st = []"
  by (auto simp: validateHub_def checkAddrInOverlay_def Let_def split: option.splits if_splits)

lemma validateHubs_errs: "v_errs (validateHubs ov i hs st) = [] \<Longrightarrow> v_errs st = []"
  by (induction ov i hs st rule: validateHubs.induct) (auto dest: validateHub_errs)

lemma validateAgent_errs: "v_errs (validateAgent ov i a st) = [] \<Longrightarrow> v_errs st = []"
  by (auto simp: validateAgent_def checkAddrInOverlay_def validateAgentGroups_ok Let_def
      split: option.splits if_splits)

lemma validateAgents_errs: "v_errs (validateAgents ov i as st) = [] \<Longrightarrow> v_errs st = []"
  by (induction ov i as st rule: validateAgents.induct) (auto dest: validateAgent_errs)

lemma Validate_needs_CIDR:
  "Validate d = [] \<Longrightarrow> \<exists>ov. ParsePrefix (CIDR (Document_Spec d)) = Some ov"
  by (auto simp: Validate_def validateCIDR_def validateACLs_ok validateGroups_ok Let_def
      split: option.splits dest!: validateAgents_errs validateHubs_errs)

text \<open>
  With a CIDR that parses, the accumulated state after the hubs and agents is determined by
  the declarations, so the conditions of the stages add up to the specification.
\<close>

lemma Validate_with_CIDR:
  assumes cidr: "ParsePrefix (CIDR (Document_Spec d)) = Some ov"
  shows "Validate d = [] \<longleftrightarrow>
    wf_envelope d \<and>
    (\<forall>g \<in> set (Groups (Document_Spec d)). validName g) \<and> distinct (Groups (Document_Spec d)) \<and>
    (\<forall>h \<in> set (Hubs (Document_Spec d)). ok_hub ov h) \<and>
    (\<forall>a \<in> set (Agents (Document_Spec d)).
       ok_agent ov (Hub_Name ` set (Hubs (Document_Spec d))) (set (Groups (Document_Spec d))) a) \<and>
    distinct (node_names d) \<and> distinct (map ParseAddr (node_ips d)) \<and>
    (\<forall>r \<in> set (ACLs (Document_Spec d)). ok_acl (set (Groups (Document_Spec d))) r) \<and>
    Hubs (Document_Spec d) \<noteq> []"
proof -
  let ?s = "Document_Spec d"
  have ov: "Prefix_IsValid ov" using cidr by (rule ParsePrefix_valid)
  define s0 where "s0 = validateGroups 0 (Groups ?s) (validateWireGuard d (validateEnvelope d init_vstate))"
  define s1 where "s1 = validateHubs ov 0 (Hubs ?s) s0"
  define s2 where "s2 = validateAgents ov 0 (Agents ?s) s1"
  have V: "Validate d = [] \<longleftrightarrow>
      v_errs s2 = [] \<and> (\<forall>r \<in> set (ACLs ?s). ok_acl (v_groups s2) r) \<and> Hubs ?s \<noteq> []"
    by (simp add: Validate_def validateCIDR_def cidr ov Let_def s2_def s1_def s0_def validateACLs_ok
        v_add_if_def)
  have e0: "v_errs s0 = [] \<longleftrightarrow> wf_envelope d \<and> (\<forall>g \<in> set (Groups ?s). validName g) \<and> distinct (Groups ?s)"
    by (auto simp: s0_def validateGroups_ok wf_envelope_def)
  have g0: "v_errs s0 = [] \<Longrightarrow> v_groups s0 = set (Groups ?s)"
    unfolding s0_def by (drule validateGroups_groups) simp
  have f0: "v_names s0 = Map.empty" "v_used s0 = {}" "v_hubNames s0 = {}"
    by (simp_all add: s0_def v_used_def)
  have e1: "v_errs s1 = [] \<longleftrightarrow> v_errs s0 = [] \<and> (\<forall>h \<in> set (Hubs ?s). ok_hub ov h) \<and>
      distinct (map Hub_Name (Hubs ?s)) \<and> distinct (map (\<lambda>h. ParseAddr (Hub_TunnelIP h)) (Hubs ?s))"
    by (auto simp: s1_def validateHubs_ok [OF ov] f0)
  have p1: "dom (v_names s1) = Hub_Name ` set (Hubs ?s)" "v_hubNames s1 = Hub_Name ` set (Hubs ?s)"
      "v_groups s1 = v_groups s0" "v_used s1 = (\<lambda>h. ParseAddr (Hub_TunnelIP h)) ` set (Hubs ?s)"
    if "v_errs s1 = []"
    using validateHubs_post [OF ov, of 0 "Hubs ?s" s0] that by (simp_all add: s1_def f0)
  have p2: "v_groups s2 = v_groups s1" if "v_errs s2 = []"
    using validateAgents_groups [OF ov] that by (simp add: s2_def)
  have m1: "v_errs s2 = [] \<Longrightarrow> v_errs s1 = []" by (simp add: s2_def validateAgents_ok [OF ov])
  have e2: "v_errs s2 = [] \<longleftrightarrow> v_errs s1 = [] \<and>
      (\<forall>a \<in> set (Agents ?s). ok_agent ov (Hub_Name ` set (Hubs ?s)) (set (Groups ?s)) a) \<and>
      distinct (map Agent_Name (Agents ?s)) \<and> Agent_Name ` set (Agents ?s) \<inter> Hub_Name ` set (Hubs ?s) = {} \<and>
      distinct (map (\<lambda>a. ParseAddr (Agent_TunnelIP a)) (Agents ?s)) \<and>
      (\<lambda>a. ParseAddr (Agent_TunnelIP a)) ` set (Agents ?s) \<inter>
        (\<lambda>h. ParseAddr (Hub_TunnelIP h)) ` set (Hubs ?s) = {}"
  proof (cases "v_errs s1 = []")
    case True
    then have "v_groups s1 = set (Groups ?s)" using p1(3) g0 e1 by simp
    with True show ?thesis by (simp add: s2_def validateAgents_ok [OF ov] p1)
  next
    case False
    then show ?thesis by (simp add: s2_def validateAgents_ok [OF ov])
  qed
  have "v_errs s2 = [] \<Longrightarrow> v_groups s2 = set (Groups ?s)" using p2 p1 g0 e1 m1 by auto
  then have V': "Validate d = [] \<longleftrightarrow>
      v_errs s2 = [] \<and> (\<forall>r \<in> set (ACLs ?s). ok_acl (set (Groups ?s)) r) \<and> Hubs ?s \<noteq> []"
    using V by auto
  show ?thesis
    unfolding V' e2 e1 e0 node_names_def node_ips_def
    by (auto simp: comp_def)
qed

lemma Validate_iff: "Validate d = [] \<longleftrightarrow> wf_Document d"
proof (cases "ParsePrefix (CIDR (Document_Spec d))")
  case None
  then have "Validate d \<noteq> []" using Validate_needs_CIDR by fastforce
  moreover have "\<not> wf_Document d" using None by (simp add: wf_Document_def wf_addrs_def)
  ultimately show ?thesis by simp
next
  case (Some ov)
  show ?thesis
    unfolding Validate_with_CIDR [OF Some]
    unfolding wf_Document_def wf_names_def wf_addrs_def wf_refs_def Some
    unfolding ok_hub_def ok_agent_def ok_acl_def ok_addr_def node_names_def node_ips_def
    by (auto, metis UnI1 validName_nonempty)
qed

section \<open>What clients take from an accepted document\<close>

lemma wf_overlay [wf_dest]:
  "wf_Document d \<Longrightarrow> \<exists>ov. ParsePrefix (CIDR (Document_Spec d)) = Some ov"
  by (auto simp: wf_Document_def wf_addrs_def)

lemma wf_node_addr:
  assumes "wf_Document d" "ParsePrefix (CIDR (Document_Spec d)) = Some ov" "ip \<in> set (node_ips d)"
  shows "\<exists>a. ParseAddr ip = Some a \<and> Contains ov a \<and> Zone a = []"
  using assms Contains_zone by (fastforce simp: wf_Document_def wf_addrs_def)

lemma wf_hub_addr [wf_dest]:
  assumes "wf_Document d" "h \<in> set (Hubs (Document_Spec d))"
  shows "\<exists>a. ParseAddr (Hub_TunnelIP h) = Some a \<and> Zone a = []"
  using wf_node_addr [OF assms(1), of _ "Hub_TunnelIP h"] wf_overlay [OF assms(1)] assms(2)
  by (auto simp: node_ips_def)

lemma wf_agent_addr [wf_dest]:
  assumes "wf_Document d" "a \<in> set (Agents (Document_Spec d))"
  shows "\<exists>x. ParseAddr (Agent_TunnelIP a) = Some x \<and> Zone x = []"
  using wf_node_addr [OF assms(1), of _ "Agent_TunnelIP a"] wf_overlay [OF assms(1)] assms(2)
  by (auto simp: node_ips_def)

lemma wf_distinct_names [wf_dest]:
  assumes "wf_Document d"
  shows "distinct (map Hub_Name (Hubs (Document_Spec d)))"
    and "distinct (map Agent_Name (Agents (Document_Spec d)))"
    and "h \<in> set (Hubs (Document_Spec d)) \<Longrightarrow> a \<in> set (Agents (Document_Spec d)) \<Longrightarrow> Hub_Name h \<noteq> Agent_Name a"
proof -
  have d: "distinct (map Hub_Name (Hubs (Document_Spec d)) @ map Agent_Name (Agents (Document_Spec d)))"
    using assms by (simp add: wf_Document_def wf_names_def node_names_def)
  then show "distinct (map Hub_Name (Hubs (Document_Spec d)))"
    "distinct (map Agent_Name (Agents (Document_Spec d)))" by simp_all
  show "h \<in> set (Hubs (Document_Spec d)) \<Longrightarrow> a \<in> set (Agents (Document_Spec d)) \<Longrightarrow> Hub_Name h \<noteq> Agent_Name a"
    using d by fastforce
qed

lemma wf_addr_inj [wf_dest]:
  assumes "wf_Document d"
  shows "inj_on (\<lambda>h. ParseAddr (Hub_TunnelIP h)) (set (Hubs (Document_Spec d)))"
    and "inj_on (\<lambda>a. ParseAddr (Agent_TunnelIP a)) (set (Agents (Document_Spec d)))"
    and "h \<in> set (Hubs (Document_Spec d)) \<Longrightarrow> a \<in> set (Agents (Document_Spec d)) \<Longrightarrow>
      ParseAddr (Hub_TunnelIP h) \<noteq> ParseAddr (Agent_TunnelIP a)"
proof -
  have d: "distinct (map (\<lambda>h. ParseAddr (Hub_TunnelIP h)) (Hubs (Document_Spec d)) @
      map (\<lambda>a. ParseAddr (Agent_TunnelIP a)) (Agents (Document_Spec d)))"
    using assms by (simp add: wf_Document_def wf_addrs_def node_ips_def comp_def)
  then show "inj_on (\<lambda>h. ParseAddr (Hub_TunnelIP h)) (set (Hubs (Document_Spec d)))"
    "inj_on (\<lambda>a. ParseAddr (Agent_TunnelIP a)) (set (Agents (Document_Spec d)))"
    by (simp_all add: distinct_map)
  show "h \<in> set (Hubs (Document_Spec d)) \<Longrightarrow> a \<in> set (Agents (Document_Spec d)) \<Longrightarrow>
      ParseAddr (Hub_TunnelIP h) \<noteq> ParseAddr (Agent_TunnelIP a)"
    using d by fastforce
qed

lemma wf_agent_hub [wf_dest]:
  assumes "wf_Document d" "a \<in> set (Agents (Document_Spec d))"
  shows "\<exists>h \<in> set (Hubs (Document_Spec d)). Hub_Name h = Agent_Hub a"
  using assms by (fastforce simp: wf_Document_def wf_refs_def)

lemma wf_FindHub:
  "wf_Document d \<Longrightarrow> FindHub d n = Some h \<longleftrightarrow> h \<in> set (Hubs (Document_Spec d)) \<and> Hub_Name h = n"
  by (rule hubs.lookup_iff) (rule wf_distinct_names)

lemma wf_FindAgent:
  "wf_Document d \<Longrightarrow> FindAgent d n = Some a \<longleftrightarrow> a \<in> set (Agents (Document_Spec d)) \<and> Agent_Name a = n"
  by (rule agents.lookup_iff) (rule wf_distinct_names)

end
