(* ===== verification/Example_Network.thy ===== *)
theory Example_Network
  imports Spec_Validate
begin

text \<open>
  The reference network of \<^verbatim>\<open>examples/network.yaml\<close> as a document value: two hubs, three agents,
  three groups and three allow rules. The witnesses of the development evaluate on it.
\<close>

definition hub_eu :: Hub where
  "hub_eu = \<lparr>Hub_Name = ''hub-eu'', Hub_Endpoint = ''hub-eu.example.com:51820'', Hub_TunnelIP = ''100.64.0.1''\<rparr>"

definition hub_us :: Hub where
  "hub_us = \<lparr>Hub_Name = ''hub-us'', Hub_Endpoint = ''hub-us.example.com:51820'', Hub_TunnelIP = ''100.64.0.2''\<rparr>"

definition dev_laptop :: Agent where
  "dev_laptop = \<lparr>Agent_Name = ''dev-laptop'', Agent_TunnelIP = ''100.64.1.10'', Agent_Hub = ''hub-eu'',
     Agent_Groups = [''dev'']\<rparr>"

definition dev_server :: Agent where
  "dev_server = \<lparr>Agent_Name = ''dev-server'', Agent_TunnelIP = ''100.64.1.11'', Agent_Hub = ''hub-eu'',
     Agent_Groups = [''dev'', ''infra'']\<rparr>"

definition prod_server :: Agent where
  "prod_server = \<lparr>Agent_Name = ''prod-server'', Agent_TunnelIP = ''100.64.1.20'', Agent_Hub = ''hub-us'',
     Agent_Groups = [''prod'', ''infra'']\<rparr>"

definition example_doc :: Document where
  "example_doc =
     \<lparr>Document_APIVersion = ''seine.io/v1'', Document_Kind = ''Network'',
      Document_Metadata = \<lparr>Metadata_Name = ''corp-overlay'', Metadata_Description = ''Demo overlay''\<rparr>,
      Document_Spec =
        \<lparr>CIDR = ''100.64.0.0/10'',
         Network_WireGuard = \<lparr>MTU = 1420, PersistentKeepalive = 25000000000, HubListenPort = 51820\<rparr>,
         Hubs = [hub_eu, hub_us],
         Agents = [dev_laptop, dev_server, prod_server],
         Groups = [''dev'', ''prod'', ''infra''],
         ACLs =
           [\<lparr>ACL_From = [''dev''], ACL_To = [''dev'', ''infra''], ACL_Action = ''allow''\<rparr>,
            \<lparr>ACL_From = [''infra''], ACL_To = [''infra''], ACL_Action = ''allow''\<rparr>,
            \<lparr>ACL_From = [''prod''], ACL_To = [''infra''], ACL_Action = ''allow''\<rparr>]\<rparr>\<rparr>"

lemmas example_simps = example_doc_def hub_eu_def hub_us_def dev_laptop_def dev_server_def prod_server_def

text \<open>The addresses of the example, parsed.\<close>

lemma example_addrs [simp]:
  "ParseAddr ''100.64.0.1'' = Some (Addr4 0x64400001)"
  "ParseAddr ''100.64.0.2'' = Some (Addr4 0x64400002)"
  "ParseAddr ''100.64.1.10'' = Some (Addr4 0x6440010A)"
  "ParseAddr ''100.64.1.11'' = Some (Addr4 0x6440010B)"
  "ParseAddr ''100.64.1.20'' = Some (Addr4 0x64400114)"
  "ParsePrefix ''100.64.0.0/10'' = Some (Prefix (Addr4 0x64400000) 11)"
  by code_simp+

lemma example_contains [simp]:
  "Contains (Prefix (Addr4 0x64400000) 11) (Addr4 0x64400001)"
  "Contains (Prefix (Addr4 0x64400000) 11) (Addr4 0x64400002)"
  "Contains (Prefix (Addr4 0x64400000) 11) (Addr4 0x6440010A)"
  "Contains (Prefix (Addr4 0x64400000) 11) (Addr4 0x6440010B)"
  "Contains (Prefix (Addr4 0x64400000) 11) (Addr4 0x64400114)"
  by code_simp+

lemma example_endpoints [simp]:
  "validateEndpoint ''hub-eu.example.com:51820'' = None"
  "validateEndpoint ''hub-us.example.com:51820'' = None"
  by code_simp+

lemma example_names [simp]:
  "validName ''hub-eu''" "validName ''hub-us''" "validName ''dev-laptop''" "validName ''dev-server''"
  "validName ''prod-server''" "validName ''dev''" "validName ''prod''" "validName ''infra''"
  "validName ''corp-overlay''"
  by code_simp+

lemma wf_example [simp]: "wf_Document example_doc"
  unfolding wf_Document_def wf_envelope_def wf_names_def wf_addrs_def wf_refs_def
    node_names_def node_ips_def
  by (intro conjI) (simp_all add: example_simps APIVersion_def Kind_def ActionAllow_def ActionDeny_def)

lemma Validate_example: "Validate example_doc = []"
  by (simp add: Validate_iff)

lemma example_defaults [simp]: "ApplyDefaults example_doc = example_doc"
  by (rule ApplyDefaults_fixed_point) (simp_all add: example_simps wg_defaults_def Let_def)

end
