(* ===== verification/Go_Time.thy ===== *)
theory Go_Time
  imports Go_Strings
begin

text \<open>
  Go's \<^verbatim>\<open>time\<close> package as the program uses it: \<open>ParseDuration\<close> and \<^verbatim>\<open>Duration.String\<close>, with the
  overflow checks of the former and the \<^verbatim>\<open>float64\<close> arithmetic both need for fractions (a
  finite float is a mantissa and a binary exponent, every operation rounds to 53 bits, ties
  to even). A duration is the integer of its nanoseconds, in the range of \<^verbatim>\<open>int64\<close>. The theory
  proves that printing a duration of whole seconds and parsing it gives it back.
\<close>

section \<open>Integers and floats\<close>

definition wrap64 :: "int \<Rightarrow> int" where
  "wrap64 i = (i + 2 ^ 63) mod 2 ^ 64 - 2 ^ 63"

lemma wrap64_id: "- (2 ^ 63) \<le> i \<Longrightarrow> i < 2 ^ 63 \<Longrightarrow> wrap64 i = i"
  by (simp add: wrap64_def)

lemma wrap64_range: "- (2 ^ 63) \<le> wrap64 i" "wrap64 i < 2 ^ 63"
proof -
  have "0 \<le> (i + 2 ^ 63) mod 2 ^ 64" "(i + 2 ^ 63) mod 2 ^ 64 < 2 ^ 64" by simp_all
  then show "- (2 ^ 63) \<le> wrap64 i" "wrap64 i < 2 ^ 63" by (simp_all add: wrap64_def)
qed

type_synonym flt = "nat \<times> int"

fun bitlen :: "nat \<Rightarrow> nat" where
  "bitlen n = (if n = 0 then 0 else 1 + bitlen (n div 2))"

declare bitlen.simps [simp del]

definition div_even :: "nat \<Rightarrow> nat \<Rightarrow> nat" where
  "div_even a b =
     (let q = a div b; r = a mod b
      in if 2 * r > b \<or> (2 * r = b \<and> odd q) then q + 1 else q)"

definition scaled :: "nat \<Rightarrow> nat \<Rightarrow> int \<Rightarrow> nat \<times> nat" where
  "scaled n d e = (n * 2 ^ nat (- e), d * 2 ^ nat e)"

text \<open>The float nearest to \<open>n / d\<close>: the exponent is the one that leaves 53 bits.\<close>

definition fl_ratio :: "nat \<Rightarrow> nat \<Rightarrow> flt" where
  "fl_ratio n d =
     (if n = 0 \<or> d = 0 then (0, 0)
      else let e0 = int (bitlen n) - int (bitlen d) - 53;
               (a0, b0) = scaled n d e0;
               e = (if a0 div b0 \<ge> 2 ^ 53 then e0 + 1 else e0);
               (a, b) = scaled n d e
           in (div_even a b, e))"

definition fl_mul :: "flt \<Rightarrow> flt \<Rightarrow> flt" where
  "fl_mul x y =
     (let (m, e) = fl_ratio (fst x * fst y) 1 in (m, e + snd x + snd y))"

text \<open>Conversion to an integer truncates toward zero.\<close>

definition fl_trunc :: "flt \<Rightarrow> nat" where
  "fl_trunc x = (if snd x \<ge> 0 then fst x * 2 ^ nat (snd x) else fst x div 2 ^ nat (- snd x))"

section \<open>Instants\<close>

text \<open>
  An instant as seconds and nanoseconds since the Unix epoch, UTC; the zero \<^verbatim>\<open>time.Time\<close> is the
  first of January of year 1.
\<close>

record Time =
  T_Sec :: int
  T_Nsec :: int

definition zero_Time :: Time where
  "zero_Time = \<lparr>T_Sec = - 62135596800, T_Nsec = 0\<rparr>"

definition IsZero :: "Time \<Rightarrow> bool" where
  "IsZero t \<longleftrightarrow> T_Sec t = - 62135596800 \<and> T_Nsec t = 0"

section \<open>ParseDuration\<close>

definition Second :: nat where "Second = 1000000000"

fun leadingInt :: "nat \<Rightarrow> string \<Rightarrow> (nat \<times> string) option" where
  "leadingInt x [] = Some (x, [])"
| "leadingInt x (c # s) =
     (if \<not> is_digit c then Some (x, c # s)
      else if x > 2 ^ 63 div 10 then None
      else let y = x * 10 + digit_val c
           in if y > 2 ^ 63 then None else leadingInt y s)"

fun leadingFraction :: "nat \<Rightarrow> nat \<Rightarrow> bool \<Rightarrow> string \<Rightarrow> nat \<times> nat \<times> string" where
  "leadingFraction x scale ovf [] = (x, scale, [])"
| "leadingFraction x scale ovf (c # s) =
     (if \<not> is_digit c then (x, scale, c # s)
      else if ovf then leadingFraction x scale True s
      else if x > (2 ^ 63 - 1) div 10 then leadingFraction x scale True s
      else let y = x * 10 + digit_val c
           in if y > 2 ^ 63 then leadingFraction x scale True s
              else leadingFraction y (scale * 10) False s)"

definition unitMap :: "(string \<times> nat) list" where
  "unitMap =
     [(''ns'', 1), (''us'', 1000), ([CHR 0xC2, CHR 0xB5, CHR ''s''], 1000),
      ([CHR 0xCE, CHR 0xBC, CHR ''s''], 1000), (''ms'', 1000000), (''s'', Second),
      (''m'', 60 * Second), (''h'', 3600 * Second)]"

definition unit_char :: "char \<Rightarrow> bool" where
  "unit_char c \<longleftrightarrow> \<not> (c = CHR ''.'' \<or> is_digit c)"

definition with_fraction :: "nat \<Rightarrow> nat \<Rightarrow> nat \<Rightarrow> nat \<Rightarrow> nat" where
  "with_fraction v f scale u =
     (if f > 0 then v + fl_trunc (fl_mul (fl_ratio f 1) (fl_ratio u scale)) else v)"

lemma leadingInt_length: "leadingInt x s = Some (y, t) \<Longrightarrow> length t \<le> length s"
  by (induction x s rule: leadingInt.induct) (fastforce simp: Let_def split: if_splits)+

lemma leadingFraction_length: "(f, k, t) = leadingFraction x sc b s \<Longrightarrow> length t \<le> length s"
  by (induction x sc b s rule: leadingFraction.induct) (auto simp: Let_def split: if_splits)

text \<open>The loop over number and unit pairs; \<open>d\<close> is the sum so far.\<close>

function duration_loop :: "nat \<Rightarrow> string \<Rightarrow> nat option" where
  "duration_loop d s =
    (if s = [] then Some d
     else if \<not> (hd s = CHR ''.'' \<or> is_digit (hd s)) then None
     else case leadingInt 0 s of
            None \<Rightarrow> None
          | Some (v, s1) \<Rightarrow>
              (let pre = (length s1 \<noteq> length s);
                   dot = (s1 \<noteq> [] \<and> hd s1 = CHR ''.'');
                   (f, scale, s2) = (if dot then leadingFraction 0 1 False (tl s1) else (0, 1, s1));
                   post = (dot \<and> length s2 \<noteq> length (tl s1));
                   u = takeWhile unit_char s2;
                   s3 = dropWhile unit_char s2
               in if \<not> pre \<and> \<not> post then None
                  else if u = [] then None
                  else case map_of unitMap u of
                         None \<Rightarrow> None
                       | Some un \<Rightarrow>
                           if v > 2 ^ 63 div un then None
                           else let w = with_fraction (v * un) f scale un
                                in if w > 2 ^ 63 then None
                                   else if d + w > 2 ^ 63 then None
                                   else duration_loop (d + w) s3))"
  by pat_completeness auto
termination
proof (relation "measure (\<lambda>(d, s). length s)", goal_cases)
  case (2 d s p v s1 pre dot q f r scale s2 post u s3 un w)
  have "length s2 \<le> length s1"
    using 2 by (cases s1) (auto dest!: leadingFraction_length split: if_splits)
  moreover have "length s1 \<le> length s" using 2 by (auto dest: leadingInt_length)
  moreover have "length s3 < length s2"
  proof -
    have "s2 = u @ s3" using 2 by simp
    then show ?thesis using 2 by (metis length_append length_greater_0_conv less_add_same_cancel2)
  qed
  ultimately show ?case by simp
qed simp

declare duration_loop.simps [simp del]

definition ParseDuration :: "string \<Rightarrow> int option" where
  "ParseDuration orig =
    (let neg = (orig \<noteq> [] \<and> hd orig = CHR ''-'');
         s = (if orig \<noteq> [] \<and> (hd orig = CHR ''-'' \<or> hd orig = CHR ''+'') then tl orig else orig)
     in if s = ''0'' then Some 0
        else if s = [] then None
        else case duration_loop 0 s of
               None \<Rightarrow> None
             | Some d \<Rightarrow>
                 if neg then Some (wrap64 (- int d))
                 else if d > 2 ^ 63 - 1 then None else Some (int d))"

section \<open>Duration.String\<close>

text \<open>
  \<^verbatim>\<open>fmtFrac\<close> writes the last \<open>prec\<close> digits of \<open>v\<close> as a fraction without trailing zeros and
  leaves the rest of \<open>v\<close>; \<open>tail\<close> is what the buffer already holds.
\<close>

fun fmtFrac_loop :: "nat \<Rightarrow> nat \<Rightarrow> bool \<Rightarrow> string \<Rightarrow> string \<times> nat \<times> bool" where
  "fmtFrac_loop 0 v pr acc = (acc, v, pr)"
| "fmtFrac_loop (Suc n) v pr acc =
     (let pr' = (pr \<or> v mod 10 \<noteq> 0)
      in fmtFrac_loop n (v div 10) pr' (if pr' then digit_char (v mod 10) # acc else acc))"

definition fmtFrac :: "nat \<Rightarrow> nat \<Rightarrow> string \<Rightarrow> string \<times> nat" where
  "fmtFrac prec v acc =
     (let (a, v', pr) = fmtFrac_loop prec v False acc
      in (if pr then CHR ''.'' # a else a, v'))"

definition format_abs :: "nat \<Rightarrow> string" where
  "format_abs u =
    (if u = 0 then ''0s''
     else if u < Second then
       (let (prec, unt) = (if u < 1000 then (0, ''ns'')
                           else if u < 1000000 then (3, [CHR 0xC2, CHR 0xB5, CHR ''s''])
                           else (6, ''ms''));
            (a, v) = fmtFrac prec u unt
        in dec v @ a)
     else
       (let (a, secs) = fmtFrac 9 u ''s'';
            a1 = dec (secs mod 60) @ a;
            mins = secs div 60
        in if mins = 0 then a1
           else let a2 = dec (mins mod 60) @ ''m'' @ a1;
                    hours = mins div 60
                in if hours = 0 then a2 else dec hours @ ''h'' @ a2))"

definition Duration_String :: "int \<Rightarrow> string" where
  "Duration_String d = (if d < 0 then ''-'' else []) @ format_abs (nat \<bar>d\<bar>)"

section \<open>Printing and parsing whole seconds\<close>

lemma leadingInt_dec:
  "n \<le> 2 ^ 63 \<Longrightarrow> leadingInt 0 (dec n @ s) = leadingInt n s"
proof (induction n arbitrary: s rule: dec.induct)
  case (1 n)
  show ?case
  proof (cases "n < 10")
    case True
    then show ?thesis by (simp add: dec.simps [of n] digit_char_props)
  next
    case False
    then have "leadingInt 0 (dec n @ s) = leadingInt (n div 10) (digit_char (n mod 10) # s)"
      using 1 by (simp add: dec.simps [of n])
    moreover have "n div 10 \<le> 2 ^ 63 div 10" using 1(2) by (rule div_le_mono)
    moreover have "n div 10 * 10 + n mod 10 = n" by simp
    ultimately show ?thesis using 1(2) by (simp add: digit_char_props)
  qed
qed

lemma dec_length_pos: "length (dec n @ s) \<noteq> length s"
  by simp

lemma duration_loop_unit:
  assumes n: "n \<le> 2 ^ 63 div un" and u: "map_of unitMap u = Some un" "u \<noteq> []" "list_all unit_char u"
    and rest: "rest = [] \<or> \<not> unit_char (hd rest)"
    and le: "d + n * un \<le> 2 ^ 63" and un: "un > 0"
  shows "duration_loop d (dec n @ u @ rest) = duration_loop (d + n * un) rest"
proof -
  obtain c cs where c: "u = c # cs" using u(2) by (cases u) auto
  have uc: "unit_char c" using u(3) c by simp
  have n63: "n \<le> 2 ^ 63" using n by (rule order_trans) (rule div_le_dividend)
  have li: "leadingInt 0 (dec n @ u @ rest) = Some (n, u @ rest)"
    using leadingInt_dec [OF n63] uc by (simp add: c unit_char_def)
  have hd: "is_digit (hd (dec n @ u @ rest))"
    using dec_digits [of n] dec_nonempty [of n] by (cases "dec n") auto
  have tw: "takeWhile unit_char (u @ rest) = u" "dropWhile unit_char (u @ rest) = rest"
    using u(3) rest
    by (cases rest; simp add: takeWhile_append dropWhile_append list_all_iff)+
  have dot: "hd (u @ rest) \<noteq> CHR ''.''" using uc by (simp add: c unit_char_def)
  show ?thesis
    unfolding duration_loop.simps [of d "dec n @ u @ rest"]
    using li hd tw dot u n le un by (simp add: with_fraction_def Let_def)
qed

lemma fmtFrac_loop_zeros: "fmtFrac_loop k (v * 10 ^ k) False acc = (acc, v, False)"
  by (induction k arbitrary: v) (simp_all add: mult.commute mult.left_commute Let_def)

lemma fmtFrac_seconds: "fmtFrac 9 (k * Second) acc = (acc, k)"
  using fmtFrac_loop_zeros [of 9 k acc] by (simp add: fmtFrac_def Second_def)

lemma format_abs_seconds:
  assumes "0 < k"
  shows "format_abs (k * Second) =
    (if k < 60 then dec k @ ''s''
     else if k < 3600 then dec (k div 60) @ ''m'' @ dec (k mod 60) @ ''s''
     else dec (k div 3600) @ ''h'' @ dec (k div 60 mod 60) @ ''m'' @ dec (k mod 60) @ ''s'')"
proof -
  have h: "k div 60 div 60 = k div 3600" by (simp add: div_mult2_eq [symmetric])
  have m: "k < 60 \<longleftrightarrow> k div 60 = 0" by (simp add: div_eq_0_iff)
  have h0: "k < 3600 \<longleftrightarrow> k div 60 div 60 = 0" by (simp add: h div_eq_0_iff)
  have "k < 3600 \<Longrightarrow> k div 60 mod 60 = k div 60" by (simp add: less_mult_imp_div_less)
  then show ?thesis
    using assms unfolding format_abs_def fmtFrac_seconds
    by (simp add: Second_def Let_def m h0 h)
qed

lemma dec_hd_digit: "\<exists>c cs. dec n = c # cs \<and> is_digit c"
  using dec_digits [of n] dec_nonempty [of n] by (cases "dec n") auto

lemma dec_hd_not_unit [simp]: "\<not> unit_char (hd (dec n))"
  using dec_hd_digit [of n] by (auto simp: unit_char_def)

lemma unit_lookup:
  "map_of unitMap ''s'' = Some Second" "map_of unitMap ''m'' = Some (60 * Second)"
  "map_of unitMap ''h'' = Some (3600 * Second)"
  "unit_char (CHR ''s'')" "unit_char (CHR ''m'')" "unit_char (CHR ''h'')"
  by (simp_all add: unitMap_def unit_char_def is_digit_def)

lemma unit_step:
  assumes "u = ''s'' \<or> u = ''m'' \<or> u = ''h''" "map_of unitMap u = Some un"
    and "rest = [] \<or> \<not> unit_char (hd rest)" "d + n * un \<le> 2 ^ 63"
  shows "duration_loop d (dec n @ u @ rest) = duration_loop (d + n * un) rest"
proof (rule duration_loop_unit)
  have un: "un > 0" using assms(1,2) by (auto simp: unit_lookup Second_def)
  have "n * un \<le> 2 ^ 63" using assms(4) by linarith
  then have "n * un div un \<le> 2 ^ 63 div un" by (rule div_le_mono)
  then show "n \<le> 2 ^ 63 div un" using un by simp
qed (use assms in \<open>auto simp: unit_lookup Second_def\<close>)

lemma duration_loop_seconds:
  assumes "0 < k" "k * Second \<le> 2 ^ 63"
  shows "duration_loop 0 (format_abs (k * Second)) = Some (k * Second)"
proof -
  have nil: "duration_loop d [] = Some d" for d by (simp add: duration_loop.simps)
  have mod: "k div 60 * 60 + k mod 60 = k" by simp
  have hm: "k div 3600 * 60 + k div 60 mod 60 = k div 60"
    using div_mult_mod_eq [of "k div 60" 60] by (simp add: div_mult2_eq [symmetric])
  consider (s) "k < 60" | (m) "60 \<le> k" "k < 3600" | (h) "3600 \<le> k" by linarith
  then show ?thesis
  proof cases
    case s
    then show ?thesis
      using unit_step [of "''s''" Second "[]" 0 k] assms
      by (simp add: format_abs_seconds unit_lookup nil)
  next
    case m
    have sum: "k div 60 * (60 * Second) + k mod 60 * Second = k * Second"
      using mod by (metis add_mult_distrib mult.assoc)
    then have le: "k div 60 * (60 * Second) \<le> 2 ^ 63" using assms(2) by linarith
    show ?thesis
      using unit_step [of "''m''" "60 * Second" "dec (k mod 60) @ ''s''" 0 "k div 60"]
        unit_step [of "''s''" Second "[]" "k div 60 * (60 * Second)" "k mod 60"] m assms le sum
      by (simp add: format_abs_seconds unit_lookup nil)
  next
    case h
    have sum: "k div 3600 * (3600 * Second) + k div 60 mod 60 * (60 * Second) + k mod 60 * Second = k * Second"
    proof -
      have "(k div 3600 * 60 + k div 60 mod 60) * 60 + k mod 60 = k" by (simp only: hm mod)
      then have "((k div 3600 * 60 + k div 60 mod 60) * 60 + k mod 60) * Second = k * Second" by simp
      then show ?thesis by (simp add: algebra_simps)
    qed
    then have le: "k div 3600 * (3600 * Second) + k div 60 mod 60 * (60 * Second) \<le> 2 ^ 63"
        "k div 3600 * (3600 * Second) \<le> 2 ^ 63"
      using assms(2) by linarith+
    show ?thesis
      using unit_step [of "''h''" "3600 * Second" "dec (k div 60 mod 60) @ ''m'' @ dec (k mod 60) @ ''s''" 0 "k div 3600"]
        unit_step [of "''m''" "60 * Second" "dec (k mod 60) @ ''s''" "k div 3600 * (3600 * Second)" "k div 60 mod 60"]
        unit_step [of "''s''" Second "[]" "k div 3600 * (3600 * Second) + k div 60 mod 60 * (60 * Second)" "k mod 60"]
        h assms le sum
      by (simp add: format_abs_seconds unit_lookup nil)
  qed
qed

lemma format_abs_hd:
  assumes "0 < k"
  shows "\<exists>c cs. format_abs (k * Second) = c # cs \<and> is_digit c \<and> cs \<noteq> []"
  using dec_hd_digit [of k] dec_hd_digit [of "k div 60"] dec_hd_digit [of "k div 3600"] assms
  by (auto simp: format_abs_seconds)

lemma ParseDuration_String_seconds:
  assumes "- (2 ^ 63) \<le> k * 1000000000" "k * 1000000000 < 2 ^ 63"
  shows "ParseDuration (Duration_String (k * 1000000000)) = Some (k * 1000000000)"
proof (cases "k = 0")
  case True
  have "dec 0 = ''0''" by code_simp
  then have "duration_loop 0 ''0s'' = Some 0"
    using unit_step [of "''s''" Second "[]" 0 0]
    by (simp add: unit_lookup duration_loop.simps [of 0 "[]"])
  with True show ?thesis by (simp add: ParseDuration_def Duration_String_def format_abs_def)
next
  case False
  define n where "n = nat \<bar>k\<bar>"
  have n: "0 < n" "nat \<bar>k * 1000000000\<bar> = n * Second" "int (n * Second) = \<bar>k * 1000000000\<bar>"
    using False by (simp_all add: n_def Second_def abs_mult nat_mult_distrib)
  have "int (n * Second) \<le> 2 ^ 63" using assms n(3) by linarith
  then have le: "n * Second \<le> 2 ^ 63" by (metis of_nat_le_iff of_nat_numeral of_nat_power)
  obtain c cs where f: "format_abs (n * Second) = c # cs" "is_digit c" "cs \<noteq> []"
    using format_abs_hd [OF n(1)] by blast
  have loop: "duration_loop 0 (c # cs) = Some (n * Second)"
    using duration_loop_seconds [OF n(1) le] f by simp
  show ?thesis
  proof (cases "k < 0")
    case True
    have "wrap64 (- int (n * Second)) = k * 1000000000"
      using True n(3) assms by (subst wrap64_id) linarith+
    then show ?thesis
      using True f loop n(2) by (simp add: ParseDuration_def Duration_String_def)
  next
    case False
    have kn: "int (n * Second) = k * 1000000000" using False n(3) by simp
    then have "int (n * Second) < 2 ^ 63" using assms by simp
    then have "n * Second < 2 ^ 63" by (metis of_nat_less_iff of_nat_numeral of_nat_power)
    moreover have "Duration_String (k * 1000000000) = c # cs"
      using False f n(2) by (simp add: Duration_String_def mult_less_0_iff)
    ultimately show ?thesis
      using f loop kn is_digit_cases [OF f(2)] by (simp add: ParseDuration_def)
  qed
qed

end
