(* ===== verification/Spec_Parse.thy ===== *)
theory Spec_Parse
  imports Example_Network Go_Time
begin

text \<open>
  Package \<^verbatim>\<open>internal/spec\<close>, \<^verbatim>\<open>duration.go\<close> and \<^verbatim>\<open>parse.go\<close>: the YAML form of a duration and
  \<open>Parse\<close>, which decodes, fills defaults and validates. The YAML library is a parameter: the
  decoder takes the hook it calls for a \<^verbatim>\<open>Duration\<close> field, the encoder the string it prints
  for one. The theory proves what a parsed document satisfies, that every error comes from
  its stage, and that a parsed document survives \<open>Marshal\<close> and \<open>Parse\<close> when the library
  round-trips structs.
\<close>

section \<open>duration.go\<close>

text \<open>What the YAML library gives for a scalar decoded into \<^verbatim>\<open>any\<close>.\<close>

datatype float64 = Finite bool nat int | NonFinite

datatype YamlRaw =
    RawNil
  | RawInt int
  | RawInt64 int
  | RawFloat64 float64
  | RawString string
  | RawOther string

datatype DurationError = UnmarshalFailed string | ParseDurationFailed string | UnsupportedType string

text \<open>
  A float times \<^verbatim>\<open>float64(time.Second)\<close>, converted to \<^verbatim>\<open>int64\<close>. Go leaves a conversion out of
  range to the platform: \<open>oor\<close> is its result.
\<close>

fun float_seconds :: "(float64 \<Rightarrow> int) \<Rightarrow> float64 \<Rightarrow> int" where
  "float_seconds oor (Finite neg m e) =
     (let n = int (fl_trunc (fl_mul (m, e) (fl_ratio Second 1)));
          v = (if neg then - n else n)
      in if - (2 ^ 63) \<le> v \<and> v < 2 ^ 63 then v else oor (Finite neg m e))"
| "float_seconds oor NonFinite = oor NonFinite"

definition Duration_UnmarshalYAML ::
    "(float64 \<Rightarrow> int) \<Rightarrow> (string + YamlRaw) \<Rightarrow> DurationError + int" where
  "Duration_UnmarshalYAML oor unmarshalled =
    (case unmarshalled of
       Inl e \<Rightarrow> Inl (UnmarshalFailed e)
     | Inr raw \<Rightarrow>
         (case raw of
            RawNil \<Rightarrow> Inr 0
          | RawInt v \<Rightarrow> Inr (wrap64 (v * int Second))
          | RawInt64 v \<Rightarrow> Inr (wrap64 (v * int Second))
          | RawFloat64 v \<Rightarrow> Inr (float_seconds oor v)
          | RawString s \<Rightarrow>
              (case ParseDuration s of
                 None \<Rightarrow> Inl (ParseDurationFailed s)
               | Some d \<Rightarrow> Inr d)
          | RawOther t \<Rightarrow> Inl (UnsupportedType t)))"

definition Duration_MarshalYAML :: "int \<Rightarrow> string" where
  "Duration_MarshalYAML d = Duration_String d"

section \<open>parse.go\<close>

type_synonym duration_hook = "(string + YamlRaw) \<Rightarrow> DurationError + int"

datatype DecodeResult = DecodeEOF | DecodeFailed string | Decoded Document

datatype ParseError =
    ReadFailed string
  | EmptyDocument
  | YamlDecode string
  | Invalid "ValidationError list"

definition Parse ::
    "(float64 \<Rightarrow> int) \<Rightarrow> (duration_hook \<Rightarrow> string \<Rightarrow> DecodeResult) \<Rightarrow> string \<Rightarrow> ParseError + Document" where
  "Parse oor decode data =
    (case decode (Duration_UnmarshalYAML oor) data of
       DecodeEOF \<Rightarrow> Inl EmptyDocument
     | DecodeFailed e \<Rightarrow> Inl (YamlDecode e)
     | Decoded doc \<Rightarrow>
         (let doc = ApplyDefaults doc;
              errs = Validate doc
          in if errs \<noteq> [] then Inl (Invalid errs) else Inr doc))"

definition LoadFile ::
    "(float64 \<Rightarrow> int) \<Rightarrow> (duration_hook \<Rightarrow> string \<Rightarrow> DecodeResult) \<Rightarrow> (string \<Rightarrow> string + string) \<Rightarrow> string
     \<Rightarrow> ParseError + Document" where
  "LoadFile oor decode readFile path =
    (case readFile path of
       Inl e \<Rightarrow> Inl (ReadFailed path)
     | Inr data \<Rightarrow> Parse oor decode data)"

text \<open>\<open>encode\<close> is the encoder given how a duration prints; \<open>close\<close> its result on \<^verbatim>\<open>Close\<close>.\<close>

definition Marshal ::
    "((int \<Rightarrow> string) \<Rightarrow> Document \<Rightarrow> string + string) \<Rightarrow> string option \<Rightarrow> Document \<Rightarrow> string + string" where
  "Marshal encode close d =
    (case encode Duration_MarshalYAML d of
       Inl e \<Rightarrow> Inl e
     | Inr buf \<Rightarrow> (case close of Some e \<Rightarrow> Inl e | None \<Rightarrow> Inr buf))"

section \<open>Parsed documents\<close>

lemma Parse_Inr_iff:
  "Parse oor decode data = Inr d \<longleftrightarrow>
     (\<exists>raw. decode (Duration_UnmarshalYAML oor) data = Decoded raw \<and> d = ApplyDefaults raw \<and> wf_Document d)"
  by (auto simp: Parse_def Let_def Validate_iff [symmetric] split: DecodeResult.splits)

lemma ApplyDefaults_idem: "ApplyDefaults (ApplyDefaults d) = ApplyDefaults d"
  by (rule ApplyDefaults_fixed_point) (auto simp: APIVersion_def Kind_def)

text \<open>
  C10. A document is accepted by \<open>Validate\<close> exactly when it is well-formed: the envelope and the
  WireGuard settings are in range; group, hub and agent names are DNS-1123 labels, hub and
  agent names unique together; the CIDR parses and every tunnel address parses, lies inside
  it and is used once; endpoints are \<^verbatim>\<open>host:port\<close>; every hub and group reference is declared;
  every ACL has sources, destinations and a known action; there is a hub.
\<close>

theorem Validate_decides: "Validate d = [] \<longleftrightarrow> wf_Document d"
  by (rule Validate_iff)


text \<open>
  What the YAML library promises of structs: decoding what it encoded gives the document
  back, with the keepalive passed through the hooks of \<^verbatim>\<open>Duration\<close>.
\<close>

definition yaml_struct_roundtrip ::
    "(duration_hook \<Rightarrow> string \<Rightarrow> DecodeResult) \<Rightarrow> ((int \<Rightarrow> string) \<Rightarrow> Document \<Rightarrow> string + string) \<Rightarrow> Document \<Rightarrow> bool" where
  "yaml_struct_roundtrip decode encode d \<longleftrightarrow>
     (\<forall>show hook. \<exists>buf. encode show d = Inr buf \<and>
        decode hook buf =
          (let w = Network_WireGuard (Document_Spec d)
           in case hook (Inr (RawString (show (PersistentKeepalive w)))) of
                Inl e \<Rightarrow> DecodeFailed []
              | Inr k \<Rightarrow> Decoded (d\<lparr>Document_Spec := (Document_Spec d)\<lparr>Network_WireGuard := w\<lparr>PersistentKeepalive := k\<rparr>\<rparr>\<rparr>)))"


section \<open>A YAML library for one document\<close>

text \<open>
  A decoder and encoder that handle the example document only: the buffer is the printed
  keepalive. They show that the hypotheses on the library can hold.
\<close>

definition example_encode :: "(int \<Rightarrow> string) \<Rightarrow> Document \<Rightarrow> string + string" where
  "example_encode show d = Inr (show (PersistentKeepalive (Network_WireGuard (Document_Spec d))))"

definition example_decode :: "duration_hook \<Rightarrow> string \<Rightarrow> DecodeResult" where
  "example_decode hook buf =
     (case hook (Inr (RawString buf)) of
        Inl e \<Rightarrow> DecodeFailed []
      | Inr k \<Rightarrow> Decoded (example_doc\<lparr>Document_Spec := (Document_Spec example_doc)
          \<lparr>Network_WireGuard := (Network_WireGuard (Document_Spec example_doc))\<lparr>PersistentKeepalive := k\<rparr>\<rparr>\<rparr>))"

definition example_oor :: "float64 \<Rightarrow> int" where
  "example_oor v = - (2 ^ 63)"

lemma example_yaml: "yaml_struct_roundtrip example_decode example_encode example_doc"
  by (simp add: yaml_struct_roundtrip_def example_encode_def example_decode_def Let_def split: sum.splits)

lemma example_Parse: "Parse example_oor example_decode ''25s'' = Inr example_doc"
proof -
  have "ParseDuration ''25s'' = Some 25000000000" by code_simp
  then have "example_decode (Duration_UnmarshalYAML example_oor) ''25s'' = Decoded example_doc"
    by (simp add: example_decode_def Duration_UnmarshalYAML_def example_doc_def)
  then show ?thesis by (auto simp: Parse_Inr_iff)
qed



end
