(* ===== verification/Go_Crypto.thy ===== *)
theory Go_Crypto
  imports Prelude
begin

text \<open>
  The encodings and digests of Go's standard library the control plane uses: \<^verbatim>\<open>crypto/sha256\<close>,
  \<^verbatim>\<open>encoding/hex\<close>, \<^verbatim>\<open>base64.RawURLEncoding\<close> and \<^verbatim>\<open>subtle.ConstantTimeCompare\<close>. SHA-256 is
  the algorithm of FIPS 180-4 on 32-bit words. The theory proves that the two encodings are
  injective on byte strings of a length and that the comparison decides equality.
\<close>

unbundle bit_operations_syntax

definition char_byte :: "char \<Rightarrow> byte" where
  "char_byte c = word_of_nat (of_char c)"

definition bytes_of :: "string \<Rightarrow> byte list" where
  "bytes_of s = map char_byte s"

section \<open>SHA-256\<close>

type_synonym w32 = "32 word"

text \<open>
  The round constants are the first 32 bits of the fractional parts of the cube roots of the first
  64 primes, the initial hash value those of the square roots of the first eight. The integer
  \<open>k\<close>-th root is found bit by bit.
\<close>

fun root_from :: "nat \<Rightarrow> nat \<Rightarrow> nat \<Rightarrow> nat \<Rightarrow> nat" where
  "root_from k n 0 acc = acc"
| "root_from k n (Suc b) acc = root_from k n b (if (acc + 2 ^ b) ^ k \<le> n then acc + 2 ^ b else acc)"

definition primes_below :: "nat \<Rightarrow> nat list" where
  "primes_below m = filter (\<lambda>p. list_all (\<lambda>d. \<not> d dvd p) [2 ..< p]) [2 ..< m]"

definition root_fraction :: "nat \<Rightarrow> nat \<Rightarrow> w32" where
  "root_fraction k p = word_of_nat (root_from k (p * 2 ^ (32 * k)) 40 0)"

definition sha_K :: "w32 list" where
  "sha_K = map (root_fraction 3) (primes_below 312)"

definition sha_H0 :: "w32 list" where
  "sha_H0 = map (root_fraction 2) (primes_below 20)"

lemma root_from_bounds:
  "acc ^ k \<le> n \<Longrightarrow> n < (acc + 2 ^ b) ^ k \<Longrightarrow> root_from k n b acc ^ k \<le> n \<and> n < (root_from k n b acc + 1) ^ k"
proof (induction b arbitrary: acc)
  case (Suc b)
  have two: "acc + 2 ^ b + 2 ^ b = acc + 2 ^ Suc b" by simp
  show ?case
  proof (cases "(acc + 2 ^ b) ^ k \<le> n")
    case True
    then show ?thesis using Suc.IH [of "acc + 2 ^ b"] Suc.prems(2) unfolding two by simp
  next
    case False
    then show ?thesis using Suc.IH [of acc] Suc.prems(1) by simp
  qed
qed simp

definition rotr :: "nat \<Rightarrow> w32 \<Rightarrow> w32" where
  "rotr n x = (drop_bit n x) OR (push_bit (32 - n) x)"

definition sha_pad :: "byte list \<Rightarrow> byte list" where
  "sha_pad m =
     (let l = length m;
          z = (119 - l mod 64) mod 64
      in m @ [0x80] @ replicate z 0 @ map (\<lambda>k. word_of_nat (8 * l div 256 ^ k)) (rev [0 ..< 8]))"

definition be32 :: "byte list \<Rightarrow> w32" where
  "be32 bs = foldl (\<lambda>w b. push_bit 8 w OR ucast b) 0 bs"

fun chunks :: "nat \<Rightarrow> 'a list \<Rightarrow> 'a list list" where
  "chunks n xs = (if n = 0 \<or> xs = [] then [] else take n xs # chunks n (drop n xs))"

declare chunks.simps [simp del]

text \<open>The message schedule: \<open>ws\<close> holds the words so far, the latest first.\<close>

fun sha_schedule :: "nat \<Rightarrow> w32 list \<Rightarrow> w32 list" where
  "sha_schedule 0 ws = rev ws"
| "sha_schedule (Suc n) ws =
     (let w2 = ws ! 1; w7 = ws ! 6; w15 = ws ! 14; w16 = ws ! 15;
          s0 = rotr 7 w15 XOR rotr 18 w15 XOR drop_bit 3 w15;
          s1 = rotr 17 w2 XOR rotr 19 w2 XOR drop_bit 10 w2
      in sha_schedule n ((w16 + s0 + w7 + s1) # ws))"

type_synonym sha_state = "w32 \<times> w32 \<times> w32 \<times> w32 \<times> w32 \<times> w32 \<times> w32 \<times> w32"

fun sha_round :: "sha_state \<Rightarrow> w32 \<times> w32 \<Rightarrow> sha_state" where
  "sha_round (a, b, c, d, e, f, g, h) (k, w) =
     (let t1 = h + (rotr 6 e XOR rotr 11 e XOR rotr 25 e) + ((e AND f) XOR (NOT e AND g)) + k + w;
          t2 = (rotr 2 a XOR rotr 13 a XOR rotr 22 a) + ((a AND b) XOR (a AND c) XOR (b AND c))
      in (t1 + t2, a, b, c, d + t1, e, f, g))"

definition sha_block :: "w32 list \<Rightarrow> byte list \<Rightarrow> w32 list" where
  "sha_block hs blk =
     (let ws = sha_schedule 48 (rev (map be32 (chunks 4 blk)));
          (a, b, c, d, e, f, g, h) = foldl sha_round
             (hs ! 0, hs ! 1, hs ! 2, hs ! 3, hs ! 4, hs ! 5, hs ! 6, hs ! 7) (zip sha_K ws)
      in map2 (+) hs [a, b, c, d, e, f, g, h])"

definition bytes32 :: "w32 \<Rightarrow> byte list" where
  "bytes32 w = map (\<lambda>k. ucast (drop_bit (8 * k) w)) (rev [0 ..< 4])"

definition Sum256 :: "byte list \<Rightarrow> byte list" where
  "Sum256 m = concat (map bytes32 (foldl sha_block sha_H0 (chunks 64 (sha_pad m))))"

section \<open>Hexadecimal and base64\<close>

definition hex_digits :: string where "hex_digits = ''0123456789abcdef''"

definition hex_EncodeToString :: "byte list \<Rightarrow> string" where
  "hex_EncodeToString bs = concat (map (\<lambda>b. [hex_digits ! (unat b div 16), hex_digits ! (unat b mod 16)]) bs)"

definition encodeURL :: string where
  "encodeURL = ''ABCDEFGHIJKLMNOPQRSTUVWXYZabcdefghijklmnopqrstuvwxyz0123456789-_''"

text \<open>Three bytes give four characters; one or two left over give two or three, unpadded.\<close>

fun RawURL_EncodeToString :: "byte list \<Rightarrow> string" where
  "RawURL_EncodeToString [] = []"
| "RawURL_EncodeToString [a] =
     (let v = unat a * 16 in [encodeURL ! (v div 64), encodeURL ! (v mod 64)])"
| "RawURL_EncodeToString [a, b] =
     (let v = (unat a * 256 + unat b) * 4
      in [encodeURL ! (v div 4096), encodeURL ! (v div 64 mod 64), encodeURL ! (v mod 64)])"
| "RawURL_EncodeToString (a # b # c # bs) =
     (let v = unat a * 65536 + unat b * 256 + unat c
      in encodeURL ! (v div 262144) # encodeURL ! (v div 4096 mod 64) # encodeURL ! (v div 64 mod 64) #
         encodeURL ! (v mod 64) # RawURL_EncodeToString bs)"

section \<open>Constant-time comparison\<close>

definition ConstantTimeCompare :: "byte list \<Rightarrow> byte list \<Rightarrow> nat" where
  "ConstantTimeCompare x y =
     (if length x \<noteq> length y then 0
      else let v = foldl (\<lambda>v (a, b). v OR (a XOR b)) 0 (zip x y) in if v = 0 then 1 else 0)"

lemma or_zero_iff: "a OR b = 0 \<longleftrightarrow> a = 0 \<and> b = 0" for a b :: "'a::len word"
  by (metis or.right_neutral or.left_neutral word_bw_lcs(2) or.idem or.assoc)

lemma xor_zero_iff_eq: "a XOR b = 0 \<longleftrightarrow> a = b" for a b :: "'a::len word"
  by (metis xor.right_neutral xor.left_commute xor_self_eq)

lemma foldl_or_zero:
  fixes v :: byte
  shows "length x = length y \<Longrightarrow> foldl (\<lambda>v (a, b). v OR (a XOR b)) v (zip x y) = 0 \<longleftrightarrow> v = 0 \<and> x = y"
  by (induction x y arbitrary: v rule: list_induct2) (auto simp: or_zero_iff xor_zero_iff_eq)

lemma ConstantTimeCompare_iff: "ConstantTimeCompare x y = 1 \<longleftrightarrow> x = y"
  using foldl_or_zero [of x y 0] by (auto simp: ConstantTimeCompare_def Let_def)

lemma unat_char_byte: "unat (char_byte c) = of_char c"
  using nat_of_char_less_256 [of c] by (simp add: char_byte_def unsigned_of_nat take_bit_nat_eq_self)

lemma char_byte_inj: "char_byte c = char_byte d \<Longrightarrow> c = d"
  by (metis unat_char_byte of_char_eq_iff)

lemma bytes_of_inj: "bytes_of s = bytes_of t \<longleftrightarrow> s = t"
  using char_byte_inj by (auto simp: bytes_of_def intro: map_injective injI)

section \<open>Injectivity of the encodings\<close>

lemma nth_inj: "distinct xs \<Longrightarrow> i < length xs \<Longrightarrow> j < length xs \<Longrightarrow> xs ! i = xs ! j \<longleftrightarrow> i = j"
  by (simp add: nth_eq_iff_index_eq)

lemma hex_digits_props: "distinct hex_digits" "length hex_digits = 16"
  by (simp_all add: hex_digits_def)

lemma encodeURL_props: "distinct encodeURL" "length encodeURL = 64"
  by (simp_all add: encodeURL_def)

lemma byte_less: "unat (b :: byte) < 256"
  using unsigned_less [of b, where ?'a = nat] by simp

lemma hex_pair_inj:
  fixes a b :: byte
  assumes "hex_digits ! (unat a div 16) = hex_digits ! (unat b div 16)"
    and "hex_digits ! (unat a mod 16) = hex_digits ! (unat b mod 16)"
  shows "a = b"
proof -
  have "unat a div 16 < 16" "unat b div 16 < 16"
    using byte_less [of a] byte_less [of b] by (simp_all add: less_mult_imp_div_less)
  then have "unat a div 16 = unat b div 16" "unat a mod 16 = unat b mod 16"
    using assms nth_inj [OF hex_digits_props(1)] hex_digits_props(2) by auto
  then show ?thesis by (metis div_mult_mod_eq word_unat_eq_iff)
qed

lemma hex_Encode_inj: "hex_EncodeToString x = hex_EncodeToString y \<Longrightarrow> x = y"
proof (induction x arbitrary: y)
  case Nil
  then show ?case by (cases y) (simp_all add: hex_EncodeToString_def)
next
  case (Cons a x)
  then obtain b z where y: "y = b # z" by (cases y) (simp_all add: hex_EncodeToString_def)
  with Cons.prems have "a = b" "hex_EncodeToString x = hex_EncodeToString z"
    by (auto simp: hex_EncodeToString_def intro: hex_pair_inj)
  then show ?case using Cons.IH y by simp
qed

lemma hex_Encode_length: "length (hex_EncodeToString bs) = 2 * length bs"
  by (induction bs) (simp_all add: hex_EncodeToString_def)

lemma split_eq: "v div m = w div m \<Longrightarrow> v mod m = w mod m \<Longrightarrow> v = w" for v w m :: nat
  by (metis div_mult_mod_eq)

lemma URL_nth_inj: "i < 64 \<Longrightarrow> j < 64 \<Longrightarrow> encodeURL ! i = encodeURL ! j \<longleftrightarrow> i = j"
  using nth_inj [OF encodeURL_props(1)] encodeURL_props(2) by simp

lemma URL_digits3:
  assumes "v < 16777216" "w < 16777216"
    and "encodeURL ! (v div 262144) = encodeURL ! (w div 262144)"
    and "encodeURL ! (v div 4096 mod 64) = encodeURL ! (w div 4096 mod 64)"
    and "encodeURL ! (v div 64 mod 64) = encodeURL ! (w div 64 mod 64)"
    and "encodeURL ! (v mod 64) = encodeURL ! (w mod 64)"
  shows "v = w"
proof -
  have "v div 262144 = w div 262144"
    using assms URL_nth_inj [of "v div 262144" "w div 262144"] by (simp add: less_mult_imp_div_less)
  then have "v div 4096 div 64 = w div 4096 div 64" by (simp add: div_mult2_eq [symmetric])
  moreover have "v div 4096 mod 64 = w div 4096 mod 64" using assms URL_nth_inj by simp
  ultimately have "v div 4096 = w div 4096" by (rule split_eq)
  then have "v div 64 div 64 = w div 64 div 64" by (simp add: div_mult2_eq [symmetric])
  moreover have "v div 64 mod 64 = w div 64 mod 64" using assms URL_nth_inj by simp
  ultimately have "v div 64 = w div 64" by (rule split_eq)
  moreover have "v mod 64 = w mod 64" using assms URL_nth_inj by simp
  ultimately show ?thesis by (rule split_eq)
qed

lemma base_256: "x * 256 + c = y * 256 + d \<Longrightarrow> c < 256 \<Longrightarrow> d < 256 \<Longrightarrow> x = y \<and> c = d" for x y c d :: nat
proof -
  assume e: "x * 256 + c = y * 256 + d" and lt: "c < 256" "d < 256"
  have "(x * 256 + c) div 256 = x" "(y * 256 + d) div 256 = y" using lt by simp_all
  with e have "x = y" by simp
  with e show "x = y \<and> c = d" by simp
qed

lemma three_bytes:
  fixes a b c a' b' c' :: byte
  assumes "unat a * 65536 + unat b * 256 + unat c = unat a' * 65536 + unat b' * 256 + unat c'"
  shows "a = a' \<and> b = b' \<and> c = c'"
proof -
  have "(unat a * 256 + unat b) * 256 + unat c = (unat a' * 256 + unat b') * 256 + unat c'" using assms by simp
  then have 1: "unat a * 256 + unat b = unat a' * 256 + unat b'" "unat c = unat c'"
    using base_256 byte_less by blast+
  then have "unat a = unat a'" "unat b = unat b'" using base_256 byte_less by blast+
  with 1 show ?thesis by (simp add: word_unat_eq_iff)
qed

lemma RawURL_length:
  "length (RawURL_EncodeToString bs) = (8 * length bs + 5) div 6"
  by (induction bs rule: RawURL_EncodeToString.induct) (simp_all add: Let_def)

lemma RawURL_inj:
  "length x = length y \<Longrightarrow> RawURL_EncodeToString x = RawURL_EncodeToString y \<Longrightarrow> x = y"
proof (induction x arbitrary: y rule: RawURL_EncodeToString.induct)
  case 1
  then show ?case by simp
next
  case (2 a)
  then obtain b where y: "y = [b]" by (cases y) auto
  have "unat a * 16 = unat b * 16"
  proof (rule split_eq)
    show "unat a * 16 div 64 = unat b * 16 div 64" "unat a * 16 mod 64 = unat b * 16 mod 64"
      using 2(2) URL_nth_inj byte_less [of a] byte_less [of b] by (simp_all add: y Let_def less_mult_imp_div_less)
  qed
  then show ?case by (simp add: y word_unat_eq_iff)
next
  case (3 a b)
  then obtain a' b' where y: "y = [a', b']" by (cases y; cases "tl y") auto
  define v w where "v = (unat a * 256 + unat b) * 4" and "w = (unat a' * 256 + unat b') * 4"
  have lt: "v < 262144" "w < 262144"
    using byte_less [of a] byte_less [of b] byte_less [of a'] byte_less [of b'] by (simp_all add: v_def w_def)
  have e: "encodeURL ! (v div 4096) = encodeURL ! (w div 4096)" "encodeURL ! (v div 64 mod 64) = encodeURL ! (w div 64 mod 64)"
      "encodeURL ! (v mod 64) = encodeURL ! (w mod 64)"
    using 3(2) by (simp_all add: y Let_def v_def w_def)
  have "v = w"
  proof (rule URL_digits3)
    show "encodeURL ! (v div 262144) = encodeURL ! (w div 262144)" using lt by simp
    show "encodeURL ! (v div 4096 mod 64) = encodeURL ! (w div 4096 mod 64)"
      using e(1) lt by (simp add: less_mult_imp_div_less)
  qed (use e lt in simp_all)
  then show ?case using three_bytes [of 0 a b 0 a' b'] by (simp add: y v_def w_def)
next
  case (4 a b c bs)
  then obtain a' b' c' bs' where y: "y = a' # b' # c' # bs'" by (cases y; cases "tl y"; cases "tl (tl y)") auto
  define v w where "v = unat a * 65536 + unat b * 256 + unat c" and "w = unat a' * 65536 + unat b' * 256 + unat c'"
  have lt: "v < 16777216" "w < 16777216"
    using byte_less [of a] byte_less [of b] byte_less [of c] byte_less [of a'] byte_less [of b'] byte_less [of c']
    by (simp_all add: v_def w_def)
  have "v = w" by (rule URL_digits3 [OF lt]) (use 4(3) in \<open>simp_all add: y Let_def v_def w_def\<close>)
  then have "a = a' \<and> b = b' \<and> c = c'" unfolding v_def w_def by (rule three_bytes)
  moreover have "bs = bs'" using 4 by (auto simp: y Let_def)
  ultimately show ?case by (simp add: y)
qed

lemma eight_primes: "primes_below 20 = [2, 3, 5, 7, 11, 13, 17, 19]"
  by code_simp

lemma Sum256_length: "length (foldl sha_block sha_H0 blks) = 8"
proof (induction blks rule: rev_induct)
  case Nil
  then show ?case by (simp add: sha_H0_def eight_primes)
next
  case (snoc b blks)
  then show ?case by (simp add: sha_block_def Let_def split: prod.splits)
qed

lemma URL_nth_set: "i < 64 \<Longrightarrow> encodeURL ! i \<in> set encodeURL"
  using encodeURL_props(2) by (metis nth_mem)

lemma RawURL_set: "set (RawURL_EncodeToString bs) \<subseteq> set encodeURL"
proof (induction bs rule: RawURL_EncodeToString.induct)
  case (2 a)
  then show ?case using byte_less [of a] by (auto simp: Let_def intro!: URL_nth_set)
next
  case (3 a b)
  then show ?case using byte_less [of a] byte_less [of b] by (auto simp: Let_def intro!: URL_nth_set)
next
  case (4 a b c bs)
  then show ?case using byte_less [of a] byte_less [of b] byte_less [of c] by (auto simp: Let_def intro!: URL_nth_set)
qed simp

end
