(* ===== verification/Store.thy ===== *)
theory Store
  imports Go_Time Go_Crypto "HOL-Library.Multiset"
begin

text \<open>
  Package \<^verbatim>\<open>internal/store\<close> (\<^verbatim>\<open>store.go\<close>): the agents the management server has registered. The
  database driver is third-party code and a parameter: a record of the calls the package makes of
  \<^verbatim>\<open>database/sql\<close>, on a database state of any type, each of which may fail. The SQL statements
  of the package are values of the datatypes \<open>stmt\<close> and \<open>query\<close>; what they mean on a table is
  written out as \<open>exec_table\<close> and \<open>select_ok\<close>, and \<open>sql_laws\<close> is the hypothesis that the driver
  implements that meaning: a statement that succeeds has its effect, one that fails has none. The
  pool is capped at one connection, so each call is one step on the state. The
  theorems show that whatever statements fail, the store behaves like a registry indexed by
  agent name, and that names and identifiers stay unique.
\<close>

section \<open>Data\<close>

record StoreAgent =
  SA_ID :: string
  SA_Name :: string
  SA_PublicKey :: string
  SA_Endpoint :: string
  SA_AuthTokenHash :: "byte list"
  SA_CreatedAt :: Time
  SA_LastSeenAt :: Time

datatype StoreError =
    ErrNotFound
  | OpenFailed string
  | PingFailed string
  | MigrateFailed string
  | UpsertFailed string
  | HeartbeatFailed string
  | ListFailed string
  | ScanFailed string
  | RowsFailed string

text \<open>A row of the table \<^verbatim>\<open>agents\<close>, the statements and the queries of the package.\<close>

record Row =
  row_id :: string
  row_name :: string
  row_public_key :: string
  row_endpoint :: string
  row_auth_token_hash :: "byte list"
  row_created_at :: int
  row_last_seen_at :: int

datatype stmt =
    CREATE_agents
  | INSERT_agents Row
  | UPDATE_last_seen_at int string
  | UPDATE_endpoint string int string

datatype query =
    SELECT_by_name string
  | SELECT_by_auth_token_hash "byte list"
  | SELECT_ORDER_BY_name

text \<open>
  The driver. A query yields the rows that were read, each of which may fail to scan, and the
  error that ended the iteration, if any.
\<close>

record 'db sqldb =
  sql_Open :: "string \<Rightarrow> 'db \<Rightarrow> string option \<times> 'db"
  sql_SetMaxOpenConns :: "nat \<Rightarrow> 'db \<Rightarrow> 'db"
  sql_PingContext :: "'db \<Rightarrow> string option \<times> 'db"
  sql_Close :: "'db \<Rightarrow> string option \<times> 'db"
  sql_ExecContext :: "stmt \<Rightarrow> 'db \<Rightarrow> string option \<times> 'db"
  sql_QueryContext :: "query \<Rightarrow> 'db \<Rightarrow> (string + (string + Row) list \<times> string option) \<times> 'db"

section \<open>Operations\<close>

definition migrate :: "'db sqldb \<Rightarrow> 'db \<Rightarrow> StoreError option \<times> 'db" where
  "migrate D db =
     (case sql_ExecContext D CREATE_agents db of
        (Some e, db') \<Rightarrow> (Some (MigrateFailed e), db')
      | (None, db') \<Rightarrow> (None, db'))"

definition Open :: "'db sqldb \<Rightarrow> string \<Rightarrow> 'db \<Rightarrow> StoreError option \<times> 'db" where
  "Open D path db =
     (case sql_Open D path db of
        (Some e, db) \<Rightarrow> (Some (OpenFailed e), db)
      | (None, db) \<Rightarrow>
          (case sql_PingContext D (sql_SetMaxOpenConns D 1 db) of
             (Some e, db1) \<Rightarrow> (Some (PingFailed e), snd (sql_Close D db1))
           | (None, db1) \<Rightarrow>
               (case migrate D db1 of
                  (Some e, db2) \<Rightarrow> (Some e, snd (sql_Close D db2))
                | (None, db2) \<Rightarrow> (None, db2))))"

definition Close :: "'db sqldb \<Rightarrow> 'db \<Rightarrow> string option \<times> 'db" where
  "Close D db = sql_Close D db"

definition HashToken :: "string \<Rightarrow> byte list" where
  "HashToken token = Sum256 (bytes_of token)"

definition Unix_Time :: "int \<Rightarrow> Time" where
  "Unix_Time sec = \<lparr>T_Sec = sec, T_Nsec = 0\<rparr>"

definition agent_row :: "StoreAgent \<Rightarrow> Row" where
  "agent_row a =
     \<lparr>row_id = SA_ID a, row_name = SA_Name a, row_public_key = SA_PublicKey a, row_endpoint = SA_Endpoint a,
      row_auth_token_hash = SA_AuthTokenHash a, row_created_at = T_Sec (SA_CreatedAt a),
      row_last_seen_at = T_Sec (SA_LastSeenAt a)\<rparr>"

definition UpsertAgent :: "'db sqldb \<Rightarrow> Time \<Rightarrow> StoreAgent \<Rightarrow> 'db \<Rightarrow> StoreError option \<times> 'db" where
  "UpsertAgent D now a db =
     (let a = (if IsZero (SA_CreatedAt a) then a\<lparr>SA_CreatedAt := Unix_Time (T_Sec now)\<rparr> else a)
      in case sql_ExecContext D (INSERT_agents (agent_row a)) db of
           (Some e, db') \<Rightarrow> (Some (UpsertFailed e), db')
         | (None, db') \<Rightarrow> (None, db'))"

datatype scanned = Scanned Row | ErrNoRows | ScanErr string

definition scanAgent :: "scanned \<Rightarrow> StoreError + StoreAgent" where
  "scanAgent s =
     (case s of
        ErrNoRows \<Rightarrow> Inl ErrNotFound
      | ScanErr e \<Rightarrow> Inl (ScanFailed e)
      | Scanned r \<Rightarrow>
          Inr \<lparr>SA_ID = row_id r, SA_Name = row_name r, SA_PublicKey = row_public_key r, SA_Endpoint = row_endpoint r,
               SA_AuthTokenHash = row_auth_token_hash r, SA_CreatedAt = Unix_Time (row_created_at r),
               SA_LastSeenAt = (if row_last_seen_at r > 0 then Unix_Time (row_last_seen_at r) else zero_Time)\<rparr>)"

text \<open>\<^verbatim>\<open>QueryRowContext\<close> keeps the first row; an error of the query is reported by its \<^verbatim>\<open>Scan\<close>.\<close>

definition QueryRow :: "'db sqldb \<Rightarrow> query \<Rightarrow> 'db \<Rightarrow> scanned \<times> 'db" where
  "QueryRow D q db =
     (case sql_QueryContext D q db of
        (Inl e, db') \<Rightarrow> (ScanErr e, db')
      | (Inr (Inr r # _, _), db') \<Rightarrow> (Scanned r, db')
      | (Inr (Inl e # _, _), db') \<Rightarrow> (ScanErr e, db')
      | (Inr ([], Some e), db') \<Rightarrow> (ScanErr e, db')
      | (Inr ([], None), db') \<Rightarrow> (ErrNoRows, db'))"

definition GetAgentByName :: "'db sqldb \<Rightarrow> string \<Rightarrow> 'db \<Rightarrow> (StoreError + StoreAgent) \<times> 'db" where
  "GetAgentByName D name db = (case QueryRow D (SELECT_by_name name) db of (row, db') \<Rightarrow> (scanAgent row, db'))"

definition AuthenticateByTokenHash :: "'db sqldb \<Rightarrow> byte list \<Rightarrow> 'db \<Rightarrow> (StoreError + StoreAgent) \<times> 'db" where
  "AuthenticateByTokenHash D hash db =
     (case QueryRow D (SELECT_by_auth_token_hash hash) db of (row, db') \<Rightarrow> (scanAgent row, db'))"

definition UpdateHeartbeat :: "'db sqldb \<Rightarrow> string \<Rightarrow> string \<Rightarrow> Time \<Rightarrow> 'db \<Rightarrow> StoreError option \<times> 'db" where
  "UpdateHeartbeat D ident endpoint when db =
     (if endpoint = []
      then case sql_ExecContext D (UPDATE_last_seen_at (T_Sec when) ident) db of
             (err, db') \<Rightarrow> (map_option HeartbeatFailed err, db')
      else case sql_ExecContext D (UPDATE_endpoint endpoint (T_Sec when) ident) db of
             (err, db') \<Rightarrow> (map_option HeartbeatFailed err, db'))"

fun scan_rows :: "(string + Row) list \<Rightarrow> StoreError + StoreAgent list" where
  "scan_rows [] = Inr []"
| "scan_rows (x # xs) =
     (case scanAgent (case x of Inl e \<Rightarrow> ScanErr e | Inr r \<Rightarrow> Scanned r) of
        Inl e \<Rightarrow> Inl e
      | Inr a \<Rightarrow> bind_res (scan_rows xs) (\<lambda>out. Inr (a # out)))"

definition ListAgents :: "'db sqldb \<Rightarrow> 'db \<Rightarrow> (StoreError + StoreAgent list) \<times> 'db" where
  "ListAgents D db =
     (case sql_QueryContext D SELECT_ORDER_BY_name db of
        (Inl e, db') \<Rightarrow> (Inl (ListFailed e), db')
      | (Inr (rows, err), db') \<Rightarrow>
          (case scan_rows rows of
             Inl e \<Rightarrow> (Inl e, db')
           | Inr out \<Rightarrow> (case err of Some e \<Rightarrow> (Inl (RowsFailed e), db') | None \<Rightarrow> (Inr out, db'))))"

section \<open>The meaning of the statements\<close>

text \<open>
  The table, \<open>None\<close> before it is created. \<^verbatim>\<open>INSERT \<dots> ON CONFLICT(name) DO UPDATE\<close> replaces
  every column but \<^verbatim>\<open>created_at\<close> of the row with that name, or adds a row; it violates the
  primary key when another row has the identifier, and then fails.
\<close>

definition has_name :: "string \<Rightarrow> Row \<Rightarrow> bool" where "has_name n r \<longleftrightarrow> row_name r = n"

definition upsert_rows :: "Row \<Rightarrow> Row list \<Rightarrow> Row list option" where
  "upsert_rows r rs =
     (if list_ex (\<lambda>x. row_name x \<noteq> row_name r \<and> row_id x = row_id r) rs then None
      else if list_ex (has_name (row_name r)) rs
      then Some (map (\<lambda>x. if has_name (row_name r) x then r\<lparr>row_created_at := row_created_at x\<rparr> else x) rs)
      else Some (rs @ [r]))"

fun exec_table :: "stmt \<Rightarrow> Row list option \<Rightarrow> Row list option" where
  "exec_table CREATE_agents t = Some (case t of None \<Rightarrow> [] | Some rs \<Rightarrow> rs)"
| "exec_table s None = None"
| "exec_table (INSERT_agents r) (Some rs) = upsert_rows r rs"
| "exec_table (UPDATE_last_seen_at w i) (Some rs) =
     Some (map (\<lambda>x. if row_id x = i then x\<lparr>row_last_seen_at := w\<rparr> else x) rs)"
| "exec_table (UPDATE_endpoint ep w i) (Some rs) =
     Some (map (\<lambda>x. if row_id x = i then x\<lparr>row_endpoint := ep, row_last_seen_at := w\<rparr> else x) rs)"

fun query_matches :: "query \<Rightarrow> Row \<Rightarrow> bool" where
  "query_matches (SELECT_by_name n) r \<longleftrightarrow> has_name n r"
| "query_matches (SELECT_by_auth_token_hash h) r \<longleftrightarrow> row_auth_token_hash r = h"
| "query_matches SELECT_ORDER_BY_name r \<longleftrightarrow> True"

definition select_ok :: "query \<Rightarrow> Row list \<Rightarrow> Row list \<Rightarrow> bool" where
  "select_ok q t rs \<longleftrightarrow>
     mset rs = mset (filter (query_matches q) t) \<and> (q = SELECT_ORDER_BY_name \<longrightarrow> sorted (map row_name rs))"

text \<open>
  What the package relies on of the driver, \<open>tbl\<close> reading the table off a database state. A
  statement that fails leaves the table as it was, a query never changes it, every row read is one
  of the selected rows, and a query read to its end without error yields them all.
\<close>

definition sql_laws :: "'db sqldb \<Rightarrow> ('db \<Rightarrow> Row list option) \<Rightarrow> bool" where
  "sql_laws D tbl \<longleftrightarrow>
     (\<forall>s db db'. sql_ExecContext D s db = (None, db') \<longrightarrow> tbl db' \<noteq> None \<and> tbl db' = exec_table s (tbl db)) \<and>
     (\<forall>s db e db'. sql_ExecContext D s db = (Some e, db') \<longrightarrow> tbl db' = tbl db) \<and>
     (\<forall>q db r db'. sql_QueryContext D q db = (r, db') \<longrightarrow> tbl db' = tbl db) \<and>
     (\<forall>q db xs e db'. sql_QueryContext D q db = (Inr (xs, e), db') \<longrightarrow>
        (\<exists>t. tbl db = Some t \<and> (\<forall>r. Inr r \<in> set xs \<longrightarrow> r \<in> set t \<and> query_matches q r) \<and>
             (\<forall>rs. e = None \<and> xs = map Inr rs \<longrightarrow> select_ok q t rs)))"

text \<open>A database without failures of its own: only the primary key makes a statement fail.\<close>

definition sql_live :: "'db sqldb \<Rightarrow> ('db \<Rightarrow> Row list option) \<Rightarrow> bool" where
  "sql_live D tbl \<longleftrightarrow>
     (\<forall>s db t e db'. tbl db = Some t \<and> sql_ExecContext D s db = (Some e, db') \<longrightarrow>
        (\<exists>r. s = INSERT_agents r \<and> (\<exists>x \<in> set t. row_id x = row_id r))) \<and>
     (\<forall>q db t. tbl db = Some t \<longrightarrow> (\<exists>rs db'. sql_QueryContext D q db = (Inr (map Inr rs, None), db')))"

section \<open>Tables\<close>

text \<open>What the constraints of the schema say, and the index of a table by name.\<close>

definition table_ok :: "Row list \<Rightarrow> bool" where
  "table_ok rs \<longleftrightarrow> distinct (map row_name rs) \<and> distinct (map row_id rs)"

definition row_of :: "Row list \<Rightarrow> string \<Rightarrow> Row option" where
  "row_of rs n = find (has_name n) rs"

definition keep_created :: "Row option \<Rightarrow> Row \<Rightarrow> Row" where
  "keep_created old r = (case old of None \<Rightarrow> r | Some x \<Rightarrow> r\<lparr>row_created_at := row_created_at x\<rparr>)"

lemma keep_created_fields [simp]:
  "row_name (keep_created old r) = row_name r" "row_id (keep_created old r) = row_id r"
  "row_public_key (keep_created old r) = row_public_key r" "row_endpoint (keep_created old r) = row_endpoint r"
  "row_auth_token_hash (keep_created old r) = row_auth_token_hash r"
  "row_last_seen_at (keep_created old r) = row_last_seen_at r"
  by (simp_all add: keep_created_def split: option.splits)

lemma row_of_SomeD: "row_of rs n = Some r \<Longrightarrow> r \<in> set rs \<and> row_name r = n"
  by (auto simp: row_of_def has_name_def dest: find_Some_in)

lemma row_of_None_iff: "row_of rs n = None \<longleftrightarrow> n \<notin> row_name ` set rs"
  by (auto simp: row_of_def has_name_def find_None_iff)

lemma row_of_member: "table_ok rs \<Longrightarrow> r \<in> set rs \<Longrightarrow> row_of rs (row_name r) = Some r"
  unfolding row_of_def has_name_def table_ok_def by (rule find_distinct) simp_all

lemma row_of_iff: "table_ok rs \<Longrightarrow> row_of rs n = Some r \<longleftrightarrow> r \<in> set rs \<and> row_name r = n"
  using row_of_SomeD row_of_member by blast

lemma row_of_map:
  "(\<And>x. row_name (f x) = row_name x) \<Longrightarrow> row_of (map f rs) n = map_option f (row_of rs n)"
  by (induction rs) (simp_all add: row_of_def has_name_def)

lemma row_of_append: "row_of (xs @ ys) n = (case row_of xs n of None \<Rightarrow> row_of ys n | Some r \<Rightarrow> Some r)"
  by (simp add: row_of_def find_append split: option.splits)

lemma upsert_present:
  assumes "upsert_rows r rs = Some rs'" "row_of rs (row_name r) = Some x"
  shows "rs' = map (\<lambda>y. if has_name (row_name r) y then r\<lparr>row_created_at := row_created_at y\<rparr> else y) rs"
proof -
  have "list_ex (has_name (row_name r)) rs"
    using row_of_SomeD [OF assms(2)] by (auto simp: list_ex_iff has_name_def)
  then show ?thesis using assms(1) by (simp add: upsert_rows_def split: if_splits)
qed

lemma upsert_absent:
  assumes "upsert_rows r rs = Some rs'" "row_of rs (row_name r) = None"
  shows "rs' = rs @ [r]"
proof -
  have "\<not> list_ex (has_name (row_name r)) rs"
    using assms(2) by (auto simp: row_of_None_iff list_ex_iff has_name_def image_iff)
  then show ?thesis using assms(1) by (simp add: upsert_rows_def split: if_splits)
qed

lemma upsert_id_fresh:
  "upsert_rows r rs = Some rs' \<Longrightarrow> x \<in> set rs \<Longrightarrow> row_name x \<noteq> row_name r \<Longrightarrow> row_id x \<noteq> row_id r"
  by (auto simp: upsert_rows_def list_ex_iff split: if_splits)

lemma row_of_replace:
  "row_of (map (\<lambda>y. if has_name k y then r\<lparr>row_created_at := row_created_at y\<rparr> else y) rs) n =
     (if row_name r = k then map_option (\<lambda>y. if n = k then r\<lparr>row_created_at := row_created_at y\<rparr> else y) (row_of rs n)
      else row_of (map (\<lambda>y. if has_name k y then r\<lparr>row_created_at := row_created_at y\<rparr> else y) rs) n)"
  by (induction rs) (auto simp: row_of_def has_name_def)

lemma upsert_get_same:
  assumes "upsert_rows r rs = Some rs'"
  shows "row_of rs' (row_name r) = Some (keep_created (row_of rs (row_name r)) r)"
proof (cases "row_of rs (row_name r)")
  case None
  then show ?thesis using upsert_absent [OF assms None]
    by (simp add: row_of_append keep_created_def) (simp add: row_of_def has_name_def)
next
  case (Some x)
  then show ?thesis using upsert_present [OF assms Some] by (simp add: row_of_replace keep_created_def)
qed

lemma upsert_get_other:
  assumes "upsert_rows r rs = Some rs'" "n \<noteq> row_name r"
  shows "row_of rs' n = row_of rs n"
proof (cases "row_of rs (row_name r)")
  case None
  then show ?thesis using upsert_absent [OF assms(1) None] assms(2)
    by (simp add: row_of_append split: option.splits) (simp add: row_of_def has_name_def)
next
  case (Some x)
  then show ?thesis using upsert_present [OF assms(1) Some] assms(2) by (simp add: row_of_replace)
    (cases "row_of rs n", auto)
qed

lemma distinct_map_replace:
  assumes "distinct (map f xs)" and "\<And>x. P x \<Longrightarrow> f (g x) = c" and "\<And>x. x \<in> set xs \<Longrightarrow> \<not> P x \<Longrightarrow> f x \<noteq> c"
    and "\<And>x y. x \<in> set xs \<Longrightarrow> y \<in> set xs \<Longrightarrow> P x \<Longrightarrow> P y \<Longrightarrow> x = y"
  shows "distinct (map (\<lambda>x. f (if P x then g x else x)) xs)"
  using assms
proof (induction xs)
  case (Cons a xs)
  have "x \<in> set xs \<Longrightarrow> P a \<Longrightarrow> P x \<Longrightarrow> False" for x
    using Cons.prems(1) Cons.prems(4) [of a x] by auto
  then show ?case using Cons by (auto simp: image_iff)
qed simp

lemma upsert_table_ok:
  assumes "upsert_rows r rs = Some rs'" "table_ok rs"
  shows "table_ok rs'"
proof (cases "row_of rs (row_name r)")
  case None
  then have n: "row_name r \<notin> row_name ` set rs" by (simp add: row_of_None_iff)
  have "row_id x \<noteq> row_id r" if "x \<in> set rs" for x
  proof -
    have "row_name x \<noteq> row_name r" using n that by (auto simp: image_iff)
    then show ?thesis by (rule upsert_id_fresh [OF assms(1) that])
  qed
  then have "row_id r \<notin> row_id ` set rs" by (metis imageE)
  with n show ?thesis using upsert_absent [OF assms(1) None] assms(2) by (simp add: table_ok_def)
next
  case (Some x)
  have same: "y \<in> set rs \<Longrightarrow> z \<in> set rs \<Longrightarrow> row_name y = row_name z \<Longrightarrow> y = z" for y z
    using assms(2) by (auto simp: table_ok_def distinct_map inj_on_def)
  have "distinct (map (\<lambda>y. row_name (if has_name (row_name r) y then r\<lparr>row_created_at := row_created_at y\<rparr> else y)) rs)"
    using assms(2) same by (intro distinct_map_replace [where c = "row_name r"]) (auto simp: table_ok_def has_name_def)
  moreover have "distinct (map (\<lambda>y. row_id (if has_name (row_name r) y then r\<lparr>row_created_at := row_created_at y\<rparr> else y)) rs)"
    using assms(2) same upsert_id_fresh [OF assms(1)]
    by (intro distinct_map_replace [where c = "row_id r"]) (auto simp: table_ok_def has_name_def)
  ultimately show ?thesis using upsert_present [OF assms(1) Some] by (simp add: table_ok_def comp_def)
qed

lemma exec_table_ok:
  assumes "exec_table s (Some rs) = Some rs'" "table_ok rs"
  shows "table_ok rs'"
  using assms by (cases s) (auto simp: table_ok_def comp_def if_distrib upsert_table_ok [unfolded table_ok_def]
      cong: if_cong intro: upsert_table_ok)

section \<open>The registry\<close>

text \<open>
  The contract the control plane relies on: a table that can be updated by name and read by name.
  A later registration replaces the earlier one of the same name and no other.
\<close>

locale name_index =
  fixes upsert :: "Row \<Rightarrow> 't \<Rightarrow> 't option" and get :: "'t \<Rightarrow> string \<Rightarrow> Row option"
  assumes get_same: "upsert r t = Some t' \<Longrightarrow> get t' (row_name r) = Some (keep_created (get t (row_name r)) r)"
    and get_other: "upsert r t = Some t' \<Longrightarrow> n \<noteq> row_name r \<Longrightarrow> get t' n = get t n"
begin

lemma get_upsert:
  "upsert r t = Some t' \<Longrightarrow> get t' = (get t)(row_name r \<mapsto> keep_created (get t (row_name r)) r)"
  using get_same get_other by (auto simp: fun_eq_iff)

lemma upsert_replaces_hash:
  assumes "upsert r t = Some t'" and "\<And>n x. n \<noteq> row_name r \<Longrightarrow> get t n = Some x \<Longrightarrow> row_auth_token_hash x \<noteq> h"
    and "row_auth_token_hash r \<noteq> h"
  shows "get t' n = Some x \<Longrightarrow> row_auth_token_hash x \<noteq> h"
  using assms(2,3) by (auto simp: get_upsert [OF assms(1)] split: if_splits)

end

interpretation rows: name_index upsert_rows row_of
  by unfold_locales (rule upsert_get_same, assumption, rule upsert_get_other)

type_synonym Registry = "string \<rightharpoonup> Row"

text \<open>The calls of the package and what they return.\<close>

datatype store_op =
    OpUpsert Time StoreAgent
  | OpHeartbeat string string Time
  | OpGet string
  | OpAuthenticate "byte list"
  | OpList

datatype store_res =
    Done "StoreError option"
  | GotAgent "StoreError + StoreAgent"
  | GotAgents "StoreError + StoreAgent list"

fun run_op :: "'db sqldb \<Rightarrow> store_op \<Rightarrow> 'db \<Rightarrow> store_res \<times> 'db" where
  "run_op D (OpUpsert now a) db = apfst Done (UpsertAgent D now a db)"
| "run_op D (OpHeartbeat i ep w) db = apfst Done (UpdateHeartbeat D i ep w db)"
| "run_op D (OpGet n) db = apfst GotAgent (GetAgentByName D n db)"
| "run_op D (OpAuthenticate h) db = apfst GotAgent (AuthenticateByTokenHash D h db)"
| "run_op D OpList db = apfst GotAgents (ListAgents D db)"

fun run_ops :: "'db sqldb \<Rightarrow> store_op list \<Rightarrow> 'db \<Rightarrow> store_res list \<times> 'db" where
  "run_ops D [] db = ([], db)"
| "run_ops D (x # xs) db = (case run_op D x db of (r, db1) \<Rightarrow> apfst ((#) r) (run_ops D xs db1))"

text \<open>
  The specification: a registry by name. A call either fails and changes nothing, or has its
  effect and the answer the registry gives.
\<close>

definition agent_of :: "Row \<Rightarrow> StoreAgent" where
  "agent_of r =
     \<lparr>SA_ID = row_id r, SA_Name = row_name r, SA_PublicKey = row_public_key r, SA_Endpoint = row_endpoint r,
      SA_AuthTokenHash = row_auth_token_hash r, SA_CreatedAt = Unix_Time (row_created_at r),
      SA_LastSeenAt = (if row_last_seen_at r > 0 then Unix_Time (row_last_seen_at r) else zero_Time)\<rparr>"

definition created_row :: "Time \<Rightarrow> StoreAgent \<Rightarrow> Row" where
  "created_row now a =
     (agent_row a)\<lparr>row_created_at := (if IsZero (SA_CreatedAt a) then T_Sec now else T_Sec (SA_CreatedAt a))\<rparr>"

definition touch :: "string \<Rightarrow> string \<Rightarrow> Time \<Rightarrow> Row \<Rightarrow> Row" where
  "touch i ep w x =
     (if row_id x = i then x\<lparr>row_endpoint := (if ep = [] then row_endpoint x else ep), row_last_seen_at := T_Sec w\<rparr> else x)"

inductive reg_step :: "Registry \<Rightarrow> store_op \<Rightarrow> store_res \<Rightarrow> Registry \<Rightarrow> bool" where
  upsert_ok: "(\<And>n x. m n = Some x \<Longrightarrow> n \<noteq> SA_Name a \<Longrightarrow> row_id x \<noteq> SA_ID a) \<Longrightarrow>
    reg_step m (OpUpsert now a) (Done None)
      (m(SA_Name a \<mapsto> keep_created (m (SA_Name a)) (created_row now a)))"
| upsert_err: "reg_step m (OpUpsert now a) (Done (Some e)) m"
| heartbeat_ok: "reg_step m (OpHeartbeat i ep w) (Done None) (\<lambda>n. map_option (touch i ep w) (m n))"
| heartbeat_err: "reg_step m (OpHeartbeat i ep w) (Done (Some e)) m"
| get_ok: "m n = Some r \<Longrightarrow> reg_step m (OpGet n) (GotAgent (Inr (agent_of r))) m"
| get_missing: "m n = None \<Longrightarrow> reg_step m (OpGet n) (GotAgent (Inl ErrNotFound)) m"
| get_err: "e \<noteq> ErrNotFound \<Longrightarrow> reg_step m (OpGet n) (GotAgent (Inl e)) m"
| auth_ok: "m n = Some r \<Longrightarrow> row_auth_token_hash r = h \<Longrightarrow>
    reg_step m (OpAuthenticate h) (GotAgent (Inr (agent_of r))) m"
| auth_missing: "(\<And>n r. m n = Some r \<Longrightarrow> row_auth_token_hash r \<noteq> h) \<Longrightarrow>
    reg_step m (OpAuthenticate h) (GotAgent (Inl ErrNotFound)) m"
| auth_err: "e \<noteq> ErrNotFound \<Longrightarrow> reg_step m (OpAuthenticate h) (GotAgent (Inl e)) m"
| list_ok: "finite (dom m) \<Longrightarrow>
    reg_step m OpList (GotAgents (Inr (map (\<lambda>n. agent_of (the (m n))) (sorted_list_of_set (dom m))))) m"
| list_err: "reg_step m OpList (GotAgents (Inl e)) m"

inductive_simps reg_step_upsert: "reg_step m (OpUpsert now a) (Done None) m'"
inductive_simps reg_step_heartbeat: "reg_step m (OpHeartbeat i ep w) (Done err) m'"
inductive_simps reg_step_found: "reg_step m (OpAuthenticate h) (GotAgent (Inr a)) m'"
inductive_simps reg_step_not_found: "reg_step m (OpAuthenticate h) (GotAgent (Inl ErrNotFound)) m'"

inductive reg_run :: "Registry \<Rightarrow> store_op list \<Rightarrow> store_res list \<Rightarrow> Registry \<Rightarrow> bool" where
  run_Nil: "reg_run m [] [] m"
| run_Cons: "reg_step m x r m1 \<Longrightarrow> reg_run m1 xs rs m2 \<Longrightarrow> reg_run m (x # xs) (r # rs) m2"

section \<open>Refinement\<close>

lemma sql_exec_ok:
  "sql_laws D tbl \<Longrightarrow> sql_ExecContext D s db = (None, db') \<Longrightarrow> tbl db = Some rs \<Longrightarrow>
     \<exists>rs'. tbl db' = Some rs' \<and> exec_table s (Some rs) = Some rs'"
  unfolding sql_laws_def by (metis option.exhaust_sel)

lemma sql_exec_err: "sql_laws D tbl \<Longrightarrow> sql_ExecContext D s db = (Some e, db') \<Longrightarrow> tbl db' = tbl db"
  unfolding sql_laws_def by blast

lemma sql_query_keeps: "sql_laws D tbl \<Longrightarrow> sql_QueryContext D q db = (r, db') \<Longrightarrow> tbl db' = tbl db"
  unfolding sql_laws_def by blast

lemma sql_query_rows:
  assumes "sql_laws D tbl" "sql_QueryContext D q db = (Inr (xs, e), db')" "tbl db = Some t"
  shows "Inr r \<in> set xs \<Longrightarrow> r \<in> set t \<and> query_matches q r"
    and "e = None \<Longrightarrow> xs = map Inr rs \<Longrightarrow> select_ok q t rs"
  using assms unfolding sql_laws_def by (metis option.inject)+

lemma agent_row_fields [simp]:
  "row_id (agent_row a) = SA_ID a" "row_name (agent_row a) = SA_Name a"
  "row_public_key (agent_row a) = SA_PublicKey a" "row_endpoint (agent_row a) = SA_Endpoint a"
  "row_auth_token_hash (agent_row a) = SA_AuthTokenHash a"
  by (simp_all add: agent_row_def)

lemma agent_of_fields [simp]:
  "SA_ID (agent_of r) = row_id r" "SA_Name (agent_of r) = row_name r" "SA_PublicKey (agent_of r) = row_public_key r"
  "SA_Endpoint (agent_of r) = row_endpoint r" "SA_AuthTokenHash (agent_of r) = row_auth_token_hash r"
  by (simp_all add: agent_of_def)

lemma created_row_fields [simp]:
  "row_id (created_row now a) = SA_ID a" "row_name (created_row now a) = SA_Name a"
  "row_public_key (created_row now a) = SA_PublicKey a" "row_endpoint (created_row now a) = SA_Endpoint a"
  "row_auth_token_hash (created_row now a) = SA_AuthTokenHash a"
  by (simp_all add: created_row_def)

lemma UpsertAgent_exec:
  "UpsertAgent D now a db = apfst (map_option UpsertFailed) (sql_ExecContext D (INSERT_agents (created_row now a)) db)"
  by (auto simp: UpsertAgent_def created_row_def agent_row_def Let_def Unix_Time_def split: prod.splits option.splits)

lemma UpsertAgent_err: "sql_laws D tbl \<Longrightarrow> UpsertAgent D now a db = (Some e, db') \<Longrightarrow> tbl db' = tbl db"
  by (cases "sql_ExecContext D (INSERT_agents (created_row now a)) db") (auto simp: UpsertAgent_exec dest: sql_exec_err)

lemma touch_fields [simp]:
  "row_name (touch i ep w x) = row_name x" "row_id (touch i ep w x) = row_id x"
  "row_public_key (touch i ep w x) = row_public_key x" "row_auth_token_hash (touch i ep w x) = row_auth_token_hash x"
  by (simp_all add: touch_def)

lemma touch_exec:
  "exec_table (if ep = [] then UPDATE_last_seen_at (T_Sec w) i else UPDATE_endpoint ep (T_Sec w) i) (Some rs) =
     Some (map (touch i ep w) rs)"
  by (auto simp: touch_def)

lemma UpdateHeartbeat_exec:
  "UpdateHeartbeat D i ep w db = apfst (map_option HeartbeatFailed)
     (sql_ExecContext D (if ep = [] then UPDATE_last_seen_at (T_Sec w) i else UPDATE_endpoint ep (T_Sec w) i) db)"
  by (auto simp: UpdateHeartbeat_def split: prod.splits)

lemma dom_row_of: "dom (row_of t) = row_name ` set t"
  by (simp add: dom_def row_of_None_iff)

lemma sorted_rows_unique:
  assumes "table_ok t" "mset rs = mset t" "sorted (map row_name rs)"
  shows "rs = map (\<lambda>n. the (row_of t n)) (sorted_list_of_set (dom (row_of t)))"
proof -
  have set: "set rs = set t" using assms(2) by (metis set_mset_mset)
  have "mset (map row_name rs) = mset (map row_name t)" using assms(2) by simp
  then have "distinct (map row_name rs)" using assms(1) mset_eq_imp_distinct_iff unfolding table_ok_def by blast
  moreover have "set (map row_name rs) = dom (row_of t)" using set by (simp add: dom_row_of)
  ultimately have "map row_name rs = sorted_list_of_set (dom (row_of t))"
    using sorted_list_of_set.idem_if_sorted_distinct [OF assms(3)] by simp
  moreover have "map (\<lambda>n. the (row_of t n)) (map row_name rs) = rs"
    using set row_of_member [OF assms(1)] by (auto intro!: map_idI)
  ultimately show ?thesis by simp
qed

lemma scanAgent_Scanned [simp]: "scanAgent (Scanned r) = Inr (agent_of r)"
  by (simp add: scanAgent_def agent_of_def)

lemma scan_rows_Inr: "scan_rows xs = Inr out \<Longrightarrow> \<exists>rs. xs = map Inr rs \<and> out = map agent_of rs"
proof (induction xs arbitrary: out)
  case (Cons x xs)
  then obtain r where x: "x = Inr r" by (cases x) (auto simp: scanAgent_def)
  then obtain out' where "scan_rows xs = Inr out'" "out = agent_of r # out'"
    using Cons.prems by (auto simp: bind_res_Inr_iff)
  then show ?case using Cons.IH x by (metis list.simps(9))
qed simp

lemma scan_rows_map [simp]: "scan_rows (map Inr rs) = Inr (map agent_of rs)"
  by (induction rs) simp_all

text \<open>What the reads answer.\<close>

lemma QueryRow_keeps: "sql_laws D tbl \<Longrightarrow> QueryRow D q db = (x, db') \<Longrightarrow> tbl db' = tbl db"
  by (auto simp: QueryRow_def split: prod.splits sum.splits list.splits option.splits dest: sql_query_keeps)

lemma QueryRow_Scanned:
  assumes "sql_laws D tbl" "QueryRow D q db = (Scanned r, db')" "tbl db = Some t"
  shows "r \<in> set t \<and> query_matches q r"
  using assms(2) sql_query_rows(1) [OF assms(1) _ assms(3)]
  by (fastforce simp: QueryRow_def split: prod.splits sum.splits list.splits option.splits)

lemma QueryRow_ErrNoRows:
  assumes "sql_laws D tbl" "QueryRow D q db = (ErrNoRows, db')" "tbl db = Some t" "r \<in> set t"
  shows "\<not> query_matches q r"
proof -
  have "sql_QueryContext D q db = (Inr ([], None), db')"
    using assms(2) by (simp add: QueryRow_def split: prod.splits sum.splits list.splits option.splits)
  then have "select_ok q t []" using sql_query_rows(2) [OF assms(1) _ assms(3), of q _ None db' "[]"] by simp
  then show ?thesis using assms(4) by (auto simp: select_ok_def filter_empty_conv)
qed

lemma scanAgent_ErrNotFound_iff: "scanAgent s = Inl ErrNotFound \<longleftrightarrow> s = ErrNoRows"
  by (cases s) (simp_all add: scanAgent_def)

lemma scanAgent_Inr_iff: "scanAgent s = Inr a \<longleftrightarrow> (\<exists>r. s = Scanned r \<and> a = agent_of r)"
  by (cases s) (auto simp: scanAgent_def agent_of_def)

lemma ListAgents_keeps: "sql_laws D tbl \<Longrightarrow> ListAgents D db = (x, db') \<Longrightarrow> tbl db' = tbl db"
  by (auto simp: ListAgents_def split: prod.splits sum.splits option.splits dest: sql_query_keeps)

lemma ListAgents_Inr:
  assumes L: "sql_laws D tbl" and "ListAgents D db = (Inr out, db')" and t: "tbl db = Some t" and ok: "table_ok t"
  shows "out = map (\<lambda>n. agent_of (the (row_of t n))) (sorted_list_of_set (dom (row_of t)))"
proof -
  obtain xs where q: "sql_QueryContext D SELECT_ORDER_BY_name db = (Inr (xs, None), db')" "scan_rows xs = Inr out"
    using assms(2) by (auto simp: ListAgents_def split: prod.splits sum.splits option.splits)
  then obtain rs where rs: "xs = map Inr rs" "out = map agent_of rs" using scan_rows_Inr by blast
  then have "select_ok SELECT_ORDER_BY_name t rs" using sql_query_rows(2) [OF L q(1) t] by simp
  then have "mset rs = mset t" "sorted (map row_name rs)" by (simp_all add: select_ok_def)
  from sorted_rows_unique [OF ok this] show ?thesis using rs(2) by simp
qed

lemma finite_registry: "finite (dom (row_of t))"
  by (simp add: dom_row_of)

lemma upsert_refines:
  assumes L: "sql_laws D tbl" and t: "tbl db = Some t" and ok: "table_ok t" and run: "UpsertAgent D now a db = (err, db')"
  shows "\<exists>t'. tbl db' = Some t' \<and> table_ok t' \<and> reg_step (row_of t) (OpUpsert now a) (Done err) (row_of t')"
proof -
  let ?s = "INSERT_agents (created_row now a)"
  obtain err' where e: "sql_ExecContext D ?s db = (err', db')" "err = map_option UpsertFailed err'"
    using run by (cases "sql_ExecContext D ?s db") (auto simp: UpsertAgent_exec)
  show ?thesis
  proof (cases err')
    case None
    then obtain t' where t': "tbl db' = Some t'" "upsert_rows (created_row now a) t = Some t'"
      using sql_exec_ok [OF L _ t] e(1) by fastforce
    have m: "row_of t' = (row_of t)(SA_Name a \<mapsto> keep_created (row_of t (SA_Name a)) (created_row now a))"
      using rows.get_upsert [OF t'(2)] by simp
    have "row_of t n = Some y \<Longrightarrow> n \<noteq> SA_Name a \<Longrightarrow> row_id y \<noteq> SA_ID a" for n y
      using upsert_id_fresh [OF t'(2)] row_of_SomeD by fastforce
    then have "reg_step (row_of t) (OpUpsert now a) (Done None) (row_of t')"
      unfolding m by (rule reg_step.upsert_ok)
    then show ?thesis using t'(1) upsert_table_ok [OF t'(2) ok] by (auto simp: e(2) None)
  next
    case (Some e')
    then show ?thesis using sql_exec_err [OF L, of ?s db e' db'] e t ok by (auto intro: reg_step.intros)
  qed
qed

lemma heartbeat_refines:
  assumes L: "sql_laws D tbl" and t: "tbl db = Some t" and ok: "table_ok t" and run: "UpdateHeartbeat D i ep w db = (err, db')"
  shows "\<exists>t'. tbl db' = Some t' \<and> table_ok t' \<and> reg_step (row_of t) (OpHeartbeat i ep w) (Done err) (row_of t')"
proof -
  let ?s = "if ep = [] then UPDATE_last_seen_at (T_Sec w) i else UPDATE_endpoint ep (T_Sec w) i"
  obtain err' where e: "sql_ExecContext D ?s db = (err', db')" "err = map_option HeartbeatFailed err'"
    using run by (cases "sql_ExecContext D ?s db") (auto simp: UpdateHeartbeat_exec)
  show ?thesis
  proof (cases err')
    case None
    then have t': "tbl db' = Some (map (touch i ep w) t)"
      using sql_exec_ok [OF L e(1) [unfolded None] t] touch_exec by metis
    have "row_of (map (touch i ep w) t) = (\<lambda>n. map_option (touch i ep w) (row_of t n))"
      by (auto simp: fun_eq_iff row_of_map touch_def)
    then have "reg_step (row_of t) (OpHeartbeat i ep w) (Done None) (row_of (map (touch i ep w) t))"
      by (simp add: reg_step.heartbeat_ok)
    then show ?thesis using t' exec_table_ok [OF touch_exec ok] by (auto simp: e(2) None)
  next
    case (Some e')
    then show ?thesis using sql_exec_err [OF L, of ?s db e' db'] e t ok by (auto intro: reg_step.intros)
  qed
qed

lemma get_refines:
  assumes L: "sql_laws D tbl" and t: "tbl db = Some t" and ok: "table_ok t" and run: "GetAgentByName D n db = (x, db')"
  shows "tbl db' = Some t \<and> reg_step (row_of t) (OpGet n) (GotAgent x) (row_of t)"
proof -
  obtain s where s: "QueryRow D (SELECT_by_name n) db = (s, db')" "x = scanAgent s"
    using run by (auto simp: GetAgentByName_def split: prod.splits)
  have "reg_step (row_of t) (OpGet n) (GotAgent (scanAgent s)) (row_of t)"
  proof (cases s)
    case (Scanned y)
    then have "row_of t n = Some y"
      using QueryRow_Scanned [OF L s(1) [unfolded Scanned] t] row_of_iff [OF ok] by (simp add: has_name_def)
    then show ?thesis by (simp add: Scanned reg_step.get_ok)
  next
    case ErrNoRows
    then have "row_of t n = None"
      using QueryRow_ErrNoRows [OF L s(1) [unfolded ErrNoRows] t] by (force simp: row_of_None_iff has_name_def)
    then show ?thesis by (simp add: ErrNoRows scanAgent_def reg_step.get_missing)
  qed (simp add: scanAgent_def reg_step.get_err)
  then show ?thesis using QueryRow_keeps [OF L s(1)] s(2) t by simp
qed

lemma auth_refines:
  assumes L: "sql_laws D tbl" and t: "tbl db = Some t" and ok: "table_ok t" and run: "AuthenticateByTokenHash D h db = (x, db')"
  shows "tbl db' = Some t \<and> reg_step (row_of t) (OpAuthenticate h) (GotAgent x) (row_of t)"
proof -
  obtain s where s: "QueryRow D (SELECT_by_auth_token_hash h) db = (s, db')" "x = scanAgent s"
    using run by (auto simp: AuthenticateByTokenHash_def split: prod.splits)
  have "reg_step (row_of t) (OpAuthenticate h) (GotAgent (scanAgent s)) (row_of t)"
  proof (cases s)
    case (Scanned y)
    then have "row_of t (row_name y) = Some y" "row_auth_token_hash y = h"
      using QueryRow_Scanned [OF L s(1) [unfolded Scanned] t] row_of_iff [OF ok] by simp_all
    then show ?thesis by (simp add: Scanned reg_step.auth_ok)
  next
    case ErrNoRows
    have "row_of t n = Some y \<Longrightarrow> row_auth_token_hash y \<noteq> h" for n y
      using QueryRow_ErrNoRows [OF L s(1) [unfolded ErrNoRows] t] row_of_SomeD by fastforce
    then show ?thesis by (simp add: ErrNoRows scanAgent_def reg_step.auth_missing)
  qed (simp add: scanAgent_def reg_step.auth_err)
  then show ?thesis using QueryRow_keeps [OF L s(1)] s(2) t by simp
qed

lemma list_refines:
  assumes L: "sql_laws D tbl" and t: "tbl db = Some t" and ok: "table_ok t" and run: "ListAgents D db = (l, db')"
  shows "tbl db' = Some t \<and> reg_step (row_of t) OpList (GotAgents l) (row_of t)"
proof -
  have "reg_step (row_of t) OpList (GotAgents l) (row_of t)"
  proof (cases l)
    case (Inr out)
    show ?thesis unfolding Inr ListAgents_Inr [OF L run [unfolded Inr] t ok]
      by (rule reg_step.list_ok [OF finite_registry])
  qed (simp add: reg_step.list_err)
  then show ?thesis using ListAgents_keeps [OF L run] t by simp
qed

lemma op_refines:
  assumes L: "sql_laws D tbl" and t: "tbl db = Some t" and ok: "table_ok t" and run: "run_op D x db = (r, db')"
  shows "\<exists>t'. tbl db' = Some t' \<and> table_ok t' \<and> reg_step (row_of t) x r (row_of t')"
proof (cases x)
  case (OpUpsert now a)
  then show ?thesis using run upsert_refines [OF L t ok] by (cases "UpsertAgent D now a db") fastforce
next
  case (OpHeartbeat i ep w)
  then show ?thesis using run heartbeat_refines [OF L t ok] by (cases "UpdateHeartbeat D i ep w db") fastforce
next
  case (OpGet n)
  then show ?thesis using run ok get_refines [OF L t ok] by (cases "GetAgentByName D n db") fastforce
next
  case (OpAuthenticate h)
  then show ?thesis using run ok auth_refines [OF L t ok] by (cases "AuthenticateByTokenHash D h db") fastforce
next
  case OpList
  then show ?thesis using run ok list_refines [OF L t ok] by (cases "ListAgents D db") fastforce
qed

text \<open>
  C5. Whatever calls are made of an open store and whatever statements of them fail in the
  database, the store behaves like a registry indexed by agent name: every call that reports an
  error has changed nothing, every registration replaces the one of its name and keeps its creation
  time, every lookup answers as the registry does, and names and identifiers stay unique.
\<close>

theorem store_refines_registry:
  assumes "sql_laws D tbl" "tbl db = Some t" "table_ok t" "run_ops D ops db = (res, db')"
  shows "\<exists>t'. tbl db' = Some t' \<and> table_ok t' \<and> reg_run (row_of t) ops res (row_of t')"
  using assms(2-)
proof (induction ops arbitrary: db t res)
  case Nil
  then show ?case by (auto intro: run_Nil)
next
  case (Cons x ops)
  obtain r db1 where r: "run_op D x db = (r, db1)" by fastforce
  then obtain res1 where res1: "run_ops D ops db1 = (res1, db')" "res = r # res1"
    using Cons.prems(3) by (cases "run_ops D ops db1") auto
  obtain t1 where t1: "tbl db1 = Some t1" "table_ok t1" "reg_step (row_of t) x r (row_of t1)"
    using op_refines [OF assms(1) Cons.prems(1,2) r] by blast
  then show ?case using Cons.IH [OF t1(1,2) res1(1)] res1(2) by (auto intro: run_Cons)
qed

text \<open>Without failures of the database.\<close>

lemma sql_live_exec:
  assumes "sql_live D tbl" "tbl db = Some t" "\<And>r x. s = INSERT_agents r \<Longrightarrow> x \<in> set t \<Longrightarrow> row_id x \<noteq> row_id r"
  shows "\<exists>db'. sql_ExecContext D s db = (None, db')"
proof (cases "sql_ExecContext D s db")
  case (Pair err db')
  then have "err = None" using assms unfolding sql_live_def by (cases err) blast+
  then show ?thesis using Pair by simp
qed

lemma UpsertAgent_live:
  assumes "sql_live D tbl" "tbl db = Some t" "\<And>x. x \<in> set t \<Longrightarrow> row_id x \<noteq> SA_ID a"
  shows "\<exists>db'. UpsertAgent D now a db = (None, db')"
proof -
  have "\<exists>db'. sql_ExecContext D (INSERT_agents (created_row now a)) db = (None, db')"
    using assms(3) by (intro sql_live_exec [OF assms(1,2)]) auto
  then show ?thesis by (auto simp: UpsertAgent_exec)
qed

lemma UpdateHeartbeat_live:
  assumes "sql_live D tbl" "tbl db = Some t"
  shows "\<exists>db'. UpdateHeartbeat D i ep w db = (None, db')"
proof -
  let ?s = "if ep = [] then UPDATE_last_seen_at (T_Sec w) i else UPDATE_endpoint ep (T_Sec w) i"
  have "\<exists>db'. sql_ExecContext D ?s db = (None, db')"
    by (intro sql_live_exec [OF assms]) (simp split: if_splits)
  then show ?thesis by (auto simp: UpdateHeartbeat_exec)
qed

lemma ListAgents_live:
  assumes "sql_live D tbl" "tbl db = Some t"
  shows "\<exists>out db'. ListAgents D db = (Inr out, db')"
proof -
  obtain rs db' where "sql_QueryContext D SELECT_ORDER_BY_name db = (Inr (map Inr rs, None), db')"
    using assms unfolding sql_live_def by blast
  then show ?thesis by (simp add: ListAgents_def)
qed

lemma Authenticate_live:
  assumes "sql_live D tbl" "tbl db = Some t"
  shows "fst (AuthenticateByTokenHash D h db) = Inl ErrNotFound \<or> is_ok (fst (AuthenticateByTokenHash D h db))"
proof -
  obtain rs db' where "sql_QueryContext D (SELECT_by_auth_token_hash h) db = (Inr (map Inr rs, None), db')"
    using assms unfolding sql_live_def by blast
  then show ?thesis by (cases rs) (simp_all add: AuthenticateByTokenHash_def QueryRow_def scanAgent_def)
qed

section \<open>A database in memory\<close>

text \<open>A driver whose state is the table itself, on which the hypotheses on the driver hold.\<close>

definition mem_db :: "Row list option sqldb" where
  "mem_db =
     \<lparr>sql_Open = (\<lambda>path db. (None, db)),
      sql_SetMaxOpenConns = (\<lambda>n db. db),
      sql_PingContext = (\<lambda>db. (None, db)),
      sql_Close = (\<lambda>db. (None, db)),
      sql_ExecContext = (\<lambda>s db. case exec_table s db of None \<Rightarrow> (Some ''constraint failed'', db) | Some t \<Rightarrow> (None, Some t)),
      sql_QueryContext = (\<lambda>q db. case db of
          None \<Rightarrow> (Inl ''no such table: agents'', db)
        | Some t \<Rightarrow> (Inr (map Inr (sort_key row_name (filter (query_matches q) t)), None), db))\<rparr>"

lemma mem_db_laws: "sql_laws mem_db (\<lambda>db. db)"
  by (auto simp: sql_laws_def mem_db_def select_ok_def inj_map_eq_map split: option.splits)

lemma mem_db_live: "sql_live mem_db (\<lambda>db. db)"
  unfolding sql_live_def
proof (intro conjI allI impI)
  fix s db t e db' assume "db = Some t \<and> sql_ExecContext mem_db s db = (Some e, db')"
  then show "\<exists>r. s = INSERT_agents r \<and> (\<exists>x\<in>set t. row_id x = row_id r)"
    by (cases s) (auto simp: mem_db_def upsert_rows_def list_ex_iff split: option.splits if_splits)
qed (auto simp: mem_db_def)

definition sample_agent :: "string \<Rightarrow> string \<Rightarrow> StoreAgent" where
  "sample_agent i n =
     \<lparr>SA_ID = i, SA_Name = n, SA_PublicKey = ''key'', SA_Endpoint = [], SA_AuthTokenHash = [1],
      SA_CreatedAt = Unix_Time 5, SA_LastSeenAt = Unix_Time 5\<rparr>"

theorem store_refines_registry_witness:
  "\<exists>t'. snd (run_ops mem_db [OpUpsert zero_Time (sample_agent ''1'' ''b''), OpUpsert zero_Time (sample_agent ''2'' ''a''), OpList] (Some [])) = Some t' \<and>
    table_ok t' \<and>
    reg_run (row_of []) [OpUpsert zero_Time (sample_agent ''1'' ''b''), OpUpsert zero_Time (sample_agent ''2'' ''a''), OpList]
      [Done None, Done None, GotAgents (Inr [sample_agent ''2'' ''a'', sample_agent ''1'' ''b''])] (row_of t')"
proof -
  have run: "run_ops mem_db [OpUpsert zero_Time (sample_agent ''1'' ''b''), OpUpsert zero_Time (sample_agent ''2'' ''a''), OpList] (Some []) =
      ([Done None, Done None, GotAgents (Inr [sample_agent ''2'' ''a'', sample_agent ''1'' ''b''])],
       Some [agent_row (sample_agent ''1'' ''b''), agent_row (sample_agent ''2'' ''a'')])"
    by code_simp
  then show ?thesis
    using store_refines_registry [OF mem_db_laws _ _ run] by (simp add: table_ok_def del: run_ops.simps)
qed

text \<open>A store that opened has its table; one that did not has closed its database.\<close>

lemma Open_ready:
  assumes "sql_laws D tbl" "Open D path db = (None, db')"
  shows "tbl db' \<noteq> None"
proof -
  obtain db1 where "sql_ExecContext D CREATE_agents db1 = (None, db')"
    using assms(2) by (auto simp: Open_def migrate_def split: sum.splits prod.splits option.splits)
  then show ?thesis using assms(1) unfolding sql_laws_def by metis
qed

lemma Open_failed:
  assumes "Open D path db = (Some e, db')"
  obtains (not_opened) c where "sql_Open D path db = (Some c, db')" "e = OpenFailed c"
  | (closed_again) db1 where "db' = snd (sql_Close D db1)" "fst (sql_Open D path db) = None"
  using assms by (auto simp: Open_def split: prod.splits option.splits)

end
