(* ===== verification/Api.thy ===== *)
theory Api
  imports Go_Time
begin

text \<open>
  The messages of the control-plane protocol
  (\<^verbatim>\<open>api/proto/seine/controlplane/v1/controlplane.pb.go\<close>): the fields the program reads and
  writes, without the bookkeeping of the protobuf runtime. An enum value outside the declared
  ones, which proto3 keeps on the wire, is \<open>ROLE_OTHER\<close>. A message pointer that may be nil is
  an option.
\<close>

datatype Role = ROLE_UNSPECIFIED | ROLE_HUB | ROLE_SPOKE | ROLE_OTHER int

record RegisterRequest =
  Reg_Name :: string
  Reg_BootstrapToken :: string
  Reg_PublicKey :: string
  Reg_Endpoint :: string
  Reg_AgentVersion :: string

record RegisterResponse =
  Resp_AuthToken :: string

record HeartbeatRequest =
  HB_Endpoint :: string

record PeerInfo =
  Info_Name :: string
  Info_PublicKey :: string
  Info_Endpoint :: string
  Info_TunnelIp :: string
  Info_LastSeen :: "Time option"
  Info_Role :: Role

record HeartbeatResponse =
  HB_SpecCommit :: string
  HB_Peers :: "PeerInfo option list"

end
