(* ===== verification/Grpc.thy ===== *)
theory Grpc
  imports Api
begin

text \<open>
  The generated service (\<^verbatim>\<open>api/proto/seine/controlplane/v1/controlplane_grpc.pb.go\<close>): the client
  stubs, the method handlers and the service description. The gRPC library and the protobuf runtime
  are parameters: \<open>invoke\<close> is the connection's \<^verbatim>\<open>Invoke\<close>, the interceptor is what the server was
  built with, and a message is marshalled by a codec into bytes of any type \<open>'b\<close>. The named
  hypotheses \<open>codec_laws\<close>, \<open>routes\<close> and \<open>invokes\<close> say what the program relies on there.
\<close>

definition Register_FullMethodName :: string where
  "Register_FullMethodName = ''/seine.controlplane.v1.ControlPlane/Register''"

definition Heartbeat_FullMethodName :: string where
  "Heartbeat_FullMethodName = ''/seine.controlplane.v1.ControlPlane/Heartbeat''"

section \<open>The client\<close>

text \<open>A call with its outgoing metadata, the full name of the method and the message.\<close>

type_synonym ('req, 'resp, 'e, 'n) invocation = "(string \<times> string) list \<Rightarrow> string \<Rightarrow> 'req \<Rightarrow> 'n \<Rightarrow> ('e + 'resp) \<times> 'n"

definition Client_Register ::
    "(RegisterRequest, RegisterResponse, 'e, 'n) invocation \<Rightarrow> (string \<times> string) list \<Rightarrow> RegisterRequest \<Rightarrow> 'n \<Rightarrow>
     ('e + RegisterResponse) \<times> 'n" where
  "Client_Register invoke md req n =
     (case invoke md Register_FullMethodName req n of
        (Inl err, n') \<Rightarrow> (Inl err, n')
      | (Inr out, n') \<Rightarrow> (Inr out, n'))"

definition Client_Heartbeat ::
    "(HeartbeatRequest, HeartbeatResponse, 'e, 'n) invocation \<Rightarrow> (string \<times> string) list \<Rightarrow> HeartbeatRequest \<Rightarrow> 'n \<Rightarrow>
     ('e + HeartbeatResponse) \<times> 'n" where
  "Client_Heartbeat invoke md req n =
     (case invoke md Heartbeat_FullMethodName req n of
        (Inl err, n') \<Rightarrow> (Inl err, n')
      | (Inr out, n') \<Rightarrow> (Inr out, n'))"

section \<open>The server\<close>

type_synonym ('ctx, 'req, 'resp, 'e, 'db) unary = "'ctx \<Rightarrow> 'req \<Rightarrow> 'db \<Rightarrow> ('e + 'resp) \<times> 'db"

type_synonym ('ctx, 'req, 'resp, 'e, 'db) interceptor =
  "'ctx \<Rightarrow> 'req \<Rightarrow> string \<Rightarrow> ('ctx, 'req, 'resp, 'e, 'db) unary \<Rightarrow> 'db \<Rightarrow> ('e + 'resp) \<times> 'db"

text \<open>\<open>decoded\<close> is the outcome of decoding the request, \<open>interceptor\<close> may be nil.\<close>

definition ControlPlane_Register_Handler ::
    "('ctx, RegisterRequest, RegisterResponse, 'e, 'db) unary \<Rightarrow> 'ctx \<Rightarrow> 'e + RegisterRequest \<Rightarrow>
     ('ctx, RegisterRequest, RegisterResponse, 'e, 'db) interceptor option \<Rightarrow> 'db \<Rightarrow> ('e + RegisterResponse) \<times> 'db" where
  "ControlPlane_Register_Handler srv ctx decoded interceptor db =
     (case decoded of
        Inl err \<Rightarrow> (Inl err, db)
      | Inr req \<Rightarrow>
          (case interceptor of
             None \<Rightarrow> srv ctx req db
           | Some intercept \<Rightarrow> intercept ctx req Register_FullMethodName srv db))"

definition ControlPlane_Heartbeat_Handler ::
    "('ctx, HeartbeatRequest, HeartbeatResponse, 'e, 'db) unary \<Rightarrow> 'ctx \<Rightarrow> 'e + HeartbeatRequest \<Rightarrow>
     ('ctx, HeartbeatRequest, HeartbeatResponse, 'e, 'db) interceptor option \<Rightarrow> 'db \<Rightarrow> ('e + HeartbeatResponse) \<times> 'db" where
  "ControlPlane_Heartbeat_Handler srv ctx decoded interceptor db =
     (case decoded of
        Inl err \<Rightarrow> (Inl err, db)
      | Inr req \<Rightarrow>
          (case interceptor of
             None \<Rightarrow> srv ctx req db
           | Some intercept \<Rightarrow> intercept ctx req Heartbeat_FullMethodName srv db))"

record 'm ServiceDesc =
  ServiceName :: string
  Methods :: "(string \<times> 'm) list"

definition ControlPlane_ServiceDesc :: "'m \<Rightarrow> 'm \<Rightarrow> 'm ServiceDesc" where
  "ControlPlane_ServiceDesc register heartbeat =
     \<lparr>ServiceName = ''seine.controlplane.v1.ControlPlane'', Methods = [(''Register'', register), (''Heartbeat'', heartbeat)]\<rparr>"

text \<open>\<open>registerService\<close> is the registrar's \<^verbatim>\<open>RegisterService\<close>.\<close>

definition RegisterControlPlaneServer :: "('m ServiceDesc \<Rightarrow> 'r \<Rightarrow> 'r) \<Rightarrow> 'm \<Rightarrow> 'm \<Rightarrow> 'r \<Rightarrow> 'r" where
  "RegisterControlPlaneServer registerService register heartbeat =
     registerService (ControlPlane_ServiceDesc register heartbeat)"

section \<open>What is relied on in gRPC and protobuf\<close>

record ('e, 'b) codec =
  marshal_RegisterRequest :: "RegisterRequest \<Rightarrow> 'e + 'b"
  marshal_RegisterResponse :: "RegisterResponse \<Rightarrow> 'e + 'b"
  marshal_HeartbeatRequest :: "HeartbeatRequest \<Rightarrow> 'e + 'b"
  marshal_HeartbeatResponse :: "HeartbeatResponse \<Rightarrow> 'e + 'b"
  unmarshal_RegisterRequest :: "'b \<Rightarrow> 'e + RegisterRequest"
  unmarshal_RegisterResponse :: "'b \<Rightarrow> 'e + RegisterResponse"
  unmarshal_HeartbeatRequest :: "'b \<Rightarrow> 'e + HeartbeatRequest"
  unmarshal_HeartbeatResponse :: "'b \<Rightarrow> 'e + HeartbeatResponse"

text \<open>A message that can be marshalled is read back; one that cannot, such as a string that is not UTF-8, is an error.\<close>

definition codec_laws :: "('e, 'b) codec \<Rightarrow> bool" where
  "codec_laws C \<longleftrightarrow>
     (\<forall>m b. marshal_RegisterRequest C m = Inr b \<longrightarrow> unmarshal_RegisterRequest C b = Inr m) \<and>
     (\<forall>m b. marshal_RegisterResponse C m = Inr b \<longrightarrow> unmarshal_RegisterResponse C b = Inr m) \<and>
     (\<forall>m b. marshal_HeartbeatRequest C m = Inr b \<longrightarrow> unmarshal_HeartbeatRequest C b = Inr m) \<and>
     (\<forall>m b. marshal_HeartbeatResponse C m = Inr b \<longrightarrow> unmarshal_HeartbeatResponse C b = Inr m)"

text \<open>What a method does with bytes: decode, handle, encode the response.\<close>

definition over_bytes :: "('b \<Rightarrow> 'e + 'req) \<Rightarrow> ('resp \<Rightarrow> 'e + 'b) \<Rightarrow> ('e + 'req \<Rightarrow> 'db \<Rightarrow> ('e + 'resp) \<times> 'db) \<Rightarrow> 'b \<Rightarrow> 'db \<Rightarrow> ('e + 'b) \<times> 'db" where
  "over_bytes unmarshal enc handle bytes db = (case handle (unmarshal bytes) db of (r, db') \<Rightarrow> (bind_res r enc, db'))"

text \<open>A call that reaches the server runs the method registered under the service and method of its full name.\<close>

definition routes ::
    "((string \<times> string) list \<Rightarrow> 'ctx) \<Rightarrow> ('ctx \<Rightarrow> 'b \<Rightarrow> 'db \<Rightarrow> ('e + 'b) \<times> 'db) ServiceDesc \<Rightarrow>
     ((string \<times> string) list \<Rightarrow> string \<Rightarrow> 'b \<Rightarrow> 'db \<Rightarrow> ('e + 'b) \<times> 'db) \<Rightarrow> bool" where
  "routes incoming desc carry \<longleftrightarrow>
     (\<forall>name m. (name, m) \<in> set (Methods desc) \<longrightarrow>
        (\<forall>md bytes db. carry md (''/'' @ ServiceName desc @ ''/'' @ name) bytes db = m (incoming md) bytes db))"

text \<open>\<^verbatim>\<open>Invoke\<close> marshals the request, has it carried and unmarshals the response; a status becomes the client's error.\<close>

definition invokes ::
    "('st \<Rightarrow> 'e) \<Rightarrow> ('req \<Rightarrow> 'st + 'b) \<Rightarrow> ('b \<Rightarrow> 'st + 'resp) \<Rightarrow>
     ((string \<times> string) list \<Rightarrow> string \<Rightarrow> 'b \<Rightarrow> 'n \<Rightarrow> ('st + 'b) \<times> 'n) \<Rightarrow> ('req, 'resp, 'e, 'n) invocation \<Rightarrow> bool" where
  "invokes to_client enc unmarshal carry invoke \<longleftrightarrow>
     (\<forall>md m req n bytes. enc req = Inr bytes \<longrightarrow>
        invoke md m req n = (case carry md m bytes n of (r, n') \<Rightarrow> (map_sum to_client id (bind_res r unmarshal), n')))"

end
