(* ===== verification/Wg.thy ===== *)
theory Wg
  imports Go_Netip "HOL-Library.Multiset"
begin

text \<open>
  Package \<^verbatim>\<open>internal/wg\<close>, data and peer diff (\<^verbatim>\<open>types.go\<close>, \<^verbatim>\<open>diff.go\<close>) and the key file
  (\<^verbatim>\<open>keys.go\<close>). A WireGuard key, an array of 32 bytes, is a 256-bit word. The key functions of
  \<^verbatim>\<open>wgtypes\<close> and the file system are parameters. The theory proves that the diff is the least
  change from the current to the desired peer set, and that comparing prefixes after sorting
  decides equality of the two multisets.
\<close>

section \<open>types.go\<close>

type_synonym Key = "256 word"

record UDPAddr =
  UDP_IP :: IP
  UDP_Port :: int
  UDP_Zone :: string

record Peer =
  Peer_Name :: string
  Peer_PublicKey :: Key
  Peer_Endpoint :: "UDPAddr option"
  Peer_AllowedIPs :: "Prefix list"
  Peer_PersistentKeepalive :: int

record UpOptions =
  Up_PrivateKey :: Key
  Up_ListenPort :: int
  Up_Address :: Prefix
  Up_MTU :: int

section \<open>diff.go\<close>

record Diff =
  Added :: "Peer list"
  Updated :: "Peer list"
  Removed :: "Key list"

definition Diff_Empty :: "Diff \<Rightarrow> bool" where
  "Diff_Empty d \<longleftrightarrow> length (Added d) = 0 \<and> length (Updated d) = 0 \<and> length (Removed d) = 0"

definition normalizeKeepalive :: "int \<Rightarrow> int" where
  "normalizeKeepalive d = (if d < 0 then 0 else d)"

fun udpAddrsEqual :: "UDPAddr option \<Rightarrow> UDPAddr option \<Rightarrow> bool" where
  "udpAddrsEqual None None = True"
| "udpAddrsEqual (Some a) (Some b) =
     (UDP_Port a = UDP_Port b \<and> IP_Equal (UDP_IP a) (UDP_IP b) \<and> UDP_Zone a = UDP_Zone b)"
| "udpAddrsEqual _ _ = False"

text \<open>
  \<^verbatim>\<open>sort.Slice\<close> by the printed form. The sort is stable here; the library's may order prefixes
  that print alike differently, which only invalid prefixes do.
\<close>

definition prefixSetsEqual :: "Prefix list \<Rightarrow> Prefix list \<Rightarrow> bool" where
  "prefixSetsEqual a b =
    (if length a \<noteq> length b then False
     else let x = sort_key Prefix_String a; y = sort_key Prefix_String b
          in list_all (\<lambda>i. x ! i = y ! i) [0 ..< length x])"

definition peersEqual :: "Peer \<Rightarrow> Peer \<Rightarrow> bool" where
  "peersEqual a b =
    (if Peer_PublicKey a \<noteq> Peer_PublicKey b then False
     else if \<not> udpAddrsEqual (Peer_Endpoint a) (Peer_Endpoint b) then False
     else if \<not> prefixSetsEqual (Peer_AllowedIPs a) (Peer_AllowedIPs b) then False
     else if normalizeKeepalive (Peer_PersistentKeepalive a) \<noteq> normalizeKeepalive (Peer_PersistentKeepalive b)
       then False
     else True)"

text \<open>
  The loop over the desired peers: the diff built so far and the keys seen.
\<close>

fun computeDiff_loop :: "(Key \<rightharpoonup> Peer) \<Rightarrow> Peer list \<Rightarrow> Diff \<Rightarrow> Key set \<Rightarrow> Diff \<times> Key set" where
  "computeDiff_loop current [] d seen = (d, seen)"
| "computeDiff_loop current (want # desired) d seen =
    (let seen = insert (Peer_PublicKey want) seen
     in case current (Peer_PublicKey want) of
          None \<Rightarrow> computeDiff_loop current desired (d\<lparr>Added := Added d @ [want]\<rparr>) seen
        | Some have' \<Rightarrow>
            if \<not> peersEqual have' want
            then computeDiff_loop current desired (d\<lparr>Updated := Updated d @ [want]\<rparr>) seen
            else computeDiff_loop current desired d seen)"

text \<open>
  Go visits the keys of a map in an order of its choice: \<open>iter\<close> is that order for
  \<open>current\<close>, an enumeration of its domain.
\<close>

definition computeDiff :: "Key list \<Rightarrow> (Key \<rightharpoonup> Peer) \<Rightarrow> Peer list \<Rightarrow> Diff" where
  "computeDiff iter current desired =
    (let (d, seen) = computeDiff_loop current desired \<lparr>Added = [], Updated = [], Removed = []\<rparr> {}
     in d\<lparr>Removed := Removed d @ filter (\<lambda>k. k \<notin> seen) iter\<rparr>)"

section \<open>keys.go\<close>

record Keypair =
  Private :: Key
  Public :: Key

definition is_trim_byte :: "char \<Rightarrow> bool" where
  "is_trim_byte c \<longleftrightarrow> c = CHR '' '' \<or> c = CHR 0x09 \<or> c = CHR 0x0A \<or> c = CHR 0x0D"

fun trim_front :: "string \<Rightarrow> string" where
  "trim_front [] = []"
| "trim_front (c # s) = (if is_trim_byte c then trim_front s else c # s)"

fun trim_back :: "string \<Rightarrow> string" where
  "trim_back s =
     (if length s > 0 then (if is_trim_byte (last s) then trim_back (butlast s) else s) else s)"

declare trim_back.simps [simp del]

definition trim :: "string \<Rightarrow> string" where
  "trim s = trim_back (trim_front s)"

definition parseKey :: "(string \<Rightarrow> Key option) \<Rightarrow> string \<Rightarrow> Key option" where
  "parseKey ParseKey s = ParseKey (trim s)"

datatype KeyError =
    ParsePrivateKey string
  | ReadPrivateKey string
  | GeneratePrivateKey
  | KeyMkdir string
  | WritePrivateKey string

text \<open>
  The outside world of \<open>LoadOrGenerate\<close>: file reads, directory creation, file writes, and the
  key functions of \<^verbatim>\<open>wgtypes\<close>. \<open>fs\<close> is the file system they act on.
\<close>

datatype ReadResult = ReadOK string | ReadNotExist | ReadError

record 'fs key_env =
  env_ReadFile :: "string \<Rightarrow> 'fs \<Rightarrow> ReadResult"
  env_Dir :: "string \<Rightarrow> string"
  env_MkdirAll :: "string \<Rightarrow> nat \<Rightarrow> 'fs \<Rightarrow> bool \<times> 'fs"
  env_WriteFile :: "string \<Rightarrow> string \<Rightarrow> nat \<Rightarrow> 'fs \<Rightarrow> bool \<times> 'fs"
  env_ParseKey :: "string \<Rightarrow> Key option"
  env_KeyString :: "Key \<Rightarrow> string"
  env_PublicKey :: "Key \<Rightarrow> Key"

definition GenerateKeypair :: "'fs key_env \<Rightarrow> Key option \<Rightarrow> KeyError + Keypair" where
  "GenerateKeypair env gen =
    (case gen of
       None \<Rightarrow> Inl GeneratePrivateKey
     | Some priv \<Rightarrow> Inr \<lparr>Private = priv, Public = env_PublicKey env priv\<rparr>)"

text \<open>\<open>gen\<close> is what \<^verbatim>\<open>wgtypes.GeneratePrivateKey\<close> returns when called; modes are 0700 and 0600.\<close>

definition LoadOrGenerate ::
    "'fs key_env \<Rightarrow> Key option \<Rightarrow> string \<Rightarrow> 'fs \<Rightarrow> (KeyError + Keypair) \<times> 'fs" where
  "LoadOrGenerate env gen path fs =
    (case env_ReadFile env path fs of
       ReadOK data \<Rightarrow>
         (case parseKey (env_ParseKey env) data of
            None \<Rightarrow> (Inl (ParsePrivateKey path), fs)
          | Some key \<Rightarrow> (Inr \<lparr>Private = key, Public = env_PublicKey env key\<rparr>, fs))
     | ReadError \<Rightarrow> (Inl (ReadPrivateKey path), fs)
     | ReadNotExist \<Rightarrow>
         (case GenerateKeypair env gen of
            Inl e \<Rightarrow> (Inl e, fs)
          | Inr kp \<Rightarrow>
              (let (ok1, fs1) = env_MkdirAll env (env_Dir env path) 448 fs
               in if \<not> ok1 then (Inl (KeyMkdir (env_Dir env path)), fs1)
                  else let (ok2, fs2) =
                         env_WriteFile env path (env_KeyString env (Private kp) @ [CHR 0x0A]) 384 fs1
                       in if \<not> ok2 then (Inl (WritePrivateKey path), fs2) else (Inr kp, fs2))))"

section \<open>Sorted comparison\<close>

lemma prefixSetsEqual_sorted:
  "prefixSetsEqual a b \<longleftrightarrow> sort_key Prefix_String a = sort_key Prefix_String b"
proof (cases "length a = length b")
  case True
  then show ?thesis unfolding prefixSetsEqual_def Let_def list_eq_iff_nth_eq list_all_iff by (simp add: Ball_def)
next
  case False
  then show ?thesis by (metis length_sort prefixSetsEqual_def)
qed

lemma sort_key_eq_if_inj:
  assumes "mset a = mset b" "inj_on f (set a)"
  shows "sort_key f a = sort_key f b"
proof (rule properties_for_sort_key [symmetric])
  show "mset (sort_key f a) = mset b" using assms(1) by simp
  show "sorted (map f (sort_key f a))" by (rule sorted_sort_key)
  fix k assume "k \<in> set (sort_key f a)"
  then have k: "k \<in> set a" by simp
  have rep: "filter (\<lambda>x. f k = f x) xs = replicate (count (mset xs) k) k" if "set xs = set a" for xs
  proof -
    have "filter (\<lambda>x. f k = f x) xs = filter (\<lambda>x. k = x) xs"
      using assms(2) k that by (intro filter_cong) (auto dest: inj_onD)
    moreover have "filter (\<lambda>x. k = x) xs = replicate (count (mset xs) k) k" by (induction xs) auto
    ultimately show ?thesis by simp
  qed
  show "filter (\<lambda>x. f k = f x) (sort_key f a) = filter (\<lambda>x. f k = f x) b"
    by (metis rep assms(1) mset_sort mset_eq_setD set_sort)
qed

lemma Prefix_String_inj4: "inj_on Prefix_String {p. ipv4_prefix p}"
proof (rule inj_onI)
  fix p q assume pq: "p \<in> {p. ipv4_prefix p}" "q \<in> {p. ipv4_prefix p}" and eq: "Prefix_String p = Prefix_String q"
  have "Some p = Some q" using pq eq by (metis ParsePrefix_String_ipv4 mem_Collect_eq)
  then show "p = q" by simp
qed

lemma prefixSetsEqual_sound: "prefixSetsEqual a b \<Longrightarrow> mset a = mset b"
  by (metis mset_sort prefixSetsEqual_sorted)

lemma prefixSetsEqual_iff:
  assumes "\<forall>p \<in> set a. ipv4_prefix p"
  shows "prefixSetsEqual a b \<longleftrightarrow> mset a = mset b"
proof
  assume "mset a = mset b"
  moreover have "inj_on Prefix_String (set a)"
    using assms by (intro inj_on_subset [OF Prefix_String_inj4]) auto
  ultimately show "prefixSetsEqual a b" by (simp add: prefixSetsEqual_sorted sort_key_eq_if_inj)
qed (rule prefixSetsEqual_sound)

section \<open>The diff\<close>

lemma peersEqual_iff:
  "peersEqual a b \<longleftrightarrow>
     Peer_PublicKey a = Peer_PublicKey b \<and> udpAddrsEqual (Peer_Endpoint a) (Peer_Endpoint b) \<and>
     prefixSetsEqual (Peer_AllowedIPs a) (Peer_AllowedIPs b) \<and>
     normalizeKeepalive (Peer_PersistentKeepalive a) = normalizeKeepalive (Peer_PersistentKeepalive b)"
  by (simp add: peersEqual_def)

lemma IP_Equal_refl [simp]: "IP_Equal ip ip"
  by (simp add: IP_Equal_def)

lemma udpAddrsEqual_refl [simp]: "udpAddrsEqual a a"
  by (cases a) auto

lemma prefixSetsEqual_refl [simp]: "prefixSetsEqual a a"
  by (simp add: prefixSetsEqual_sorted)

lemma peersEqual_refl [simp]: "peersEqual p p"
  by (simp add: peersEqual_iff)

lemma IP_Equal_sym: "IP_Equal a b \<Longrightarrow> IP_Equal b a"
  by (auto simp: IP_Equal_def split: if_splits)

lemma peersEqual_sym: "peersEqual a b \<Longrightarrow> peersEqual b a"
  by (cases "Peer_Endpoint a"; cases "Peer_Endpoint b")
    (auto simp: peersEqual_iff prefixSetsEqual_sorted intro: IP_Equal_sym)

text \<open>What the loop adds to the diff, in declaration order.\<close>

definition is_new :: "(Key \<rightharpoonup> Peer) \<Rightarrow> Peer \<Rightarrow> bool" where
  "is_new current p \<longleftrightarrow> current (Peer_PublicKey p) = None"

definition is_changed :: "(Key \<rightharpoonup> Peer) \<Rightarrow> Peer \<Rightarrow> bool" where
  "is_changed current p \<longleftrightarrow> (\<exists>q. current (Peer_PublicKey p) = Some q \<and> \<not> peersEqual q p)"

lemma computeDiff_loop_eq:
  "computeDiff_loop current desired d seen =
     (d\<lparr>Added := Added d @ filter (is_new current) desired,
        Updated := Updated d @ filter (is_changed current) desired\<rparr>,
      seen \<union> Peer_PublicKey ` set desired)"
  by (induction current desired d seen rule: computeDiff_loop.induct)
    (auto simp: Let_def is_new_def is_changed_def split: option.splits)

lemma computeDiff_eq:
  "computeDiff iter current desired =
     \<lparr>Added = filter (is_new current) desired,
      Updated = filter (is_changed current) desired,
      Removed = filter (\<lambda>k. k \<notin> Peer_PublicKey ` set desired) iter\<rparr>"
  by (simp add: computeDiff_def computeDiff_loop_eq)

lemma filter_Nil_iff: "length (filter P xs) = 0 \<longleftrightarrow> (\<forall>x \<in> set xs. \<not> P x)"
  by (auto simp: filter_empty_conv)

lemma Diff_Empty_iff:
  assumes "set iter = dom current"
  shows "Diff_Empty (computeDiff iter current desired) \<longleftrightarrow>
    dom current = Peer_PublicKey ` set desired \<and>
    (\<forall>p \<in> set desired. \<exists>q. current (Peer_PublicKey p) = Some q \<and> peersEqual q p)"
  unfolding Diff_Empty_def computeDiff_eq is_new_def is_changed_def Diff.simps filter_Nil_iff
  using assms by fastforce

text \<open>The peer table after a diff is carried out: keys removed, peers added and replaced.\<close>

definition put_peers :: "Peer list \<Rightarrow> (Key \<rightharpoonup> Peer) \<Rightarrow> (Key \<rightharpoonup> Peer)" where
  "put_peers ps m = m ++ map_of (map (\<lambda>p. (Peer_PublicKey p, p)) (rev ps))"

definition carry_out :: "Diff \<Rightarrow> (Key \<rightharpoonup> Peer) \<Rightarrow> (Key \<rightharpoonup> Peer)" where
  "carry_out d m = (put_peers (Updated d) (put_peers (Added d) m)) |` (- set (Removed d))"

lemma map_of_peers:
  assumes "distinct (map Peer_PublicKey ps)"
  shows "map_of (map (\<lambda>p. (Peer_PublicKey p, p)) (rev ps)) k = Some p \<longleftrightarrow> p \<in> set ps \<and> Peer_PublicKey p = k"
proof -
  have "distinct (map fst (map (\<lambda>p. (Peer_PublicKey p, p)) (rev ps)))"
    using assms by (simp add: comp_def flip: rev_map)
  then show ?thesis by (auto simp: map_of_eq_Some_iff)
qed

lemma put_peers_Some:
  assumes "distinct (map Peer_PublicKey ps)"
  shows "put_peers ps m k = Some p \<longleftrightarrow>
    (p \<in> set ps \<and> Peer_PublicKey p = k) \<or> (k \<notin> Peer_PublicKey ` set ps \<and> m k = Some p)"
proof -
  have none: "map_of (map (\<lambda>p. (Peer_PublicKey p, p)) (rev ps)) k = None \<longleftrightarrow> k \<notin> Peer_PublicKey ` set ps"
    by (simp add: map_of_eq_None_iff image_image)
  show ?thesis
    unfolding put_peers_def map_add_Some_iff map_of_peers [OF assms] none by blast
qed

lemma distinct_keys_filter: "distinct (map Peer_PublicKey ps) \<Longrightarrow> distinct (map Peer_PublicKey (filter P ps))"
  by (rule distinct_map_filter)

lemma put_peers_other: "k \<notin> Peer_PublicKey ` set ps \<Longrightarrow> put_peers ps m k = m k"
  unfolding put_peers_def by (rule map_add_dom_app_simps(3)) (auto dest!: map_of_SomeD)

lemma put_peers_filter:
  assumes "distinct (map Peer_PublicKey ps)" "p \<in> set ps"
  shows "put_peers (filter P ps) m (Peer_PublicKey p) = (if P p then Some p else m (Peer_PublicKey p))"
proof (cases "P p")
  case True
  then show ?thesis using assms put_peers_Some [OF distinct_keys_filter [OF assms(1)]] by simp
next
  case False
  have "Peer_PublicKey p \<notin> Peer_PublicKey ` set (filter P ps)"
    using assms False by (auto simp: distinct_map dest: inj_onD)
  with False show ?thesis by (simp add: put_peers_other)
qed

lemma carry_out_computeDiff:
  assumes keys: "distinct (map Peer_PublicKey desired)" and iter: "set iter = dom current"
  shows "carry_out (computeDiff iter current desired) current k = Some q \<longleftrightarrow>
    (\<exists>p \<in> set desired. Peer_PublicKey p = k \<and>
       q = (case current k of Some c \<Rightarrow> if peersEqual c p then c else p | None \<Rightarrow> p))"
proof (cases "k \<in> Peer_PublicKey ` set desired")
  case True
  then obtain p where p: "p \<in> set desired" "k = Peer_PublicKey p" by auto
  have uniq: "p' \<in> set desired \<and> Peer_PublicKey p' = k \<longleftrightarrow> p' = p" for p'
    using keys p by (auto simp: distinct_map dest: inj_onD)
  have "carry_out (computeDiff iter current desired) current k =
      (if is_changed current p then Some p else if is_new current p then Some p else current k)"
    unfolding carry_out_def computeDiff_eq Diff.simps p(2) restrict_map_def
      put_peers_filter [OF keys p(1)]
    using p(1) by auto
  also have "\<dots> = Some (case current k of Some c \<Rightarrow> if peersEqual c p then c else p | None \<Rightarrow> p)"
    by (auto simp: is_new_def is_changed_def p(2) split: option.splits)
  finally have eq: "carry_out (computeDiff iter current desired) current k =
      Some (case current k of Some c \<Rightarrow> if peersEqual c p then c else p | None \<Rightarrow> p)" .
  have "(\<exists>p' \<in> set desired. Peer_PublicKey p' = k \<and> Q p') \<longleftrightarrow> Q p" for Q
    unfolding Bex_def conj_assoc [symmetric] uniq by simp
  then show ?thesis unfolding eq by auto
next
  case False
  then have "put_peers (filter P desired) m k = m k" for P m
    by (intro put_peers_other) auto
  moreover have "current k \<noteq> None \<Longrightarrow> k \<in> set iter" using iter by auto
  ultimately show ?thesis
    using False by (auto simp: carry_out_def computeDiff_eq restrict_map_def)
qed

section \<open>The key file\<close>

lemma trim_front_split: "\<exists>a. s = a @ trim_front s \<and> list_all is_trim_byte a"
proof (induction s)
  case (Cons c s)
  then obtain a where "s = a @ trim_front s" "list_all is_trim_byte a" by blast
  then show ?case by (cases "is_trim_byte c") (auto intro: exI [of _ "c # a"] exI [of _ "[]"])
qed simp

lemma trim_front_hd: "trim_front s \<noteq> [] \<Longrightarrow> \<not> is_trim_byte (hd (trim_front s))"
  by (induction s) auto

lemma trim_back_split: "\<exists>b. s = trim_back s @ b \<and> list_all is_trim_byte b"
proof (induction s rule: trim_back.induct)
  case (1 s)
  show ?case
  proof (cases "s \<noteq> [] \<and> is_trim_byte (last s)")
    case True
    with 1 obtain b where "butlast s = trim_back (butlast s) @ b" "list_all is_trim_byte b" by auto
    with True have "s = trim_back s @ (b @ [last s])" "list_all is_trim_byte (b @ [last s])"
      by (simp_all add: trim_back.simps [of s]) (metis append.assoc append_butlast_last_id)
    then show ?thesis by blast
  next
    case False
    then show ?thesis by (auto simp: trim_back.simps [of s])
  qed
qed

lemma trim_back_last: "trim_back s \<noteq> [] \<Longrightarrow> \<not> is_trim_byte (last (trim_back s))"
  by (induction s rule: trim_back.induct) (metis length_greater_0_conv trim_back.simps)

lemma trim_back_id: "s = [] \<or> \<not> is_trim_byte (last s) \<Longrightarrow> trim_back s = s"
  by (auto simp: trim_back.simps [of s])

lemma trim_back_snoc: "is_trim_byte c \<Longrightarrow> trim_back (s @ [c]) = trim_back s"
  by (simp add: trim_back.simps [of "s @ [c]"])

lemma trim_newline:
  assumes "s \<noteq> []" "\<not> is_trim_byte (hd s)" "\<not> is_trim_byte (last s)"
  shows "trim (s @ [CHR 0x0A]) = s"
proof -
  have "trim_front (s @ [CHR 0x0A]) = s @ [CHR 0x0A]" using assms by (cases s) auto
  then show ?thesis using assms by (simp add: trim_def trim_back_snoc trim_back_id is_trim_byte_def)
qed

lemma trim_split:
  "\<exists>a b. s = a @ trim s @ b \<and> list_all is_trim_byte a \<and> list_all is_trim_byte b"
  using trim_front_split [of s] trim_back_split [of "trim_front s"] unfolding trim_def by metis

lemma trim_ends:
  assumes "trim s \<noteq> []"
  shows "\<not> is_trim_byte (hd (trim s)) \<and> \<not> is_trim_byte (last (trim s))"
proof -
  obtain b where b: "trim_front s = trim s @ b" using trim_back_split [of "trim_front s"] trim_def by auto
  then have "hd (trim s) = hd (trim_front s)" "trim_front s \<noteq> []" using assms by simp_all
  then show ?thesis using trim_front_hd [of s] trim_back_last [of "trim_front s"] assms by (simp add: trim_def)
qed

text \<open>
  What the key file relies on: a written file reads back, and the printed form of a key is
  not empty, does not begin or end with white space and parses to the key.
\<close>

definition key_env_ok :: "'fs key_env \<Rightarrow> bool" where
  "key_env_ok env \<longleftrightarrow>
     (\<forall>path data mode fs fs'. env_WriteFile env path data mode fs = (True, fs') \<longrightarrow>
        env_ReadFile env path fs' = ReadOK data) \<and>
     (\<forall>k. env_KeyString env k \<noteq> [] \<and> \<not> is_trim_byte (hd (env_KeyString env k)) \<and>
        \<not> is_trim_byte (last (env_KeyString env k)) \<and> env_ParseKey env (env_KeyString env k) = Some k)"

lemma LoadOrGenerate_Inr:
  assumes "LoadOrGenerate env gen path fs = (Inr kp, fs')"
  shows "(\<exists>data. env_ReadFile env path fs = ReadOK data \<and> parseKey (env_ParseKey env) data = Some (Private kp) \<and> fs' = fs) \<or>
    (\<exists>fs1. env_ReadFile env path fs = ReadNotExist \<and> gen = Some (Private kp) \<and>
       env_WriteFile env path (env_KeyString env (Private kp) @ [CHR 0x0A]) 384 fs1 = (True, fs'))"
    and "Public kp = env_PublicKey env (Private kp)"
  using assms
  by (auto simp: LoadOrGenerate_def GenerateKeypair_def Let_def
      split: ReadResult.splits option.splits sum.splits prod.splits if_splits)

text \<open>
  C36. The identity of an agent is stable: once \<open>LoadOrGenerate\<close> has returned a key pair,
  whether read or freshly written, every later call on the same file returns the same pair,
  whatever the generator would give, and leaves the file system alone.
\<close>

theorem LoadOrGenerate_stable:
  assumes "key_env_ok env" "LoadOrGenerate env gen path fs = (Inr kp, fs')"
  shows "LoadOrGenerate env gen' path fs' = (Inr kp, fs')"
proof -
  have kp: "\<lparr>Private = Private kp, Public = env_PublicKey env (Private kp)\<rparr> = kp"
    using LoadOrGenerate_Inr(2) [OF assms(2)] by simp
  have "\<exists>data. env_ReadFile env path fs' = ReadOK data \<and> parseKey (env_ParseKey env) data = Some (Private kp)"
    using LoadOrGenerate_Inr(1) [OF assms(2)]
  proof (elim disjE exE conjE)
    fix fs1 assume "env_WriteFile env path (env_KeyString env (Private kp) @ [CHR 0x0A]) 384 fs1 = (True, fs')"
    then have "env_ReadFile env path fs' = ReadOK (env_KeyString env (Private kp) @ [CHR 0x0A])"
      using assms(1) unfolding key_env_ok_def by blast
    then show ?thesis using assms(1) by (auto simp: key_env_ok_def parseKey_def trim_newline)
  qed auto
  then show ?thesis by (auto simp: LoadOrGenerate_def kp)
qed

definition example_key_env :: "(string \<rightharpoonup> string) key_env" where
  "example_key_env =
     \<lparr>env_ReadFile = (\<lambda>path fs. case fs path of None \<Rightarrow> ReadNotExist | Some d \<Rightarrow> ReadOK d),
      env_Dir = (\<lambda>path. ''.''),
      env_MkdirAll = (\<lambda>dir mode fs. (True, fs)),
      env_WriteFile = (\<lambda>path d mode fs. (True, fs(path \<mapsto> d))),
      env_ParseKey = (\<lambda>s. if s \<noteq> [] \<and> list_all is_digit s then Some (word_of_nat (dec_val s)) else None),
      env_KeyString = (\<lambda>k. dec (unat k)),
      env_PublicKey = (\<lambda>k. k + 1)\<rparr>"

lemma digit_not_trim: "is_digit c \<Longrightarrow> \<not> is_trim_byte c"
  by (auto simp: is_digit_def is_trim_byte_def)

lemma dec_ends: "\<not> is_trim_byte (hd (dec n))" "\<not> is_trim_byte (last (dec n))"
  using dec_digits [of n] dec_nonempty [of n] by (auto simp: list_all_iff intro!: digit_not_trim)

lemma example_key_env_ok: "key_env_ok example_key_env"
  by (auto simp: key_env_ok_def example_key_env_def dec_digits dec_ends)

theorem LoadOrGenerate_stable_witness:
  "LoadOrGenerate example_key_env None ''key'' [''key'' \<mapsto> dec 7 @ [CHR 0x0A]] =
     (Inr \<lparr>Private = 7, Public = 8\<rparr>, [''key'' \<mapsto> dec 7 @ [CHR 0x0A]])"
proof -
  have "LoadOrGenerate example_key_env (Some 7) ''key'' Map.empty =
      (Inr \<lparr>Private = 7, Public = 8\<rparr>, [''key'' \<mapsto> dec 7 @ [CHR 0x0A]])"
    by (simp add: LoadOrGenerate_def GenerateKeypair_def example_key_env_def)
  then show ?thesis by (rule LoadOrGenerate_stable [OF example_key_env_ok])
qed

section \<open>What the diff promises\<close>

text \<open>
  C16. \<open>computeDiff\<close> is the least change to the desired peer set: for desired peers with
  distinct keys, carrying the diff out leaves exactly the desired keys; a peer that was equal
  in configuration keeps its current entry, every other one becomes the desired one. Added
  peers were absent, updated ones present with another configuration, removed keys present
  and not desired.
\<close>

theorem computeDiff_least:
  assumes "distinct (map Peer_PublicKey desired)" and "set iter = dom current"
  shows "(carry_out (computeDiff iter current desired) current k = Some q \<longleftrightarrow>
      (\<exists>p \<in> set desired. Peer_PublicKey p = k \<and>
         q = (case current k of Some c \<Rightarrow> if peersEqual c p then c else p | None \<Rightarrow> p))) \<and>
    set (Added (computeDiff iter current desired)) =
      {p \<in> set desired. Peer_PublicKey p \<notin> dom current} \<and>
    set (Updated (computeDiff iter current desired)) =
      {p \<in> set desired. \<exists>c. current (Peer_PublicKey p) = Some c \<and> \<not> peersEqual c p} \<and>
    set (Removed (computeDiff iter current desired)) = dom current - Peer_PublicKey ` set desired"
  unfolding carry_out_computeDiff [OF assms]
  using assms(2) by (auto simp: computeDiff_eq is_new_def is_changed_def)

theorem computeDiff_least_witness:
  "set (Removed (computeDiff [1] [1 \<mapsto> \<lparr>Peer_Name = [], Peer_PublicKey = 1, Peer_Endpoint = None,
     Peer_AllowedIPs = [], Peer_PersistentKeepalive = 0\<rparr>] [])) = {1}"
  using computeDiff_least [of "[]" "[1]" "[1 \<mapsto> \<lparr>Peer_Name = [], Peer_PublicKey = 1, Peer_Endpoint = None,
     Peer_AllowedIPs = [], Peer_PersistentKeepalive = 0\<rparr>]"] by simp

text \<open>
  The diff is empty exactly when the device already has the desired keys, each with a
  configuration equal to the desired one, so a reconcile that finds nothing to do is a
  reconcile of a device that is as desired.
\<close>

theorem computeDiff_Empty_iff:
  assumes "set iter = dom current"
  shows "Diff_Empty (computeDiff iter current desired) \<longleftrightarrow>
    dom current = Peer_PublicKey ` set desired \<and>
    (\<forall>p \<in> set desired. \<exists>q. current (Peer_PublicKey p) = Some q \<and> peersEqual q p)"
  by (rule Diff_Empty_iff [OF assms])

theorem computeDiff_Empty_iff_witness: "Diff_Empty (computeDiff [] Map.empty [])"
  using computeDiff_Empty_iff [of "[]" Map.empty "[]"] by simp

text \<open>
  Comparing allowed IPs after sorting them by their printed form decides equality of the
  two multisets: no order matters and no prefix is missed.
\<close>

theorem prefixSetsEqual_multiset:
  assumes "\<forall>p \<in> set a. ipv4_prefix p"
  shows "prefixSetsEqual a b \<longleftrightarrow> mset a = mset b"
  by (rule prefixSetsEqual_iff [OF assms])

theorem prefixSetsEqual_multiset_witness:
  "prefixSetsEqual [Prefix (Addr4 1) 33, Prefix (Addr4 2) 25] [Prefix (Addr4 2) 25, Prefix (Addr4 1) 33]"
  using prefixSetsEqual_multiset [of "[Prefix (Addr4 1) 33, Prefix (Addr4 2) 25]" "[Prefix (Addr4 2) 25, Prefix (Addr4 1) 33]"]
  by (simp add: ipv4_prefix_def)

end
