(* ===== verification/Topology.thy ===== *)
theory Topology
  imports Example_Network Wg Api
begin

text \<open>
  Package \<^verbatim>\<open>internal/topology\<close>: the identity of the local node and the WireGuard peers it should
  install. \<^verbatim>\<open>wgtypes.ParseKey\<close> and DNS are parameters. The theory proves that on an accepted
  document the peers of a hub have pairwise disjoint allowed IPs and that packets travel from
  any node to any other through the hubs, every hop accepting the source, and that the answer of
  the server decides keys and endpoints only.
\<close>

record Self =
  Self_Name :: string
  Self_Role :: Role
  Self_TunnelIP :: Addr
  Self_HubName :: string

datatype ResolveError = BadHostPort | BadPort | LookupFailed | NoIPs

datatype TopologyError =
    HubTunnelIP string
  | AgentTunnelIP string
  | NotDeclared string
  | OverlayCIDR
  | UnsupportedRole Role
  | HubNotRegistered string
  | HubPublicKey string
  | HubEndpoint string ResolveError
  | HubNoEndpoint string
  | SpokePublicKey string
  | ParseAddress string

definition FindSelf :: "Document \<Rightarrow> string \<Rightarrow> TopologyError + Self" where
  "FindSelf doc name =
    (case FindHub doc name of
       Some h \<Rightarrow>
         (case ParseAddr (Hub_TunnelIP h) of
            None \<Rightarrow> Inl (HubTunnelIP name)
          | Some addr \<Rightarrow> Inr \<lparr>Self_Name = name, Self_Role = ROLE_HUB, Self_TunnelIP = addr, Self_HubName = []\<rparr>)
     | None \<Rightarrow>
         (case FindAgent doc name of
            Some a \<Rightarrow>
              (case ParseAddr (Agent_TunnelIP a) of
                 None \<Rightarrow> Inl (AgentTunnelIP name)
               | Some addr \<Rightarrow> Inr \<lparr>Self_Name = name, Self_Role = ROLE_SPOKE, Self_TunnelIP = addr,
                                 Self_HubName = Agent_Hub a\<rparr>)
          | None \<Rightarrow> Inl (NotDeclared name)))"

definition singleHostPrefix :: "string \<Rightarrow> TopologyError + Prefix" where
  "singleHostPrefix addr =
    (case ParseAddr addr of
       None \<Rightarrow> Inl (ParseAddress addr)
     | Some a \<Rightarrow> Inr (PrefixFrom a (int (BitLen a))))"

text \<open>\<open>LookupIP\<close> is the resolver; \<open>None\<close> is its error.\<close>

definition resolveEndpoint :: "(string \<Rightarrow> IP list option) \<Rightarrow> string \<Rightarrow> ResolveError + UDPAddr option" where
  "resolveEndpoint LookupIP ep =
    (if ep = [] then Inr None
     else case SplitHostPort ep of
            None \<Rightarrow> Inl BadHostPort
          | Some (host, portStr) \<Rightarrow>
              (case Atoi portStr of
                 None \<Rightarrow> Inl BadPort
               | Some port \<Rightarrow>
                   (case ParseIP host of
                      Some ip \<Rightarrow> Inr (Some \<lparr>UDP_IP = ip, UDP_Port = port, UDP_Zone = []\<rparr>)
                    | None \<Rightarrow>
                        (case LookupIP host of
                           None \<Rightarrow> Inl LookupFailed
                         | Some ips \<Rightarrow>
                             if length ips = 0 then Inl NoIPs
                             else Inr (Some \<lparr>UDP_IP = ips ! 0, UDP_Port = port, UDP_Zone = []\<rparr>)))))"

text \<open>\<open>hubMeshAllowedIPs\<close>: the loop stops at the first address that does not parse.\<close>

definition hubMeshAllowedIPs :: "Document \<Rightarrow> Hub \<Rightarrow> TopologyError + Prefix list" where
  "hubMeshAllowedIPs doc other =
     bind_res (singleHostPrefix (Hub_TunnelIP other)) (\<lambda>otherIP.
     bind_res (traverse (\<lambda>s. singleHostPrefix (Agent_TunnelIP s)) (AgentsForHub doc (Hub_Name other))) (\<lambda>ps.
     Inr (otherIP # ps)))"

definition spokePeers ::
    "(string \<Rightarrow> Key option) \<Rightarrow> (string \<Rightarrow> IP list option) \<Rightarrow> Self \<Rightarrow> (string \<rightharpoonup> PeerInfo) \<Rightarrow> Prefix \<Rightarrow> int
     \<Rightarrow> TopologyError + Peer list" where
  "spokePeers ParseKey LookupIP self byName overlay keepalive =
    (case byName (Self_HubName self) of
       None \<Rightarrow> Inl (HubNotRegistered (Self_HubName self))
     | Some hub \<Rightarrow>
         (case ParseKey (Info_PublicKey hub) of
            None \<Rightarrow> Inl (HubPublicKey (Self_HubName self))
          | Some pub \<Rightarrow>
              (case resolveEndpoint LookupIP (Info_Endpoint hub) of
                 Inl e \<Rightarrow> Inl (HubEndpoint (Info_Endpoint hub) e)
               | Inr None \<Rightarrow> Inl (HubNoEndpoint (Self_HubName self))
               | Inr (Some endpoint) \<Rightarrow>
                   Inr [\<lparr>Peer_Name = Info_Name hub, Peer_PublicKey = pub, Peer_Endpoint = Some endpoint,
                         Peer_AllowedIPs = [overlay], Peer_PersistentKeepalive = keepalive\<rparr>])))"

text \<open>The first loop of \<open>hubPeers\<close>, over the other hubs of the mesh.\<close>

fun meshPeers ::
    "(string \<Rightarrow> Key option) \<Rightarrow> (string \<Rightarrow> IP list option) \<Rightarrow> Document \<Rightarrow> Self \<Rightarrow> (string \<rightharpoonup> PeerInfo) \<Rightarrow> int
     \<Rightarrow> Hub list \<Rightarrow> Peer list \<Rightarrow> TopologyError + Peer list" where
  "meshPeers ParseKey LookupIP doc self byName keepalive [] peers = Inr peers"
| "meshPeers ParseKey LookupIP doc self byName keepalive (h # hs) peers =
    (if Hub_Name h = Self_Name self then meshPeers ParseKey LookupIP doc self byName keepalive hs peers
     else case byName (Hub_Name h) of
            None \<Rightarrow> meshPeers ParseKey LookupIP doc self byName keepalive hs peers
          | Some info \<Rightarrow>
              (case ParseKey (Info_PublicKey info) of
                 None \<Rightarrow> Inl (HubPublicKey (Hub_Name h))
               | Some pub \<Rightarrow>
                   (case resolveEndpoint LookupIP (Info_Endpoint info) of
                      Inl e \<Rightarrow> Inl (HubEndpoint (Hub_Name h) e)
                    | Inr None \<Rightarrow> Inl (HubNoEndpoint (Hub_Name h))
                    | Inr (Some endpoint) \<Rightarrow>
                        bind_res (hubMeshAllowedIPs doc h) (\<lambda>allowed.
                        meshPeers ParseKey LookupIP doc self byName keepalive hs
                          (peers @ [\<lparr>Peer_Name = Hub_Name h, Peer_PublicKey = pub, Peer_Endpoint = Some endpoint,
                                     Peer_AllowedIPs = allowed, Peer_PersistentKeepalive = keepalive\<rparr>])))))"

text \<open>The second loop, over the spokes anchored here.\<close>

fun anchoredPeers ::
    "(string \<Rightarrow> Key option) \<Rightarrow> (string \<rightharpoonup> PeerInfo) \<Rightarrow> Agent list \<Rightarrow> Peer list \<Rightarrow> TopologyError + Peer list" where
  "anchoredPeers ParseKey byName [] peers = Inr peers"
| "anchoredPeers ParseKey byName (a # as) peers =
    (case byName (Agent_Name a) of
       None \<Rightarrow> anchoredPeers ParseKey byName as peers
     | Some info \<Rightarrow>
         (case ParseKey (Info_PublicKey info) of
            None \<Rightarrow> Inl (SpokePublicKey (Agent_Name a))
          | Some pub \<Rightarrow>
              bind_res (singleHostPrefix (Agent_TunnelIP a)) (\<lambda>spokeIP.
              anchoredPeers ParseKey byName as
                (peers @ [\<lparr>Peer_Name = Agent_Name a, Peer_PublicKey = pub, Peer_Endpoint = None,
                           Peer_AllowedIPs = [spokeIP], Peer_PersistentKeepalive = 0\<rparr>]))))"

definition hubPeers ::
    "(string \<Rightarrow> Key option) \<Rightarrow> (string \<Rightarrow> IP list option) \<Rightarrow> Document \<Rightarrow> Self \<Rightarrow> (string \<rightharpoonup> PeerInfo) \<Rightarrow> int
     \<Rightarrow> TopologyError + Peer list" where
  "hubPeers ParseKey LookupIP doc self byName keepalive =
     bind_res (meshPeers ParseKey LookupIP doc self byName keepalive (Hubs (Document_Spec doc)) []) (\<lambda>peers.
     anchoredPeers ParseKey byName (AgentsForHub doc (Self_Name self)) peers)"

text \<open>The registry by name; a later entry of a name replaces an earlier one.\<close>

fun index_registry :: "PeerInfo option list \<Rightarrow> (string \<rightharpoonup> PeerInfo) \<Rightarrow> (string \<rightharpoonup> PeerInfo)" where
  "index_registry [] byName = byName"
| "index_registry (None # ps) byName = index_registry ps byName"
| "index_registry (Some p # ps) byName =
     (if Info_Name p = [] \<or> Info_PublicKey p = [] then index_registry ps byName
      else index_registry ps (byName(Info_Name p \<mapsto> p)))"

definition PeersFor ::
    "(string \<Rightarrow> Key option) \<Rightarrow> (string \<Rightarrow> IP list option) \<Rightarrow> Document \<Rightarrow> Self \<Rightarrow> PeerInfo option list \<Rightarrow> int
     \<Rightarrow> TopologyError + Peer list" where
  "PeersFor ParseKey LookupIP doc self registry keepalive =
    (case ParsePrefix (CIDR (Document_Spec doc)) of
       None \<Rightarrow> Inl OverlayCIDR
     | Some overlay \<Rightarrow>
         (let byName = index_registry registry Map.empty
          in case Self_Role self of
               ROLE_SPOKE \<Rightarrow> spokePeers ParseKey LookupIP self byName overlay keepalive
             | ROLE_HUB \<Rightarrow> hubPeers ParseKey LookupIP doc self byName keepalive
             | r \<Rightarrow> Inl (UnsupportedRole r)))"

section \<open>Allowed IPs\<close>

definition covers :: "Peer \<Rightarrow> Addr \<Rightarrow> bool" where
  "covers p a \<longleftrightarrow> list_ex (\<lambda>pfx. Contains pfx a) (Peer_AllowedIPs p)"

text \<open>The addresses reached through a hub: its own and those of the spokes anchored to it.\<close>

definition behind :: "Document \<Rightarrow> Hub \<Rightarrow> Addr \<Rightarrow> bool" where
  "behind d h x \<longleftrightarrow>
     ParseAddr (Hub_TunnelIP h) = Some x \<or>
     (\<exists>s \<in> set (AgentsForHub d (Hub_Name h)). ParseAddr (Agent_TunnelIP s) = Some x)"

lemma singleHostPrefix_ok: "ParseAddr ip = Some a \<Longrightarrow> singleHostPrefix ip = Inr (host_prefix a)"
  by (simp add: singleHostPrefix_def host_prefix_def)

lemma host_prefix_contains:
  assumes "ParseAddr ip = Some a" "Zone a = []"
  shows "Contains (host_prefix a) x \<longleftrightarrow> x = a"
  using Contains_host_iff [OF assms(2)] assms(1) ParseAddr_nonzero by metis

lemma hubMeshAllowedIPs_ok:
  assumes wf: "wf_Document d" and h: "h \<in> set (Hubs (Document_Spec d))"
  shows "\<exists>allowed. hubMeshAllowedIPs d h = Inr allowed \<and>
    (\<forall>x. list_ex (\<lambda>pfx. Contains pfx x) allowed \<longleftrightarrow> behind d h x)"
proof -
  let ?as = "AgentsForHub d (Hub_Name h)"
  obtain ha where ha: "ParseAddr (Hub_TunnelIP h) = Some ha" "Zone ha = []"
    using wf_hub_addr [OF wf h] by blast
  have as: "\<exists>x. ParseAddr (Agent_TunnelIP s) = Some x \<and> Zone x = []" if "s \<in> set ?as" for s
    using that wf_agent_addr [OF wf] by (simp add: AgentsForHub_set)
  define f where "f = (\<lambda>s :: Agent. host_prefix (the (ParseAddr (Agent_TunnelIP s))))"
  have tr: "traverse (\<lambda>s. singleHostPrefix (Agent_TunnelIP s)) ?as = Inr (map f ?as)"
    by (rule traverse_map) (use as singleHostPrefix_ok in \<open>fastforce simp: f_def\<close>)
  have c: "Contains (f s) x \<longleftrightarrow> ParseAddr (Agent_TunnelIP s) = Some x" if "s \<in> set ?as" for s x
    using as [OF that] host_prefix_contains by (fastforce simp: f_def)
  have "hubMeshAllowedIPs d h = Inr (host_prefix ha # map f ?as)"
    by (simp add: hubMeshAllowedIPs_def singleHostPrefix_ok [OF ha(1)] tr)
  moreover have "list_ex (\<lambda>pfx. Contains pfx x) (host_prefix ha # map f ?as) \<longleftrightarrow> behind d h x" for x
    using c by (auto simp: behind_def list_ex_iff host_prefix_contains [OF ha] ha)
  ultimately show ?thesis by blast
qed

text \<open>On an accepted document an address is behind one hub only.\<close>

lemma behind_unique:
  assumes wf: "wf_Document d" and hk: "h \<in> set (Hubs (Document_Spec d))" "k \<in> set (Hubs (Document_Spec d))"
    and x: "behind d h x" "behind d k x"
  shows "h = k"
proof -
  have inj: "Hub_Name h = Hub_Name k \<Longrightarrow> h = k"
    using wf_distinct_names(1) [OF wf] hk by (auto simp: distinct_map dest: inj_onD)
  show ?thesis
    using x wf_addr_inj [OF wf] hk inj unfolding behind_def AgentsForHub_set
    by (smt (verit) inj_onD mem_Collect_eq)
qed

section \<open>The peers of a hub\<close>

text \<open>The entries the two loops add, as functions of the declaration.\<close>

definition mesh_peer ::
    "(string \<Rightarrow> Key option) \<Rightarrow> (string \<Rightarrow> IP list option) \<Rightarrow> Document \<Rightarrow> (string \<rightharpoonup> PeerInfo) \<Rightarrow> int \<Rightarrow> Hub \<Rightarrow> Peer" where
  "mesh_peer pk dns d byName ka h =
     (let info = the (byName (Hub_Name h))
      in \<lparr>Peer_Name = Hub_Name h, Peer_PublicKey = the (pk (Info_PublicKey info)),
          Peer_Endpoint = (case resolveEndpoint dns (Info_Endpoint info) of Inl _ \<Rightarrow> None | Inr ep \<Rightarrow> ep),
          Peer_AllowedIPs = (case hubMeshAllowedIPs d h of Inl _ \<Rightarrow> [] | Inr ps \<Rightarrow> ps),
          Peer_PersistentKeepalive = ka\<rparr>)"

definition spoke_peer :: "(string \<Rightarrow> Key option) \<Rightarrow> (string \<rightharpoonup> PeerInfo) \<Rightarrow> Agent \<Rightarrow> Peer" where
  "spoke_peer pk byName a =
     \<lparr>Peer_Name = Agent_Name a, Peer_PublicKey = the (pk (Info_PublicKey (the (byName (Agent_Name a))))),
      Peer_Endpoint = None,
      Peer_AllowedIPs = (case singleHostPrefix (Agent_TunnelIP a) of Inl _ \<Rightarrow> [] | Inr p \<Rightarrow> [p]),
      Peer_PersistentKeepalive = 0\<rparr>"

definition mesh_ok :: "(string \<Rightarrow> Key option) \<Rightarrow> (string \<Rightarrow> IP list option) \<Rightarrow> PeerInfo \<Rightarrow> bool" where
  "mesh_ok pk dns info \<longleftrightarrow> pk (Info_PublicKey info) \<noteq> None \<and>
     (\<exists>ep. resolveEndpoint dns (Info_Endpoint info) = Inr (Some ep))"

abbreviation mesh_hubs :: "Self \<Rightarrow> (string \<rightharpoonup> PeerInfo) \<Rightarrow> Hub list \<Rightarrow> Hub list" where
  "mesh_hubs self byName hs \<equiv> filter (\<lambda>h. Hub_Name h \<noteq> Self_Name self \<and> byName (Hub_Name h) \<noteq> None) hs"

abbreviation known_agents :: "(string \<rightharpoonup> PeerInfo) \<Rightarrow> Agent list \<Rightarrow> Agent list" where
  "known_agents byName as \<equiv> filter (\<lambda>a. byName (Agent_Name a) \<noteq> None) as"

lemma meshPeers_eq:
  "meshPeers pk dns d self byName ka hs peers = Inr ps \<Longrightarrow>
     ps = peers @ map (mesh_peer pk dns d byName ka) (mesh_hubs self byName hs)"
proof (induction hs arbitrary: peers)
  case (Cons h hs)
  from Cons.prems show ?case
    by (auto simp: mesh_peer_def [of _ _ _ _ _ h] bind_res_Inr_iff dest!: Cons.IH
        split: if_splits option.splits sum.splits)
qed simp

lemma meshPeers_total:
  assumes "\<forall>h \<in> set hs. Hub_Name h \<noteq> Self_Name self \<longrightarrow> (\<forall>info. byName (Hub_Name h) = Some info \<longrightarrow>
      mesh_ok pk dns info \<and> is_ok (hubMeshAllowedIPs d h))"
  shows "\<exists>ps. meshPeers pk dns d self byName ka hs peers = Inr ps"
  using assms
proof (induction hs arbitrary: peers)
  case (Cons h hs)
  then show ?case
    by (auto simp: mesh_ok_def is_ok_iff split: option.splits)
qed simp

lemma anchoredPeers_eq:
  "anchoredPeers pk byName as peers = Inr ps \<Longrightarrow>
     ps = peers @ map (spoke_peer pk byName) (known_agents byName as)"
proof (induction as arbitrary: peers)
  case (Cons a as)
  from Cons.prems show ?case
    by (auto simp: spoke_peer_def [of _ _ a] bind_res_Inr_iff dest!: Cons.IH split: option.splits)
qed simp

lemma anchoredPeers_total:
  assumes "\<forall>a \<in> set as. (\<forall>info. byName (Agent_Name a) = Some info \<longrightarrow> pk (Info_PublicKey info) \<noteq> None) \<and>
      is_ok (singleHostPrefix (Agent_TunnelIP a))"
  shows "\<exists>ps. anchoredPeers pk byName as peers = Inr ps"
  using assms
proof (induction as arbitrary: peers)
  case (Cons a as)
  then show ?case by (auto simp: is_ok_iff split: option.splits)
qed simp

lemma hubPeers_eq:
  assumes "hubPeers pk dns d self byName ka = Inr ps"
  shows "ps = map (mesh_peer pk dns d byName ka) (mesh_hubs self byName (Hubs (Document_Spec d))) @
     map (spoke_peer pk byName) (known_agents byName (AgentsForHub d (Self_Name self)))"
  using assms by (auto simp: hubPeers_def bind_res_Inr_iff dest!: meshPeers_eq anchoredPeers_eq)

lemma mesh_peer_covers:
  assumes "wf_Document d" "h \<in> set (Hubs (Document_Spec d))"
  shows "covers (mesh_peer pk dns d byName ka h) x \<longleftrightarrow> behind d h x"
proof -
  obtain allowed where "hubMeshAllowedIPs d h = Inr allowed"
      "list_ex (\<lambda>pfx. Contains pfx x) allowed \<longleftrightarrow> behind d h x"
    using hubMeshAllowedIPs_ok [OF assms] by blast
  then show ?thesis by (simp add: covers_def mesh_peer_def Let_def)
qed

lemma spoke_peer_covers:
  assumes "wf_Document d" "a \<in> set (Agents (Document_Spec d))"
  shows "covers (spoke_peer pk byName a) x \<longleftrightarrow> ParseAddr (Agent_TunnelIP a) = Some x"
proof -
  obtain y where y: "ParseAddr (Agent_TunnelIP a) = Some y" "Zone y = []"
    using wf_agent_addr [OF assms] by blast
  then show ?thesis
    by (simp add: covers_def spoke_peer_def singleHostPrefix_ok host_prefix_contains [OF y] eq_commute [of x])
qed

lemma peer_names [simp]:
  "Peer_Name (mesh_peer pk dns d byName ka h) = Hub_Name h" "Peer_Name (spoke_peer pk byName a) = Agent_Name a"
  by (simp_all add: mesh_peer_def spoke_peer_def Let_def)

section \<open>Identities and peers of the nodes\<close>

lemma FindSelf_hub:
  assumes "wf_Document d" "h \<in> set (Hubs (Document_Spec d))" "ParseAddr (Hub_TunnelIP h) = Some x"
  shows "FindSelf d (Hub_Name h) =
    Inr \<lparr>Self_Name = Hub_Name h, Self_Role = ROLE_HUB, Self_TunnelIP = x, Self_HubName = []\<rparr>"
proof -
  have "FindHub d (Hub_Name h) = Some h" using assms by (simp add: wf_FindHub)
  then show ?thesis using assms by (simp add: FindSelf_def)
qed

lemma FindSelf_agent:
  assumes "wf_Document d" "a \<in> set (Agents (Document_Spec d))" "ParseAddr (Agent_TunnelIP a) = Some x"
  shows "FindSelf d (Agent_Name a) =
    Inr \<lparr>Self_Name = Agent_Name a, Self_Role = ROLE_SPOKE, Self_TunnelIP = x, Self_HubName = Agent_Hub a\<rparr>"
proof -
  have "FindAgent d (Agent_Name a) = Some a" using assms by (simp add: wf_FindAgent)
  moreover have "FindHub d (Agent_Name a) = None"
    using assms wf_distinct_names(3) [OF assms(1)] by (fastforce simp: hubs.lookup_None_iff)
  ultimately show ?thesis using assms by (simp add: FindSelf_def)
qed

lemma FindSelf_Inr:
  assumes "FindSelf d n = Inr self"
  shows "Self_Name self = n \<and>
    ((\<exists>h \<in> set (Hubs (Document_Spec d)). Hub_Name h = n \<and> Self_Role self = ROLE_HUB \<and>
        ParseAddr (Hub_TunnelIP h) = Some (Self_TunnelIP self)) \<or>
     (\<exists>a \<in> set (Agents (Document_Spec d)). Agent_Name a = n \<and> Self_Role self = ROLE_SPOKE \<and>
        ParseAddr (Agent_TunnelIP a) = Some (Self_TunnelIP self) \<and> Self_HubName self = Agent_Hub a))"
  using assms
  by (auto simp: FindSelf_def split: option.splits dest!: hubs.lookup_SomeD agents.lookup_SomeD)

lemma PeersFor_hub_members:
  assumes wf: "wf_Document d" and h: "h \<in> set (Hubs (Document_Spec d))" "Self_Name self = Hub_Name h"
    and r: "Self_Role self = ROLE_HUB" and ps: "PeersFor pk dns d self reg ka = Inr ps"
  shows "p \<in> set ps \<longleftrightarrow>
    (\<exists>k \<in> set (Hubs (Document_Spec d)). k \<noteq> h \<and> index_registry reg Map.empty (Hub_Name k) \<noteq> None \<and>
       p = mesh_peer pk dns d (index_registry reg Map.empty) ka k) \<or>
    (\<exists>a \<in> set (AgentsForHub d (Hub_Name h)). index_registry reg Map.empty (Agent_Name a) \<noteq> None \<and>
       p = spoke_peer pk (index_registry reg Map.empty) a)"
proof -
  have "hubPeers pk dns d self (index_registry reg Map.empty) ka = Inr ps"
    using ps r by (auto simp: PeersFor_def Let_def split: option.splits)
  note eq = hubPeers_eq [OF this, unfolded h(2)]
  have ne: "Hub_Name k \<noteq> Hub_Name h \<longleftrightarrow> k \<noteq> h" if "k \<in> set (Hubs (Document_Spec d))" for k
    using wf_distinct_names(1) [OF wf] h that by (auto simp: distinct_map dest: inj_onD)
  show ?thesis unfolding eq using ne by auto
qed

lemma hub_peers_disjoint:
  assumes wf: "wf_Document d" and h: "h \<in> set (Hubs (Document_Spec d))" "Self_Name self = Hub_Name h"
    and r: "Self_Role self = ROLE_HUB" and ps: "PeersFor pk dns d self reg ka = Inr ps"
    and pq: "p \<in> set ps" "q \<in> set ps" "covers p x" "covers q x"
  shows "p = q"
proof -
  note mem = PeersFor_hub_members [OF wf h r ps]
  have ag: "a \<in> set (Agents (Document_Spec d))" if "a \<in> set (AgentsForHub d (Hub_Name h))" for a
    using that by (simp add: AgentsForHub_set)
  have sp: "behind d h x" if "a \<in> set (AgentsForHub d (Hub_Name h))"
      "covers (spoke_peer pk (index_registry reg Map.empty) a) x" for a
    using that spoke_peer_covers [OF wf ag] by (auto simp: behind_def)
  show ?thesis
    using pq(1,2) unfolding mem
  proof (elim disjE bexE conjE)
    fix k k' assume *: "k \<in> set (Hubs (Document_Spec d))" "k' \<in> set (Hubs (Document_Spec d))"
      "p = mesh_peer pk dns d (index_registry reg Map.empty) ka k"
      "q = mesh_peer pk dns d (index_registry reg Map.empty) ka k'"
    then show "p = q" using pq behind_unique [OF wf] mesh_peer_covers [OF wf] by metis
  next
    fix a a' assume *: "a \<in> set (AgentsForHub d (Hub_Name h))" "a' \<in> set (AgentsForHub d (Hub_Name h))"
      "p = spoke_peer pk (index_registry reg Map.empty) a" "q = spoke_peer pk (index_registry reg Map.empty) a'"
    then have "ParseAddr (Agent_TunnelIP a) = ParseAddr (Agent_TunnelIP a')"
      using pq spoke_peer_covers [OF wf ag] by simp
    then show "p = q" using * ag wf_addr_inj(2) [OF wf] by (auto dest: inj_onD)
  qed (use pq behind_unique [OF wf] mesh_peer_covers [OF wf] sp h in metis)+
qed

section \<open>Forwarding\<close>

text \<open>
  WireGuard sends a packet to the peer whose allowed IPs contain the destination and accepts
  one from a peer only when its allowed IPs contain the source.
\<close>

definition route :: "Peer list \<Rightarrow> Addr \<Rightarrow> Peer option" where
  "route ps x = find (\<lambda>p. covers p x) ps"

definition node_addr :: "Document \<Rightarrow> string \<Rightarrow> Addr option" where
  "node_addr d n = (case FindSelf d n of Inl _ \<Rightarrow> None | Inr self \<Rightarrow> Some (Self_TunnelIP self))"

definition peers_at ::
    "(string \<Rightarrow> Key option) \<Rightarrow> (string \<Rightarrow> IP list option) \<Rightarrow> Document \<Rightarrow> PeerInfo option list \<Rightarrow> int \<Rightarrow> string \<Rightarrow> Peer list" where
  "peers_at pk dns d reg ka n =
     (case FindSelf d n of
        Inl _ \<Rightarrow> []
      | Inr self \<Rightarrow> (case PeersFor pk dns d self reg ka of Inl _ \<Rightarrow> [] | Inr ps \<Rightarrow> ps))"

definition accepts :: "Peer list \<Rightarrow> string \<Rightarrow> Addr \<Rightarrow> bool" where
  "accepts ps n s = list_ex (\<lambda>p. Peer_Name p = n \<and> covers p s) ps"

lemma acceptsI: "p \<in> set ps \<Longrightarrow> Peer_Name p = n \<Longrightarrow> covers p s \<Longrightarrow> accepts ps n s"
  by (auto simp: accepts_def list_ex_iff)

text \<open>The nodes a packet from \<open>s\<close> to \<open>x\<close> visits from \<open>n\<close> on; \<open>None\<close> if it is dropped.\<close>

fun deliver :: "(string \<Rightarrow> Peer list) \<Rightarrow> (string \<Rightarrow> Addr option) \<Rightarrow> nat \<Rightarrow> string \<Rightarrow> Addr \<Rightarrow> Addr \<Rightarrow> string list option" where
  "deliver peers addr 0 n s x = (if addr n = Some x then Some [n] else None)"
| "deliver peers addr (Suc fuel) n s x =
     (if addr n = Some x then Some [n]
      else case route (peers n) x of
             None \<Rightarrow> None
           | Some p \<Rightarrow>
               if accepts (peers (Peer_Name p)) n s
               then map_option ((#) n) (deliver peers addr fuel (Peer_Name p) s x)
               else None)"

lemma deliver_mono: "deliver peers addr f n s x = Some path \<Longrightarrow> deliver peers addr (Suc f) n s x = Some path"
proof (induction f arbitrary: n path)
  case 0
  then show ?case by (simp split: if_splits)
next
  case (Suc f)
  show ?case
  proof (cases "addr n = Some x")
    case False
    with Suc.prems obtain p q where p: "route (peers n) x = Some p" "accepts (peers (Peer_Name p)) n s"
        "deliver peers addr f (Peer_Name p) s x = Some q" "path = n # q"
      by (auto split: option.splits if_splits)
    then show ?thesis using False Suc.IH [OF p(3)] by (subst deliver.simps) simp
  qed (use Suc.prems in simp)
qed

lemma find_unique:
  assumes "x \<in> set xs" "P x" and uniq: "\<And>y. y \<in> set xs \<Longrightarrow> P y \<Longrightarrow> y = x"
  shows "find P xs = Some x"
proof (cases "find P xs")
  case None
  then show ?thesis using assms(1,2) by (simp add: find_None_iff)
next
  case (Some y)
  then show ?thesis using uniq find_Some_in [OF Some] by simp
qed

definition keyed :: "(string \<rightharpoonup> PeerInfo) \<Rightarrow> bool" where
  "keyed m \<longleftrightarrow> (\<forall>n \<in> dom m. Info_Name (the (m n)) = n)"

lemma keyed_upd: "keyed m \<Longrightarrow> keyed (m(Info_Name p \<mapsto> p))"
  by (simp add: keyed_def)

lemma index_registry_keyed: "keyed m \<Longrightarrow> keyed (index_registry reg m)"
  by (induction reg m rule: index_registry.induct) (simp_all add: keyed_upd)

lemma index_registry_name: "index_registry reg Map.empty n = Some info \<Longrightarrow> Info_Name info = n"
  using index_registry_keyed [of Map.empty reg] by (force simp: keyed_def)

text \<open>Every node has registered a key that parses, every hub an endpoint that resolves.\<close>

definition registry_complete ::
    "(string \<Rightarrow> Key option) \<Rightarrow> (string \<Rightarrow> IP list option) \<Rightarrow> Document \<Rightarrow> PeerInfo option list \<Rightarrow> bool" where
  "registry_complete pk dns d reg \<longleftrightarrow>
     (\<forall>h \<in> set (Hubs (Document_Spec d)). \<exists>info.
        index_registry reg Map.empty (Hub_Name h) = Some info \<and> mesh_ok pk dns info) \<and>
     (\<forall>a \<in> set (Agents (Document_Spec d)). \<exists>info.
        index_registry reg Map.empty (Agent_Name a) = Some info \<and> pk (Info_PublicKey info) \<noteq> None)"

lemma agent_peers:
  assumes wf: "wf_Document d" and reg: "registry_complete pk dns d reg"
    and a: "a \<in> set (Agents (Document_Spec d))" and ov: "ParsePrefix (CIDR (Document_Spec d)) = Some ov"
  shows "\<exists>p. peers_at pk dns d reg ka (Agent_Name a) = [p] \<and> Peer_Name p = Agent_Hub a \<and>
    Peer_AllowedIPs p = [ov]"
proof -
  obtain h where h: "h \<in> set (Hubs (Document_Spec d))" "Hub_Name h = Agent_Hub a"
    using wf_agent_hub [OF wf a] by blast
  obtain info where info: "index_registry reg Map.empty (Agent_Hub a) = Some info" "mesh_ok pk dns info"
    using reg h unfolding registry_complete_def by metis
  moreover have "Info_Name info = Agent_Hub a" by (rule index_registry_name [OF info(1)])
  moreover obtain x where "ParseAddr (Agent_TunnelIP a) = Some x" using wf_agent_addr [OF wf a] by blast
  ultimately show ?thesis
    by (auto simp: peers_at_def FindSelf_agent [OF wf a] PeersFor_def ov spokePeers_def mesh_ok_def)
qed

lemma hub_PeersFor:
  assumes wf: "wf_Document d" and reg: "registry_complete pk dns d reg"
    and h: "h \<in> set (Hubs (Document_Spec d))" "Self_Name self = Hub_Name h" and r: "Self_Role self = ROLE_HUB"
  shows "\<exists>ps. PeersFor pk dns d self reg ka = Inr ps"
proof -
  obtain ov where ov: "ParsePrefix (CIDR (Document_Spec d)) = Some ov" using wf_overlay [OF wf] by blast
  obtain ps where "meshPeers pk dns d self (index_registry reg Map.empty) ka (Hubs (Document_Spec d)) [] = Inr ps"
    using meshPeers_total [of "Hubs (Document_Spec d)" self "index_registry reg Map.empty" pk dns d ka "[]"]
      reg hubMeshAllowedIPs_ok [OF wf] unfolding registry_complete_def is_ok_iff by (metis option.inject)
  moreover have "\<exists>qs. anchoredPeers pk (index_registry reg Map.empty) (AgentsForHub d (Hub_Name h)) ps = Inr qs"
  proof (rule anchoredPeers_total, rule ballI)
    fix a assume "a \<in> set (AgentsForHub d (Hub_Name h))"
    then have a: "a \<in> set (Agents (Document_Spec d))" by (simp add: AgentsForHub_set)
    show "(\<forall>info. index_registry reg Map.empty (Agent_Name a) = Some info \<longrightarrow> pk (Info_PublicKey info) \<noteq> None) \<and>
        is_ok (singleHostPrefix (Agent_TunnelIP a))"
      using reg a wf_agent_addr [OF wf a] singleHostPrefix_ok unfolding registry_complete_def is_ok_iff
      by (metis option.inject)
  qed
  ultimately show ?thesis using ov r h by (auto simp: PeersFor_def hubPeers_def)
qed

lemma hub_peers_at:
  assumes wf: "wf_Document d" and reg: "registry_complete pk dns d reg"
    and h: "h \<in> set (Hubs (Document_Spec d))"
  shows "p \<in> set (peers_at pk dns d reg ka (Hub_Name h)) \<longleftrightarrow>
      (\<exists>k \<in> set (Hubs (Document_Spec d)). k \<noteq> h \<and> p = mesh_peer pk dns d (index_registry reg Map.empty) ka k) \<or>
      (\<exists>a \<in> set (AgentsForHub d (Hub_Name h)). p = spoke_peer pk (index_registry reg Map.empty) a)"
    and "covers p x \<Longrightarrow> p \<in> set (peers_at pk dns d reg ka (Hub_Name h)) \<Longrightarrow>
      route (peers_at pk dns d reg ka (Hub_Name h)) x = Some p"
proof -
  obtain y where "ParseAddr (Hub_TunnelIP h) = Some y" using wf_hub_addr [OF wf h] by blast
  then obtain self where self: "FindSelf d (Hub_Name h) = Inr self" "Self_Name self = Hub_Name h" "Self_Role self = ROLE_HUB"
    using FindSelf_hub [OF wf h] by force
  obtain ps where ps: "PeersFor pk dns d self reg ka = Inr ps" using hub_PeersFor [OF wf reg h self(2,3)] by blast
  have at: "peers_at pk dns d reg ka (Hub_Name h) = ps" using self ps by (simp add: peers_at_def)
  show "p \<in> set (peers_at pk dns d reg ka (Hub_Name h)) \<longleftrightarrow>
      (\<exists>k \<in> set (Hubs (Document_Spec d)). k \<noteq> h \<and> p = mesh_peer pk dns d (index_registry reg Map.empty) ka k) \<or>
      (\<exists>a \<in> set (AgentsForHub d (Hub_Name h)). p = spoke_peer pk (index_registry reg Map.empty) a)"
    unfolding at PeersFor_hub_members [OF wf h self(2,3) ps]
    using reg unfolding registry_complete_def AgentsForHub_set by fastforce
  show "covers p x \<Longrightarrow> p \<in> set (peers_at pk dns d reg ka (Hub_Name h)) \<Longrightarrow>
      route (peers_at pk dns d reg ka (Hub_Name h)) x = Some p"
    unfolding at route_def
    by (rule find_unique) (auto intro: hub_peers_disjoint [OF wf h self(2,3) ps])
qed


section \<open>Delivery\<close>

lemma node_addr_hub:
  "wf_Document d \<Longrightarrow> h \<in> set (Hubs (Document_Spec d)) \<Longrightarrow> node_addr d (Hub_Name h) = ParseAddr (Hub_TunnelIP h)"
  using wf_hub_addr FindSelf_hub by (force simp: node_addr_def)

lemma node_addr_agent:
  "wf_Document d \<Longrightarrow> a \<in> set (Agents (Document_Spec d)) \<Longrightarrow> node_addr d (Agent_Name a) = ParseAddr (Agent_TunnelIP a)"
  using wf_agent_addr FindSelf_agent by (force simp: node_addr_def)

text \<open>From the hub the destination is behind: one more hop at most.\<close>

lemma deliver_last_hub:
  assumes wf: "wf_Document d" and reg: "registry_complete pk dns d reg"
    and h: "h \<in> set (Hubs (Document_Spec d))" and x: "behind d h x"
    and s: "ParsePrefix (CIDR (Document_Spec d)) = Some ov" "Contains ov s"
  shows "\<exists>path. deliver (peers_at pk dns d reg ka) (node_addr d) 1 (Hub_Name h) s x = Some (Hub_Name h # path) \<and>
    node_addr d (last (Hub_Name h # path)) = Some x \<and> length path \<le> 1"
proof (cases "ParseAddr (Hub_TunnelIP h) = Some x")
  case True
  then show ?thesis using node_addr_hub [OF wf h] by simp
next
  case False
  then obtain a where a: "a \<in> set (AgentsForHub d (Hub_Name h))" "ParseAddr (Agent_TunnelIP a) = Some x"
    using x by (auto simp: behind_def)
  then have ag: "a \<in> set (Agents (Document_Spec d))" "Agent_Hub a = Hub_Name h" by (simp_all add: AgentsForHub_set)
  define p where "p = spoke_peer pk (index_registry reg Map.empty) a"
  have "route (peers_at pk dns d reg ka (Hub_Name h)) x = Some p"
  proof (rule hub_peers_at(2) [OF wf reg h])
    show "covers p x" using spoke_peer_covers [OF wf ag(1)] a(2) by (simp add: p_def)
    show "p \<in> set (peers_at pk dns d reg ka (Hub_Name h))"
      unfolding hub_peers_at(1) [OF wf reg h] p_def using a(1) by blast
  qed
  moreover have "Peer_Name p = Agent_Name a" by (simp add: p_def)
  moreover have "accepts (peers_at pk dns d reg ka (Agent_Name a)) (Hub_Name h) s"
    using agent_peers [OF wf reg ag(1) s(1), of ka] ag(2) s(2) by (auto simp: accepts_def covers_def)
  ultimately show ?thesis
    using False a(2) node_addr_hub [OF wf h] node_addr_agent [OF wf ag(1)] by simp
qed

lemma deliver_hub:
  assumes wf: "wf_Document d" and reg: "registry_complete pk dns d reg"
    and h: "h \<in> set (Hubs (Document_Spec d))" "k \<in> set (Hubs (Document_Spec d))"
    and x: "behind d k x" and sh: "behind d h s"
    and s: "ParsePrefix (CIDR (Document_Spec d)) = Some ov" "Contains ov s"
  shows "\<exists>path. deliver (peers_at pk dns d reg ka) (node_addr d) 2 (Hub_Name h) s x = Some (Hub_Name h # path) \<and>
    node_addr d (last (Hub_Name h # path)) = Some x \<and>
    set (butlast (Hub_Name h # path)) \<subseteq> Hub_Name ` set (Hubs (Document_Spec d))"
proof (cases "h = k")
  case True
  then obtain path where p: "deliver (peers_at pk dns d reg ka) (node_addr d) 1 (Hub_Name h) s x = Some (Hub_Name h # path)"
      "node_addr d (last (Hub_Name h # path)) = Some x" "length path \<le> 1"
    using deliver_last_hub [OF wf reg h(1) _ s, of x ka] x by blast
  have "set (butlast (Hub_Name h # path)) \<subseteq> {Hub_Name h}"
    using p(3) by (cases path) auto
  then show ?thesis using deliver_mono [OF p(1)] p(2) h(1) by (auto simp: numeral_2_eq_2)
next
  case False
  obtain path where p: "deliver (peers_at pk dns d reg ka) (node_addr d) 1 (Hub_Name k) s x = Some (Hub_Name k # path)"
      "node_addr d (last (Hub_Name k # path)) = Some x" "length path \<le> 1"
    using deliver_last_hub [OF wf reg h(2) x s, of ka] by blast
  have "\<not> behind d h x" using False behind_unique [OF wf h] x by blast
  then have own: "node_addr d (Hub_Name h) \<noteq> Some x" using node_addr_hub [OF wf h(1)] by (simp add: behind_def)
  have rt: "route (peers_at pk dns d reg ka (Hub_Name h)) x = Some (mesh_peer pk dns d (index_registry reg Map.empty) ka k)"
  proof (rule hub_peers_at(2) [OF wf reg h(1)])
    show "covers (mesh_peer pk dns d (index_registry reg Map.empty) ka k) x"
      using mesh_peer_covers [OF wf h(2)] x by simp
    show "mesh_peer pk dns d (index_registry reg Map.empty) ka k \<in> set (peers_at pk dns d reg ka (Hub_Name h))"
      unfolding hub_peers_at(1) [OF wf reg h(1)] using h(2) not_sym [OF False] by blast
  qed
  have "mesh_peer pk dns d (index_registry reg Map.empty) ka h \<in> set (peers_at pk dns d reg ka (Hub_Name k))"
    unfolding hub_peers_at(1) [OF wf reg h(2)] using h(1) False by blast
  then have "accepts (peers_at pk dns d reg ka (Hub_Name k)) (Hub_Name h) s"
    by (rule acceptsI) (simp_all add: mesh_peer_covers [OF wf h(1)] sh)
  then have "deliver (peers_at pk dns d reg ka) (node_addr d) 2 (Hub_Name h) s x = Some (Hub_Name h # Hub_Name k # path)"
    using own rt p(1) by (simp add: numeral_2_eq_2)
  moreover have "set (butlast (Hub_Name k # path)) \<subseteq> {Hub_Name k}" using p(3) by (cases path) auto
  ultimately show ?thesis using p(2) h by auto
qed

lemma deliver_agent:
  assumes wf: "wf_Document d" and reg: "registry_complete pk dns d reg"
    and a: "a \<in> set (Agents (Document_Spec d))" "ParseAddr (Agent_TunnelIP a) = Some s"
    and k: "k \<in> set (Hubs (Document_Spec d))" "behind d k x"
    and ov: "ParsePrefix (CIDR (Document_Spec d)) = Some ov" "Contains ov s" "Contains ov x"
  shows "\<exists>path. deliver (peers_at pk dns d reg ka) (node_addr d) 3 (Agent_Name a) s x = Some (Agent_Name a # path) \<and>
    node_addr d (last (Agent_Name a # path)) = Some x \<and>
    set (butlast path) \<subseteq> Hub_Name ` set (Hubs (Document_Spec d))"
proof (cases "s = x")
  case True
  then show ?thesis
    using node_addr_agent [OF wf a(1)] a(2) by (intro exI [of _ "[]"]) (simp add: numeral_3_eq_3)
next
  case False
  obtain h where h: "h \<in> set (Hubs (Document_Spec d))" "Hub_Name h = Agent_Hub a" using wf_agent_hub [OF wf a(1)] by blast
  have anch: "a \<in> set (AgentsForHub d (Hub_Name h))" using a(1) h(2) by (simp add: AgentsForHub_set)
  then have "behind d h s" using a(2) by (auto simp: behind_def)
  then obtain path where p: "deliver (peers_at pk dns d reg ka) (node_addr d) 2 (Hub_Name h) s x = Some (Hub_Name h # path)"
      "node_addr d (last (Hub_Name h # path)) = Some x"
      "set (butlast (Hub_Name h # path)) \<subseteq> Hub_Name ` set (Hubs (Document_Spec d))"
    using deliver_hub [OF wf reg h(1) k _ ov(1,2)] by blast
  obtain q where q: "peers_at pk dns d reg ka (Agent_Name a) = [q]" "Peer_Name q = Hub_Name h" "Peer_AllowedIPs q = [ov]"
    using agent_peers [OF wf reg a(1) ov(1)] h(2) by metis
  then have rt: "route (peers_at pk dns d reg ka (Agent_Name a)) x = Some q"
    using ov(3) by (simp add: route_def covers_def)
  have "spoke_peer pk (index_registry reg Map.empty) a \<in> set (peers_at pk dns d reg ka (Hub_Name h))"
    unfolding hub_peers_at(1) [OF wf reg h(1)] using anch by blast
  then have "accepts (peers_at pk dns d reg ka (Hub_Name h)) (Agent_Name a) s"
    by (rule acceptsI) (simp_all add: spoke_peer_covers [OF wf a(1)] a(2))
  then have "deliver (peers_at pk dns d reg ka) (node_addr d) 3 (Agent_Name a) s x = Some (Agent_Name a # Hub_Name h # path)"
    using False rt q(2) p(1) node_addr_agent [OF wf a(1)] a(2) by (simp add: numeral_3_eq_3 numeral_2_eq_2)
  then show ?thesis using p(2,3) by auto
qed

lemma node_names_cases:
  assumes "n \<in> set (node_names d)"
  obtains (hub) h where "h \<in> set (Hubs (Document_Spec d))" "n = Hub_Name h"
    | (agent) a where "a \<in> set (Agents (Document_Spec d))" "n = Agent_Name a"
  using assms by (auto simp: node_names_def)

lemma node_addr_Some:
  assumes "node_addr d n = Some x"
  shows "(\<exists>h \<in> set (Hubs (Document_Spec d)). Hub_Name h = n \<and> ParseAddr (Hub_TunnelIP h) = Some x) \<or>
    (\<exists>a \<in> set (Agents (Document_Spec d)). Agent_Name a = n \<and> ParseAddr (Agent_TunnelIP a) = Some x)"
proof -
  obtain self where "FindSelf d n = Inr self" "Self_TunnelIP self = x"
    using assms by (auto simp: node_addr_def split: sum.splits)
  then show ?thesis using FindSelf_Inr [of d n self] by auto
qed

lemma node_addr_inj:
  assumes wf: "wf_Document d" and "node_addr d m = Some x" "node_addr d n = Some x"
  shows "m = n"
proof -
  have hh: "h = k" if "h \<in> set (Hubs (Document_Spec d))" "k \<in> set (Hubs (Document_Spec d))"
      "ParseAddr (Hub_TunnelIP h) = Some x" "ParseAddr (Hub_TunnelIP k) = Some x" for h k
    using inj_onD [OF wf_addr_inj(1) [OF wf] _ that(1,2)] that by simp
  have aa: "a = b" if "a \<in> set (Agents (Document_Spec d))" "b \<in> set (Agents (Document_Spec d))"
      "ParseAddr (Agent_TunnelIP a) = Some x" "ParseAddr (Agent_TunnelIP b) = Some x" for a b
    using inj_onD [OF wf_addr_inj(2) [OF wf] _ that(1,2)] that by simp
  have ha: False if "h \<in> set (Hubs (Document_Spec d))" "a \<in> set (Agents (Document_Spec d))"
      "ParseAddr (Hub_TunnelIP h) = Some x" "ParseAddr (Agent_TunnelIP a) = Some x" for h a
    using wf_addr_inj(3) [OF wf that(1,2)] that by simp
  show ?thesis
    using node_addr_Some [OF assms(2)] node_addr_Some [OF assms(3)] hh aa ha by blast
qed

lemma node_addr_behind:
  assumes wf: "wf_Document d" and "node_addr d n = Some x"
    and ov: "ParsePrefix (CIDR (Document_Spec d)) = Some ov"
  shows "\<exists>k \<in> set (Hubs (Document_Spec d)). behind d k x" "Contains ov x"
proof -
  show "\<exists>k \<in> set (Hubs (Document_Spec d)). behind d k x"
    using node_addr_Some [OF assms(2)]
  proof (elim disjE bexE conjE)
    fix a assume a: "a \<in> set (Agents (Document_Spec d))" "ParseAddr (Agent_TunnelIP a) = Some x"
    then obtain h where "h \<in> set (Hubs (Document_Spec d))" "Hub_Name h = Agent_Hub a"
      using wf_agent_hub [OF wf a(1)] by blast
    then show ?thesis using a by (intro bexI [of _ h]) (auto simp: behind_def AgentsForHub_set)
  qed (auto simp: behind_def)
  have "\<exists>ip \<in> set (node_ips d). ParseAddr ip = Some x"
    using node_addr_Some [OF assms(2)] by (auto simp: node_ips_def)
  then show "Contains ov x" using wf_node_addr [OF wf ov] by fastforce
qed

lemma delivery:
  assumes wf: "wf_Document d" and reg: "registry_complete pk dns d reg"
    and src: "node_addr d src = Some s" and dst: "node_addr d dst = Some x"
  shows "\<exists>path. deliver (peers_at pk dns d reg ka) (node_addr d) 3 src s x = Some (src # path) \<and>
    last (src # path) = dst \<and> set (butlast path) \<subseteq> Hub_Name ` set (Hubs (Document_Spec d))"
proof -
  obtain ov where ov: "ParsePrefix (CIDR (Document_Spec d)) = Some ov" using wf_overlay [OF wf] by blast
  obtain k where k: "k \<in> set (Hubs (Document_Spec d))" "behind d k x" using node_addr_behind [OF wf dst ov] by blast
  have so: "Contains ov s" and xo: "Contains ov x"
    using node_addr_behind(2) [OF wf src ov] node_addr_behind(2) [OF wf dst ov] by auto
  have "\<exists>path. deliver (peers_at pk dns d reg ka) (node_addr d) 3 src s x = Some (src # path) \<and>
      node_addr d (last (src # path)) = Some x \<and> set (butlast path) \<subseteq> Hub_Name ` set (Hubs (Document_Spec d))"
    using node_addr_Some [OF src]
  proof (elim disjE bexE conjE)
    fix h assume h: "h \<in> set (Hubs (Document_Spec d))" "Hub_Name h = src" "ParseAddr (Hub_TunnelIP h) = Some s"
    then have "behind d h s" by (simp add: behind_def)
    then obtain path where p: "deliver (peers_at pk dns d reg ka) (node_addr d) 2 src s x = Some (src # path)"
        "node_addr d (last (src # path)) = Some x" "set (butlast (src # path)) \<subseteq> Hub_Name ` set (Hubs (Document_Spec d))"
      using deliver_hub [OF wf reg h(1) k _ ov so, of ka] h(2) by blast
    have "deliver (peers_at pk dns d reg ka) (node_addr d) 3 src s x = Some (src # path)"
      using deliver_mono [OF p(1)] by simp
    then show ?thesis using p by (cases path) auto
  qed (use deliver_agent [OF wf reg _ _ k ov so xo, of _ ka] in blast)
  then show ?thesis using node_addr_inj [OF wf _ dst] by blast
qed


text \<open>
  C17. The allowed IPs a hub installs are unambiguous: on an accepted document two different peers
  of a hub never contain the same address, and none contains the hub's own address.
\<close>

theorem hub_allowed_ips_disjoint:
  assumes wf: "wf_Document d" and self: "FindSelf d n = Inr self" "Self_Role self = ROLE_HUB"
    and ps: "PeersFor pk dns d self reg ka = Inr ps" "p \<in> set ps" "q \<in> set ps" "covers p x"
  shows "(covers q x \<longrightarrow> p = q) \<and> x \<noteq> Self_TunnelIP self \<and> Peer_Name p \<noteq> n"
proof -
  obtain h where h: "h \<in> set (Hubs (Document_Spec d))" "Self_Name self = Hub_Name h" "n = Hub_Name h"
      "ParseAddr (Hub_TunnelIP h) = Some (Self_TunnelIP self)"
    using FindSelf_Inr [OF self(1)] self(2) by auto
  have own: "behind d h (Self_TunnelIP self)" using h by (simp add: behind_def)
  have "x \<noteq> Self_TunnelIP self \<and> Peer_Name p \<noteq> n"
    using ps(2) unfolding PeersFor_hub_members [OF wf h(1,2) self(2) ps(1)]
  proof (elim disjE bexE conjE)
    fix k assume k: "k \<in> set (Hubs (Document_Spec d))" "k \<noteq> h"
      "p = mesh_peer pk dns d (index_registry reg Map.empty) ka k"
    then have "behind d k x" using ps(4) mesh_peer_covers [OF wf k(1)] by simp
    moreover have "Hub_Name k \<noteq> Hub_Name h"
      using k h wf_distinct_names(1) [OF wf] by (auto simp: distinct_map dest: inj_onD)
    ultimately show ?thesis using behind_unique [OF wf k(1) h(1)] own k h(3) by auto
  next
    fix a assume a: "a \<in> set (AgentsForHub d (Hub_Name h))" "p = spoke_peer pk (index_registry reg Map.empty) a"
    then have "a \<in> set (Agents (Document_Spec d))" by (simp add: AgentsForHub_set)
    then show ?thesis
      using ps(4) a(2) spoke_peer_covers [OF wf] wf_addr_inj(3) [OF wf h(1)] wf_distinct_names(3) [OF wf h(1)] h by fastforce
  qed
  then show ?thesis using hub_peers_disjoint [OF wf h(1,2) self(2) ps(1-3)] ps(4) by blast
qed

text \<open>
  C35. A spoke talks to its hub only: on an accepted document the peer set of a spoke is computed
  exactly when its hub has registered a key that parses and an endpoint that resolves, and
  then it is that hub alone, allowed the whole overlay, with the keepalive.
\<close>

theorem spoke_peers_hub_only:
  assumes wf: "wf_Document d" and self: "FindSelf d n = Inr self" "Self_Role self = ROLE_SPOKE"
  shows "PeersFor pk dns d self reg ka = Inr ps \<longleftrightarrow>
    (\<exists>info ov key ep. index_registry reg Map.empty (Self_HubName self) = Some info \<and>
       ParsePrefix (CIDR (Document_Spec d)) = Some ov \<and>
       pk (Info_PublicKey info) = Some key \<and> resolveEndpoint dns (Info_Endpoint info) = Inr (Some ep) \<and>
       Self_HubName self \<in> Hub_Name ` set (Hubs (Document_Spec d)) \<and>
       ps = [\<lparr>Peer_Name = Self_HubName self, Peer_PublicKey = key, Peer_Endpoint = Some ep,
              Peer_AllowedIPs = [ov], Peer_PersistentKeepalive = ka\<rparr>])"
proof -
  obtain ov where ov: "ParsePrefix (CIDR (Document_Spec d)) = Some ov" using wf_overlay [OF wf] by blast
  obtain a where "a \<in> set (Agents (Document_Spec d))" "Self_HubName self = Agent_Hub a"
    using FindSelf_Inr [OF self(1)] self(2) by auto
  then have hub: "Self_HubName self \<in> Hub_Name ` set (Hubs (Document_Spec d))"
    using wf_agent_hub [OF wf] by (metis imageI)
  show ?thesis
    by (auto simp: PeersFor_def ov self(2) spokePeers_def hub Let_def index_registry_name
        split: option.splits sum.splits)
qed

section \<open>What the server can influence\<close>

text \<open>What a registry entry contributes to a peer.\<close>

definition contact :: "PeerInfo \<Rightarrow> string \<times> string \<times> string" where
  "contact i = (Info_Name i, Info_PublicKey i, Info_Endpoint i)"

definition same_contacts :: "(string \<rightharpoonup> PeerInfo) \<Rightarrow> (string \<rightharpoonup> PeerInfo) \<Rightarrow> bool" where
  "same_contacts b b' \<longleftrightarrow> (\<forall>n. map_option contact (b n) = map_option contact (b' n))"

lemma same_contacts_cases:
  assumes "same_contacts b b'"
  obtains "b n = None" "b' n = None"
  | i j where "b n = Some i" "b' n = Some j" "Info_Name i = Info_Name j" "Info_PublicKey i = Info_PublicKey j" "Info_Endpoint i = Info_Endpoint j"
  using assms unfolding same_contacts_def by (cases "b n"; cases "b' n") (auto simp: contact_def dest!: spec [of _ n])

lemma index_registry_contacts:
  "map (map_option contact) reg = map (map_option contact) reg' \<Longrightarrow> same_contacts b b' \<Longrightarrow>
     same_contacts (index_registry reg b) (index_registry reg' b')"
proof (induction reg b arbitrary: reg' b' rule: index_registry.induct)
  case (3 p ps b)
  obtain q qs where r: "reg' = Some q # qs" "contact p = contact q" "map (map_option contact) ps = map (map_option contact) qs"
    using "3.prems"(1) by (auto simp: Cons_eq_map_conv) (metis map_option_eq_Some)
  have eqs: "Info_Name p = Info_Name q" "Info_PublicKey p = Info_PublicKey q" using r(2) by (simp_all add: contact_def)
  have upd: "same_contacts (b(Info_Name p \<mapsto> p)) (b'(Info_Name q \<mapsto> q))"
    using "3.prems"(2) r(2) by (auto simp: same_contacts_def contact_def)
  show ?case
  proof (cases "Info_Name p = [] \<or> Info_PublicKey p = []")
    case True
    then show ?thesis using "3.IH"(1) [OF True r(3) "3.prems"(2)] eqs r(1) by simp
  next
    case False
    then show ?thesis using "3.IH"(2) [OF False r(3) upd] eqs r(1) by (simp add: fun_upd_def)
  qed
qed (auto simp: Cons_eq_map_conv)

lemma meshPeers_contacts:
  "same_contacts b b' \<Longrightarrow> meshPeers pk dns d self b ka hs ps = meshPeers pk dns d self b' ka hs ps"
proof (induction hs arbitrary: ps)
  case (Cons h hs)
  from Cons.prems show ?case
    by (cases rule: same_contacts_cases [where n = "Hub_Name h"])
      (auto simp: Cons.IH [OF Cons.prems] split: option.splits sum.splits)
qed simp

lemma anchoredPeers_contacts:
  "same_contacts b b' \<Longrightarrow> anchoredPeers pk b as ps = anchoredPeers pk b' as ps"
proof (induction as arbitrary: ps)
  case (Cons a as)
  from Cons.prems show ?case
    by (cases rule: same_contacts_cases [where n = "Agent_Name a"])
      (auto simp: Cons.IH [OF Cons.prems] split: option.splits)
qed simp

lemma PeersFor_contacts:
  assumes "map (map_option contact) reg = map (map_option contact) reg'"
  shows "PeersFor pk dns d self reg ka = PeersFor pk dns d self reg' ka"
proof -
  have c: "same_contacts (index_registry reg Map.empty) (index_registry reg' Map.empty)"
    by (rule index_registry_contacts [OF assms]) (simp add: same_contacts_def)
  then have "spokePeers pk dns self (index_registry reg Map.empty) ov ka = spokePeers pk dns self (index_registry reg' Map.empty) ov ka" for ov
    by (cases rule: same_contacts_cases [where n = "Self_HubName self"]) (auto simp: spokePeers_def split: option.splits sum.splits)
  then show ?thesis
    by (auto simp: PeersFor_def hubPeers_def meshPeers_contacts [OF c] anchoredPeers_contacts [OF c] Let_def split: option.splits Role.splits)
qed

text \<open>
  C18. The server supplies contacts and nothing else. Registries that agree on names, keys and endpoints
  give a node the same peers: the tunnel address, the role and the time a peer was last seen are not
  looked at. And whatever two registries say, a peer computed from both under the same name has the
  same allowed IPs and keepalive: routes are the document's, no answer of the server changes them.
\<close>

theorem server_gives_contacts_only:
  assumes wf: "wf_Document d" and self: "FindSelf d n = Inr self"
  shows "(map (map_option contact) reg = map (map_option contact) reg' \<longrightarrow>
      PeersFor pk dns d self reg ka = PeersFor pk dns d self reg' ka) \<and>
    (\<forall>ps qs. PeersFor pk dns d self reg ka = Inr ps \<longrightarrow> PeersFor pk dns d self reg' ka = Inr qs \<longrightarrow>
      (\<forall>p \<in> set ps. \<forall>q \<in> set qs. Peer_Name p = Peer_Name q \<longrightarrow>
        Peer_AllowedIPs p = Peer_AllowedIPs q \<and> Peer_PersistentKeepalive p = Peer_PersistentKeepalive q))"
proof -
  have routes: "Peer_AllowedIPs p = Peer_AllowedIPs q \<and> Peer_PersistentKeepalive p = Peer_PersistentKeepalive q"
    if ps: "PeersFor pk dns d self reg ka = Inr ps" "PeersFor pk dns d self reg' ka = Inr qs"
      and pq: "p \<in> set ps" "q \<in> set qs" "Peer_Name p = Peer_Name q" for ps qs p q
    using FindSelf_Inr [OF self]
  proof (elim conjE disjE bexE)
    fix h assume h: "h \<in> set (Hubs (Document_Spec d))" "Self_Name self = n" "Hub_Name h = n" "Self_Role self = ROLE_HUB"
    then have own: "Self_Name self = Hub_Name h" by simp
    have mesh: "Peer_AllowedIPs (mesh_peer pk dns d b ka k) = Peer_AllowedIPs (mesh_peer pk dns d b' ka k) \<and>
        Peer_PersistentKeepalive (mesh_peer pk dns d b ka k) = Peer_PersistentKeepalive (mesh_peer pk dns d b' ka k)" for b b' k
      by (simp add: mesh_peer_def Let_def)
    have spoke: "Peer_AllowedIPs (spoke_peer pk b k) = Peer_AllowedIPs (spoke_peer pk b' k) \<and>
        Peer_PersistentKeepalive (spoke_peer pk b k) = Peer_PersistentKeepalive (spoke_peer pk b' k)" for b b' k
      by (simp add: spoke_peer_def)
    have names: "inj_on Hub_Name (set (Hubs (Document_Spec d)))" "inj_on Agent_Name (set (AgentsForHub d (Hub_Name h)))"
      "\<And>k a. k \<in> set (Hubs (Document_Spec d)) \<Longrightarrow> a \<in> set (AgentsForHub d (Hub_Name h)) \<Longrightarrow> Hub_Name k \<noteq> Agent_Name a"
      using wf_distinct_names [OF wf] by (auto simp: AgentsForHub_set distinct_map intro: inj_on_subset)
    from pq(1,2) [unfolded PeersFor_hub_members [OF wf h(1) own h(4) ps(1)] PeersFor_hub_members [OF wf h(1) own h(4) ps(2)]] pq(3)
    show ?thesis
    proof (elim disjE bexE conjE)
      fix k k' assume "k \<in> set (Hubs (Document_Spec d))" "k' \<in> set (Hubs (Document_Spec d))" "Peer_Name p = Peer_Name q"
        "p = mesh_peer pk dns d (index_registry reg Map.empty) ka k" "q = mesh_peer pk dns d (index_registry reg' Map.empty) ka k'"
      moreover from this have "k = k'" using inj_onD [OF names(1)] by simp
      ultimately show ?thesis using mesh by simp
    next
      fix a a' assume "a \<in> set (AgentsForHub d (Hub_Name h))" "a' \<in> set (AgentsForHub d (Hub_Name h))" "Peer_Name p = Peer_Name q"
        "p = spoke_peer pk (index_registry reg Map.empty) a" "q = spoke_peer pk (index_registry reg' Map.empty) a'"
      moreover from this have "a = a'" using inj_onD [OF names(2)] by simp
      ultimately show ?thesis using spoke by simp
    qed (use names(3) in \<open>auto dest: sym\<close>)
  next
    assume "Self_Role self = ROLE_SPOKE"
    then show ?thesis using ps pq by (auto simp: PeersFor_def spokePeers_def Let_def split: option.splits sum.splits)
  qed
  show ?thesis using PeersFor_contacts routes by blast
qed

section \<open>The example network, registered\<close>

definition example_ParseKey :: "string \<Rightarrow> Key option" where
  "example_ParseKey s = (if s = [] then None else Some (word_of_nat (length s)))"

definition example_LookupIP :: "string \<Rightarrow> IP list option" where
  "example_LookupIP host = Some [[192, 0, 2, 1]]"

definition example_info :: "string \<Rightarrow> string \<Rightarrow> PeerInfo option" where
  "example_info n ep = Some \<lparr>Info_Name = n, Info_PublicKey = n, Info_Endpoint = ep, Info_TunnelIp = [],
     Info_LastSeen = None, Info_Role = ROLE_UNSPECIFIED\<rparr>"

definition example_registry :: "PeerInfo option list" where
  "example_registry =
     [example_info ''hub-eu'' ''hub-eu.example.com:51820'', example_info ''hub-us'' ''hub-us.example.com:51820'',
      example_info ''dev-laptop'' [], example_info ''dev-server'' [], example_info ''prod-server'' []]"

lemma example_resolve:
  "resolveEndpoint example_LookupIP ''hub-eu.example.com:51820'' =
     Inr (Some \<lparr>UDP_IP = [192, 0, 2, 1], UDP_Port = 51820, UDP_Zone = []\<rparr>)"
  "resolveEndpoint example_LookupIP ''hub-us.example.com:51820'' =
     Inr (Some \<lparr>UDP_IP = [192, 0, 2, 1], UDP_Port = 51820, UDP_Zone = []\<rparr>)"
  by code_simp+

lemma example_complete: "registry_complete example_ParseKey example_LookupIP example_doc example_registry"
  by (simp add: registry_complete_def mesh_ok_def example_registry_def example_info_def example_simps
      example_ParseKey_def example_resolve)

lemma example_self:
  "FindSelf example_doc ''hub-eu'' =
     Inr \<lparr>Self_Name = ''hub-eu'', Self_Role = ROLE_HUB, Self_TunnelIP = Addr4 0x64400001, Self_HubName = []\<rparr>"
  "FindSelf example_doc ''dev-laptop'' =
     Inr \<lparr>Self_Name = ''dev-laptop'', Self_Role = ROLE_SPOKE, Self_TunnelIP = Addr4 0x6440010A, Self_HubName = ''hub-eu''\<rparr>"
  "FindSelf example_doc ''prod-server'' =
     Inr \<lparr>Self_Name = ''prod-server'', Self_Role = ROLE_SPOKE, Self_TunnelIP = Addr4 0x64400114, Self_HubName = ''hub-us''\<rparr>"
  by (simp_all add: FindSelf_def FindHub_def FindAgent_def example_simps)


theorem hub_allowed_ips_disjoint_witness:
  "\<exists>ps p. PeersFor example_ParseKey example_LookupIP example_doc
      \<lparr>Self_Name = ''hub-eu'', Self_Role = ROLE_HUB, Self_TunnelIP = Addr4 0x64400001, Self_HubName = []\<rparr>
      example_registry 25 = Inr ps \<and> p \<in> set ps \<and> covers p (Addr4 0x64400114) \<and>
    (\<forall>q \<in> set ps. covers q (Addr4 0x64400114) \<longrightarrow> p = q)"
proof -
  let ?self = "\<lparr>Self_Name = ''hub-eu'', Self_Role = ROLE_HUB, Self_TunnelIP = Addr4 0x64400001, Self_HubName = []\<rparr>"
  have hubs: "hub_eu \<in> set (Hubs (Document_Spec example_doc))" "hub_us \<in> set (Hubs (Document_Spec example_doc))"
      "hub_us \<noteq> hub_eu" "Self_Name ?self = Hub_Name hub_eu"
    by (simp_all add: example_simps)
  obtain ps where ps: "PeersFor example_ParseKey example_LookupIP example_doc ?self example_registry 25 = Inr ps"
    using hub_PeersFor [OF wf_example example_complete hubs(1,4)] by auto
  define p where "p = mesh_peer example_ParseKey example_LookupIP example_doc (index_registry example_registry Map.empty) 25 hub_us"
  have "index_registry example_registry Map.empty (Hub_Name hub_us) \<noteq> None"
    using example_complete hubs(2) unfolding registry_complete_def by force
  then have p: "p \<in> set ps"
    using PeersFor_hub_members [OF wf_example hubs(1,4) _ ps, of p] hubs unfolding p_def by auto
  have "behind example_doc hub_us (Addr4 0x64400114)"
    by (simp add: behind_def AgentsForHub_def example_simps)
  then have c: "covers p (Addr4 0x64400114)" using mesh_peer_covers [OF wf_example hubs(2)] by (simp add: p_def)
  show ?thesis using hub_allowed_ips_disjoint [OF wf_example example_self(1) _ ps p _ c] ps p c by auto
qed

theorem spoke_peers_hub_only_witness:
  "\<exists>ps. PeersFor example_ParseKey example_LookupIP example_doc
      \<lparr>Self_Name = ''dev-laptop'', Self_Role = ROLE_SPOKE, Self_TunnelIP = Addr4 0x6440010A, Self_HubName = ''hub-eu''\<rparr>
      example_registry 25 = Inr ps"
proof -
  have "index_registry example_registry Map.empty ''hub-eu'' = example_info ''hub-eu'' ''hub-eu.example.com:51820''"
    by (simp add: example_registry_def example_info_def)
  then show ?thesis
    unfolding spoke_peers_hub_only [OF wf_example example_self(2), simplified]
    by (auto simp: example_info_def example_resolve example_ParseKey_def example_simps)
qed

theorem server_gives_contacts_only_witness:
  "PeersFor example_ParseKey example_LookupIP example_doc
      \<lparr>Self_Name = ''dev-laptop'', Self_Role = ROLE_SPOKE, Self_TunnelIP = Addr4 0x6440010A, Self_HubName = ''hub-eu''\<rparr>
      (map (map_option (Info_LastSeen_update (\<lambda>_. Some zero_Time))) example_registry) 25 =
   PeersFor example_ParseKey example_LookupIP example_doc
      \<lparr>Self_Name = ''dev-laptop'', Self_Role = ROLE_SPOKE, Self_TunnelIP = Addr4 0x6440010A, Self_HubName = ''hub-eu''\<rparr>
      example_registry 25"
  by (rule server_gives_contacts_only [OF wf_example example_self(2), THEN conjunct1, rule_format])
    (auto simp: contact_def option.map_comp comp_def cong: map_option_cong)

end
