(* ===== verification/Controlplane.thy ===== *)
theory Controlplane
  imports Store Grpc Topology
begin

text \<open>
  Package \<^verbatim>\<open>internal/controlplane\<close>: the bearer-token interceptor (\<^verbatim>\<open>auth.go\<close>), the view of the
  network document (\<^verbatim>\<open>spec.go\<close>) and the two handlers (\<^verbatim>\<open>server.go\<close>). A request context is its
  metadata and the agent the interceptor attached. The state is the database of the store; the
  document provider is a function of a state \<open>'w\<close> of its own, which changes between requests.
  Random bytes and the clock readings are arguments. A reply is a status or a message. The
  theorems are about sequences of requests, with the document changing and statements failing at
  any point: who is admitted, which token is valid, what the registry holds and what a heartbeat
  answers.
\<close>

section \<open>Statuses and contexts\<close>

datatype Code = InvalidArgument | Unauthenticated | Unavailable | PermissionDenied | Internal

datatype cause = TextCause string | StoreCause StoreError

datatype rpc_message = Text string | TextOf string cause | NameNotDeclared string

datatype RPCStatus = StatusErr Code rpc_message

fun status_code :: "RPCStatus \<Rightarrow> Code" where "status_code (StatusErr c m) = c"

record Ctx =
  Ctx_Metadata :: "(string \<Rightarrow> string list) option"
  Ctx_Agent :: "StoreAgent option"

section \<open>auth.go\<close>

definition AgentFromContext :: "Ctx \<Rightarrow> StoreAgent option" where
  "AgentFromContext ctx = Ctx_Agent ctx"

definition withAgent :: "Ctx \<Rightarrow> StoreAgent \<Rightarrow> Ctx" where
  "withAgent ctx a = ctx\<lparr>Ctx_Agent := Some a\<rparr>"

text \<open>The outcome of \<^verbatim>\<open>rand.Read\<close> on the buffer is the argument: an error or the bytes read.\<close>

definition generateAuthToken :: "string + byte list \<Rightarrow> string + string" where
  "generateAuthToken rand = bind_res rand (\<lambda>buf. Inr (RawURL_EncodeToString buf))"

definition generateAgentID :: "string + byte list \<Rightarrow> string + string" where
  "generateAgentID rand = bind_res rand (\<lambda>buf. Inr (hex_EncodeToString buf))"

definition constantTimeEqual :: "string \<Rightarrow> string \<Rightarrow> bool" where
  "constantTimeEqual a b \<longleftrightarrow> ConstantTimeCompare (bytes_of a) (bytes_of b) = 1"

definition seineToken :: "(string \<Rightarrow> string list) \<Rightarrow> RPCStatus + string" where
  "seineToken md =
     (case md ''x-seine-token'' of
        v # _ \<Rightarrow> Inr (TrimSpace v)
      | [] \<Rightarrow> Inl (StatusErr Unauthenticated (Text ''missing bearer token'')))"

definition tokenFromMetadata :: "Ctx \<Rightarrow> RPCStatus + string" where
  "tokenFromMetadata ctx =
     (case Ctx_Metadata ctx of
        None \<Rightarrow> Inl (StatusErr Unauthenticated (Text ''missing metadata''))
      | Some md \<Rightarrow>
          (case md ''authorization'' of
             v # _ \<Rightarrow>
               (let prefix = ''bearer '' in
                if length v > length prefix \<and> EqualFold_ascii (take (length prefix) v) prefix
                then Inr (TrimSpace (drop (length prefix) v))
                else seineToken md)
           | [] \<Rightarrow> seineToken md))"

definition AuthInterceptor ::
    "'db sqldb \<Rightarrow> string set \<Rightarrow> Ctx \<Rightarrow> 'req \<Rightarrow> string \<Rightarrow> (Ctx \<Rightarrow> 'req \<Rightarrow> 'db \<Rightarrow> (RPCStatus + 'resp) \<times> 'db) \<Rightarrow>
     'db \<Rightarrow> (RPCStatus + 'resp) \<times> 'db" where
  "AuthInterceptor D skip ctx req fullMethod handler db =
     (if fullMethod \<in> skip then handler ctx req db
      else case tokenFromMetadata ctx of
             Inl st \<Rightarrow> (Inl st, db)
           | Inr token \<Rightarrow>
               (case AuthenticateByTokenHash D (HashToken token) db of
                  (Inl err, db') \<Rightarrow>
                    if err = ErrNotFound
                    then (Inl (StatusErr Unauthenticated (Text ''invalid bearer token'')), db')
                    else (Inl (StatusErr Internal (TextOf ''auth lookup: '' (StoreCause err))), db')
                | (Inr agent, db') \<Rightarrow> handler (withAgent ctx agent) req db'))"

section \<open>spec.go\<close>

type_synonym 'w SpecProvider = "'w \<Rightarrow> string + Document option \<times> string"

definition resolveRole :: "Document option \<Rightarrow> string \<Rightarrow> Role \<times> Hub option \<times> Agent option" where
  "resolveRole doc name =
     (case doc of
        None \<Rightarrow> (ROLE_UNSPECIFIED, None, None)
      | Some d \<Rightarrow>
          (case FindHub d name of
             Some h \<Rightarrow> (ROLE_HUB, Some h, None)
           | None \<Rightarrow>
               (case FindAgent d name of
                  Some a \<Rightarrow> (ROLE_SPOKE, None, Some a)
                | None \<Rightarrow> (ROLE_UNSPECIFIED, None, None))))"

definition tunnelIPFor :: "Document option \<Rightarrow> string \<Rightarrow> string" where
  "tunnelIPFor doc name =
     (case doc of
        None \<Rightarrow> []
      | Some d \<Rightarrow>
          (case FindHub d name of
             Some h \<Rightarrow> Hub_TunnelIP h
           | None \<Rightarrow> (case FindAgent d name of Some a \<Rightarrow> Agent_TunnelIP a | None \<Rightarrow> [])))"

section \<open>server.go\<close>

record ('db, 'w) Config =
  Config_Store :: "'db sqldb option"
  Config_Spec :: "'w SpecProvider option"
  Config_BootstrapToken :: string

record ('db, 'w) Server =
  Server_Store :: "'db sqldb"
  Server_Spec :: "'w SpecProvider"
  Server_BootstrapToken :: string

definition NewServer :: "('db, 'w) Config \<Rightarrow> string + ('db, 'w) Server" where
  "NewServer cfg =
     (case Config_Store cfg of
        None \<Rightarrow> Inl ''controlplane: Store is required''
      | Some s \<Rightarrow>
          (case Config_Spec cfg of
             None \<Rightarrow> Inl ''controlplane: Spec is required''
           | Some p \<Rightarrow>
               if Config_BootstrapToken cfg = [] then Inl ''controlplane: BootstrapToken is required''
               else Inr \<lparr>Server_Store = s, Server_Spec = p, Server_BootstrapToken = Config_BootstrapToken cfg\<rparr>))"

definition SkipAuthMethods :: "string set" where
  "SkipAuthMethods = {Register_FullMethodName}"

text \<open>The random bytes and the clock a request sees.\<close>

record Env =
  Env_RandID :: "string + byte list"
  Env_RandToken :: "string + byte list"
  Env_Now :: Time
  Env_StoreNow :: Time

definition Register ::
    "('db, 'w) Server \<Rightarrow> 'w \<Rightarrow> Env \<Rightarrow> Ctx \<Rightarrow> RegisterRequest \<Rightarrow> 'db \<Rightarrow> (RPCStatus + RegisterResponse) \<times> 'db" where
  "Register s w env ctx req db =
     (if Reg_Name req = [] then (Inl (StatusErr InvalidArgument (Text ''name is required'')), db)
      else if Reg_PublicKey req = [] then (Inl (StatusErr InvalidArgument (Text ''public_key is required'')), db)
      else if \<not> constantTimeEqual (Reg_BootstrapToken req) (Server_BootstrapToken s)
      then (Inl (StatusErr Unauthenticated (Text ''invalid bootstrap token'')), db)
      else case Server_Spec s w of
        Inl err \<Rightarrow> (Inl (StatusErr Unavailable (TextOf ''spec not yet loaded: '' (TextCause err))), db)
      | Inr (doc, _) \<Rightarrow>
          (case resolveRole doc (Reg_Name req) of
             (role, hub, _) \<Rightarrow>
               if role = ROLE_UNSPECIFIED
               then (Inl (StatusErr PermissionDenied (NameNotDeclared (Reg_Name req))), db)
               else
                 let endpoint = (if role = ROLE_HUB \<and> Reg_Endpoint req = [] \<and> hub \<noteq> None
                                 then Hub_Endpoint (the hub) else Reg_Endpoint req)
                 in case generateAgentID (Env_RandID env) of
                      Inl e \<Rightarrow> (Inl (StatusErr Internal (TextOf ''id: '' (TextCause e))), db)
                    | Inr ident \<Rightarrow>
                        (case generateAuthToken (Env_RandToken env) of
                           Inl e \<Rightarrow> (Inl (StatusErr Internal (TextOf ''token: '' (TextCause e))), db)
                         | Inr tok \<Rightarrow>
                             let now = Env_Now env;
                                 a = \<lparr>SA_ID = ident, SA_Name = Reg_Name req, SA_PublicKey = Reg_PublicKey req,
                                      SA_Endpoint = endpoint, SA_AuthTokenHash = HashToken tok,
                                      SA_CreatedAt = now, SA_LastSeenAt = now\<rparr>
                             in case UpsertAgent (Server_Store s) (Env_StoreNow env) a db of
                                  (Some e, db') \<Rightarrow> (Inl (StatusErr Internal (TextOf ''persist: '' (StoreCause e))), db')
                                | (None, db') \<Rightarrow> (Inr \<lparr>Resp_AuthToken = tok\<rparr>, db'))))"

fun peerInfos :: "Document option \<Rightarrow> StoreAgent \<Rightarrow> HeartbeatRequest \<Rightarrow> StoreAgent list \<Rightarrow> PeerInfo option list" where
  "peerInfos doc caller req [] = []"
| "peerInfos doc caller req (a # all) =
     (case resolveRole doc (SA_Name a) of
        (role, _, _) \<Rightarrow>
          if role = ROLE_UNSPECIFIED then peerInfos doc caller req all
          else
            let ep = (if SA_ID a = SA_ID caller \<and> HB_Endpoint req \<noteq> [] then HB_Endpoint req else SA_Endpoint a)
            in Some \<lparr>Info_Name = SA_Name a, Info_PublicKey = SA_PublicKey a, Info_Endpoint = ep,
                     Info_TunnelIp = tunnelIPFor doc (SA_Name a), Info_LastSeen = Some (SA_LastSeenAt a),
                     Info_Role = role\<rparr> # peerInfos doc caller req all)"

definition Heartbeat ::
    "('db, 'w) Server \<Rightarrow> 'w \<Rightarrow> Env \<Rightarrow> Ctx \<Rightarrow> HeartbeatRequest \<Rightarrow> 'db \<Rightarrow> (RPCStatus + HeartbeatResponse) \<times> 'db" where
  "Heartbeat s w env ctx req db =
     (case AgentFromContext ctx of
        None \<Rightarrow> (Inl (StatusErr Unauthenticated (Text ''auth context missing'')), db)
      | Some caller \<Rightarrow>
          (case Server_Spec s w of
             Inl err \<Rightarrow> (Inl (StatusErr Unavailable (TextOf ''spec not yet loaded: '' (TextCause err))), db)
           | Inr (doc, commit) \<Rightarrow>
               (case UpdateHeartbeat (Server_Store s) (SA_ID caller) (HB_Endpoint req) (Env_Now env) db of
                  (Some e, db1) \<Rightarrow> (Inl (StatusErr Internal (TextOf ''heartbeat: '' (StoreCause e))), db1)
                | (None, db1) \<Rightarrow>
                    (case ListAgents (Server_Store s) db1 of
                       (Inl e, db2) \<Rightarrow> (Inl (StatusErr Internal (TextOf ''list: '' (StoreCause e))), db2)
                     | (Inr all, db2) \<Rightarrow>
                         (Inr \<lparr>HB_SpecCommit = commit, HB_Peers = peerInfos doc caller req all\<rparr>, db2)))))"

datatype description = ListError StoreError | Registered nat

definition describe :: "('db, 'w) Server \<Rightarrow> 'db \<Rightarrow> description \<times> 'db" where
  "describe s db =
     (case ListAgents (Server_Store s) db of
        (Inl e, db') \<Rightarrow> (ListError e, db')
      | (Inr all, db') \<Rightarrow> (Registered (length all), db'))"

section \<open>The service\<close>

text \<open>
  The generated method handlers, on a decoded request and with the interceptor the command builds the
  gRPC server with. The context of a request off the wire carries no agent.
\<close>

datatype Request = RegisterCall RegisterRequest | HeartbeatCall HeartbeatRequest
datatype Reply = RegisterReply RegisterResponse | HeartbeatReply HeartbeatResponse

definition Register_Handler ::
    "('db, 'w) Server \<Rightarrow> 'w \<Rightarrow> Env \<Rightarrow> Ctx \<Rightarrow> RegisterRequest \<Rightarrow> 'db \<Rightarrow> (RPCStatus + RegisterResponse) \<times> 'db" where
  "Register_Handler s w env ctx req db =
     ControlPlane_Register_Handler (Register s w env) ctx (Inr req) (Some (AuthInterceptor (Server_Store s) SkipAuthMethods)) db"

definition Heartbeat_Handler ::
    "('db, 'w) Server \<Rightarrow> 'w \<Rightarrow> Env \<Rightarrow> Ctx \<Rightarrow> HeartbeatRequest \<Rightarrow> 'db \<Rightarrow> (RPCStatus + HeartbeatResponse) \<times> 'db" where
  "Heartbeat_Handler s w env ctx req db =
     ControlPlane_Heartbeat_Handler (Heartbeat s w env) ctx (Inr req) (Some (AuthInterceptor (Server_Store s) SkipAuthMethods)) db"

text \<open>The methods of the service on bytes, and \<open>AttachTo\<close>, which hands them to the registrar of a gRPC server.\<close>

definition register_method ::
    "(RPCStatus, 'b) codec \<Rightarrow> ('db, 'w) Server \<Rightarrow> 'w \<Rightarrow> Env \<Rightarrow> Ctx \<Rightarrow> 'b \<Rightarrow> 'db \<Rightarrow> (RPCStatus + 'b) \<times> 'db" where
  "register_method C s w env ctx =
     over_bytes (unmarshal_RegisterRequest C) (marshal_RegisterResponse C)
       (\<lambda>decoded. ControlPlane_Register_Handler (Register s w env) ctx decoded (Some (AuthInterceptor (Server_Store s) SkipAuthMethods)))"

definition heartbeat_method ::
    "(RPCStatus, 'b) codec \<Rightarrow> ('db, 'w) Server \<Rightarrow> 'w \<Rightarrow> Env \<Rightarrow> Ctx \<Rightarrow> 'b \<Rightarrow> 'db \<Rightarrow> (RPCStatus + 'b) \<times> 'db" where
  "heartbeat_method C s w env ctx =
     over_bytes (unmarshal_HeartbeatRequest C) (marshal_HeartbeatResponse C)
       (\<lambda>decoded. ControlPlane_Heartbeat_Handler (Heartbeat s w env) ctx decoded (Some (AuthInterceptor (Server_Store s) SkipAuthMethods)))"

definition AttachTo ::
    "((Ctx \<Rightarrow> 'b \<Rightarrow> 'db \<Rightarrow> (RPCStatus + 'b) \<times> 'db) ServiceDesc \<Rightarrow> 'r \<Rightarrow> 'r) \<Rightarrow> (RPCStatus, 'b) codec \<Rightarrow> ('db, 'w) Server \<Rightarrow> 'w \<Rightarrow> Env \<Rightarrow> 'r \<Rightarrow> 'r" where
  "AttachTo registerService C s w env srv =
     RegisterControlPlaneServer registerService (register_method C s w env) (heartbeat_method C s w env) srv"

record 'w Call =
  call_world :: 'w
  call_env :: Env
  call_metadata :: "(string \<Rightarrow> string list) option"
  call_request :: Request

definition serve :: "('db, 'w) Server \<Rightarrow> 'w Call \<Rightarrow> 'db \<Rightarrow> (RPCStatus + Reply) \<times> 'db" where
  "serve s c db =
     (let ctx = \<lparr>Ctx_Metadata = call_metadata c, Ctx_Agent = None\<rparr> in
      case call_request c of
        RegisterCall req \<Rightarrow> apfst (map_sum id RegisterReply) (Register_Handler s (call_world c) (call_env c) ctx req db)
      | HeartbeatCall req \<Rightarrow> apfst (map_sum id HeartbeatReply) (Heartbeat_Handler s (call_world c) (call_env c) ctx req db))"

fun serve_all :: "('db, 'w) Server \<Rightarrow> 'w Call list \<Rightarrow> 'db \<Rightarrow> (RPCStatus + Reply) list \<times> 'db" where
  "serve_all s [] db = ([], db)"
| "serve_all s (c # cs) db = (case serve s c db of (r, db1) \<Rightarrow> apfst ((#) r) (serve_all s cs db1))"

text \<open>The last accepted registration of each name, with the token it was given.\<close>

fun issue :: "'w Call \<times> (RPCStatus + Reply) \<Rightarrow> (string \<rightharpoonup> RegisterRequest \<times> string) \<Rightarrow> (string \<rightharpoonup> RegisterRequest \<times> string)" where
  "issue (c, r) m =
     (case (call_request c, r) of
        (RegisterCall req, Inr (RegisterReply resp)) \<Rightarrow> m(Reg_Name req \<mapsto> (req, Resp_AuthToken resp))
      | _ \<Rightarrow> m)"

definition issued :: "'w Call list \<Rightarrow> (RPCStatus + Reply) list \<Rightarrow> (string \<rightharpoonup> RegisterRequest \<times> string)" where
  "issued cs rs = fold issue (zip cs rs) Map.empty"

section \<open>Handlers\<close>

lemma constantTimeEqual_iff: "constantTimeEqual a b \<longleftrightarrow> a = b"
  unfolding constantTimeEqual_def ConstantTimeCompare_iff bytes_of_inj by (rule refl)

definition role_of :: "Document option \<Rightarrow> string \<Rightarrow> Role" where
  "role_of doc n = fst (resolveRole doc n)"

definition declared :: "Document option \<Rightarrow> string \<Rightarrow> bool" where
  "declared doc n \<longleftrightarrow> role_of doc n \<noteq> ROLE_UNSPECIFIED"

lemma declared_iff:
  "declared doc n \<longleftrightarrow>
     (\<exists>d. doc = Some d \<and> (n \<in> Hub_Name ` set (Hubs (Document_Spec d)) \<or> n \<in> Agent_Name ` set (Agents (Document_Spec d))))"
  by (auto simp: declared_def role_of_def resolveRole_def hubs.lookup_None_iff agents.lookup_None_iff
      dest: hubs.lookup_SomeD agents.lookup_SomeD split: option.splits)

text \<open>The endpoint a registration is stored with, and the row it writes.\<close>

definition reg_endpoint :: "Document option \<Rightarrow> RegisterRequest \<Rightarrow> string" where
  "reg_endpoint doc req =
     (case resolveRole doc (Reg_Name req) of (role, hub, _) \<Rightarrow>
        if role = ROLE_HUB \<and> Reg_Endpoint req = [] \<and> hub \<noteq> None then Hub_Endpoint (the hub) else Reg_Endpoint req)"

definition reg_agent :: "Document option \<Rightarrow> Env \<Rightarrow> RegisterRequest \<Rightarrow> string \<Rightarrow> string \<Rightarrow> StoreAgent" where
  "reg_agent doc env req ident tok =
     \<lparr>SA_ID = ident, SA_Name = Reg_Name req, SA_PublicKey = Reg_PublicKey req, SA_Endpoint = reg_endpoint doc req,
      SA_AuthTokenHash = HashToken tok, SA_CreatedAt = Env_Now env, SA_LastSeenAt = Env_Now env\<rparr>"

definition admissible :: "('db, 'w) Server \<Rightarrow> 'w \<Rightarrow> RegisterRequest \<Rightarrow> bool" where
  "admissible s w req \<longleftrightarrow> Reg_Name req \<noteq> [] \<and> Reg_PublicKey req \<noteq> [] \<and>
     Reg_BootstrapToken req = Server_BootstrapToken s \<and>
     (\<exists>doc commit. Server_Spec s w = Inr (doc, commit) \<and> declared doc (Reg_Name req))"

lemma Register_admissible:
  assumes "admissible s w req" "Server_Spec s w = Inr (doc, commit)"
    and "Env_RandID env = Inr ib" "Env_RandToken env = Inr tb"
  shows "Register s w env ctx req db =
    (let tok = RawURL_EncodeToString tb;
         r = UpsertAgent (Server_Store s) (Env_StoreNow env) (reg_agent doc env req (hex_EncodeToString ib) tok) db
     in (case fst r of None \<Rightarrow> Inr \<lparr>Resp_AuthToken = tok\<rparr> | Some e \<Rightarrow> Inl (StatusErr Internal (TextOf ''persist: '' (StoreCause e))), snd r))"
  using assms
  by (auto simp: Register_def admissible_def declared_def role_of_def constantTimeEqual_iff reg_agent_def reg_endpoint_def
      generateAgentID_def generateAuthToken_def Let_def split: prod.splits option.splits)

lemma Register_inadmissible:
  "\<not> admissible s w req \<or> (\<exists>e. Env_RandID env = Inl e \<or> Env_RandToken env = Inl e) \<Longrightarrow>
     \<exists>st. Register s w env ctx req db = (Inl st, db)"
  by (auto simp: Register_def admissible_def declared_def role_of_def constantTimeEqual_iff
      generateAgentID_def generateAuthToken_def Let_def split: prod.splits option.splits sum.splits)

lemma Register_ok:
  assumes "Register s w env ctx req db = (Inr resp, db')"
  obtains doc commit ib tb where "admissible s w req" "Server_Spec s w = Inr (doc, commit)"
    "Env_RandID env = Inr ib" "Env_RandToken env = Inr tb" "Resp_AuthToken resp = RawURL_EncodeToString tb"
    "UpsertAgent (Server_Store s) (Env_StoreNow env)
       (reg_agent doc env req (hex_EncodeToString ib) (Resp_AuthToken resp)) db = (None, db')"
proof -
  have adm: "admissible s w req" and "\<nexists>e. Env_RandID env = Inl e" "\<nexists>e. Env_RandToken env = Inl e"
    using Register_inadmissible [of s w req env ctx db] assms by fastforce+
  then obtain ib tb where r: "Env_RandID env = Inr ib" "Env_RandToken env = Inr tb" by (metis sum.exhaust)
  obtain doc commit where d: "Server_Spec s w = Inr (doc, commit)" using adm by (auto simp: admissible_def)
  show thesis
    using assms by (intro that [OF adm d r]) (auto simp: Register_admissible [OF adm d r] Let_def
          split: option.splits prod.splits intro: prod_eqI)
qed

lemma Register_err:
  assumes "Register s w env ctx req db = (Inl st, db')"
  shows "db' = db \<or> (\<exists>now a e. UpsertAgent (Server_Store s) now a db = (Some e, db'))"
proof (cases "admissible s w req \<and> (\<exists>ib tb. Env_RandID env = Inr ib \<and> Env_RandToken env = Inr tb)")
  case True
  then obtain ib tb doc commit where r: "admissible s w req" "Server_Spec s w = Inr (doc, commit)"
      "Env_RandID env = Inr ib" "Env_RandToken env = Inr tb" by (auto simp: admissible_def)
  then show ?thesis using assms
    by (auto simp: Register_admissible [OF r] Let_def split: option.splits prod.splits) (metis prod.collapse)
next
  case False
  then have "\<not> admissible s w req \<or> (\<exists>e. Env_RandID env = Inl e \<or> Env_RandToken env = Inl e)" by (metis sum.exhaust)
  then show ?thesis using Register_inadmissible assms by (metis prod.inject)
qed

lemma method_names: "Register_FullMethodName \<in> SkipAuthMethods" "Heartbeat_FullMethodName \<notin> SkipAuthMethods"
  by (simp_all add: SkipAuthMethods_def Register_FullMethodName_def Heartbeat_FullMethodName_def)

lemmas heartbeat_handler_simps = Heartbeat_Handler_def ControlPlane_Heartbeat_Handler_def AuthInterceptor_def method_names

lemma Register_Handler_eq: "Register_Handler s w env ctx req db = Register s w env ctx req db"
  by (simp add: Register_Handler_def ControlPlane_Register_Handler_def AuthInterceptor_def method_names)

text \<open>A heartbeat leaves the registry, or touches the caller's row.\<close>

lemma Heartbeat_state:
  assumes L: "sql_laws (Server_Store s) tbl" and t: "tbl db = Some t" and ok: "table_ok t"
    and run: "Heartbeat s w env ctx req db = (r, db')"
  obtains t' where "tbl db' = Some t'" "table_ok t'"
    "row_of t' = row_of t \<or> (\<exists>c. row_of t' = (\<lambda>n. map_option (touch c (HB_Endpoint req) (Env_Now env)) (row_of t n)))"
proof -
  have "db' = db \<or> (\<exists>c db1 err. UpdateHeartbeat (Server_Store s) c (HB_Endpoint req) (Env_Now env) db = (err, db1) \<and>
      (db' = db1 \<or> (\<exists>x. ListAgents (Server_Store s) db1 = (x, db'))))"
    using run by (simp add: Heartbeat_def split: option.splits sum.splits prod.splits) blast+
  then show thesis
  proof (elim disjE exE conjE)
    assume "db' = db"
    then show thesis using that t ok by blast
  next
    fix c db1 err
    assume u: "UpdateHeartbeat (Server_Store s) c (HB_Endpoint req) (Env_Now env) db = (err, db1)"
    obtain t1 where t1: "tbl db1 = Some t1" "table_ok t1"
        "reg_step (row_of t) (OpHeartbeat c (HB_Endpoint req) (Env_Now env)) (Done err) (row_of t1)"
      using heartbeat_refines [OF L t ok u] by blast
    then have r: "row_of t1 = row_of t \<or> row_of t1 = (\<lambda>n. map_option (touch c (HB_Endpoint req) (Env_Now env)) (row_of t n))"
      by (auto simp: reg_step_heartbeat)
    note res = that [OF _ t1(2), unfolded t1(1)]
    show thesis if "db' = db1" using res r that by (auto simp: t1(1))
    show thesis if "ListAgents (Server_Store s) db1 = (x, db')" for x
      using res r ListAgents_keeps [OF L that] by (auto simp: t1(1))
  qed
qed

lemma Heartbeat_Handler_state:
  assumes L: "sql_laws (Server_Store s) tbl" and t: "tbl db = Some t" and ok: "table_ok t"
    and run: "Heartbeat_Handler s w env ctx req db = (r, db')"
  obtains t' where "tbl db' = Some t'" "table_ok t'"
    "row_of t' = row_of t \<or> (\<exists>c. row_of t' = (\<lambda>n. map_option (touch c (HB_Endpoint req) (Env_Now env)) (row_of t n)))"
proof (cases "tokenFromMetadata ctx")
  case (Inl st)
  then show thesis using run that t ok by (auto simp: heartbeat_handler_simps)
next
  case (Inr token)
  obtain x db1 where a: "AuthenticateByTokenHash (Server_Store s) (HashToken token) db = (x, db1)" by fastforce
  then have t1: "tbl db1 = Some t" using auth_refines [OF L t ok] by blast
  consider "db' = db1" | agent where "Heartbeat s w env (withAgent ctx agent) req db1 = (r, db')"
    using run Inr a by (auto simp: heartbeat_handler_simps split: sum.splits if_splits)
  then show thesis using that t1 ok Heartbeat_state [OF L t1 ok] by cases blast+
qed

section \<open>The registry over time\<close>

definition registered_as :: "('db, 'w) Server \<Rightarrow> string \<Rightarrow> Row \<Rightarrow> RegisterRequest \<times> string \<Rightarrow> bool" where
  "registered_as s n r q \<longleftrightarrow>
     row_public_key r = Reg_PublicKey (fst q) \<and> row_auth_token_hash r = HashToken (snd q) \<and>
     Reg_Name (fst q) = n \<and> n \<noteq> [] \<and> Reg_PublicKey (fst q) \<noteq> [] \<and> Reg_BootstrapToken (fst q) = Server_BootstrapToken s"

definition holds_issued :: "('db, 'w) Server \<Rightarrow> Row list \<Rightarrow> (string \<rightharpoonup> RegisterRequest \<times> string) \<Rightarrow> bool" where
  "holds_issued s t m \<longleftrightarrow> (\<forall>n. rel_option (registered_as s n) (row_of t n) (m n))"

lemma registered_as_touch [simp]: "registered_as s n (touch i ep w r) = registered_as s n r"
  by (simp add: fun_eq_iff registered_as_def)

lemma holds_issued_rows: "holds_issued s t m \<Longrightarrow> row_of t n = Some r \<Longrightarrow> \<exists>q. m n = Some q \<and> registered_as s n r q"
  unfolding holds_issued_def by (metis option_rel_Some1)

lemma holds_issued_names: "holds_issued s t m \<Longrightarrow> m n = Some q \<Longrightarrow> \<exists>r. row_of t n = Some r \<and> registered_as s n r q"
  unfolding holds_issued_def by (metis option_rel_Some2)

lemma holds_issued_touch:
  "holds_issued s t m \<Longrightarrow> row_of t' = (\<lambda>n. map_option (touch i ep w) (row_of t n)) \<Longrightarrow> holds_issued s t' m"
  by (simp add: holds_issued_def option.rel_map)

lemma serve_step:
  assumes L: "sql_laws (Server_Store s) tbl" and t: "tbl db = Some t" and ok: "table_ok t" and m: "holds_issued s t m"
    and run: "serve s c db = (r, db')"
  shows "\<exists>t'. tbl db' = Some t' \<and> table_ok t' \<and> holds_issued s t' (issue (c, r) m)"
proof (cases "call_request c")
  case (RegisterCall req)
  let ?ctx = "\<lparr>Ctx_Metadata = call_metadata c, Ctx_Agent = None\<rparr>"
  obtain r' where r': "Register s (call_world c) (call_env c) ?ctx req db = (r', db')" "r = map_sum id RegisterReply r'"
    using run RegisterCall by (cases "Register s (call_world c) (call_env c) ?ctx req db") (auto simp: serve_def Register_Handler_eq)
  show ?thesis
  proof (cases r')
    case (Inl st)
    then have "tbl db' = Some t"
      using Register_err [OF r'(1) [unfolded Inl]] t UpsertAgent_err [OF L] by metis
    then show ?thesis using ok m r'(2) Inl RegisterCall by auto
  next
    case (Inr resp)
    from r'(1) [unfolded Inr] obtain doc ib where adm: "admissible s (call_world c) req" and
      u: "UpsertAgent (Server_Store s) (Env_StoreNow (call_env c))
            (reg_agent doc (call_env c) req (hex_EncodeToString ib) (Resp_AuthToken resp)) db = (None, db')"
      by (rule Register_ok)
    obtain t' where t': "tbl db' = Some t'" "table_ok t'" "reg_step (row_of t) (OpUpsert (Env_StoreNow (call_env c))
        (reg_agent doc (call_env c) req (hex_EncodeToString ib) (Resp_AuthToken resp))) (Done None) (row_of t')"
      using upsert_refines [OF L t ok u] by blast
    then have "holds_issued s t' (issue (c, r) m)" using m adm
      by (simp add: reg_step_upsert holds_issued_def registered_as_def admissible_def r'(2) Inr RegisterCall reg_agent_def)
    then show ?thesis using t' by blast
  qed
next
  case (HeartbeatCall req)
  let ?ctx = "\<lparr>Ctx_Metadata = call_metadata c, Ctx_Agent = None\<rparr>"
  obtain r' where r': "Heartbeat_Handler s (call_world c) (call_env c) ?ctx req db = (r', db')" "r = map_sum id HeartbeatReply r'"
    using run HeartbeatCall by (cases "Heartbeat_Handler s (call_world c) (call_env c) ?ctx req db") (auto simp: serve_def)
  have "issue (c, r) m = m" using r'(2) HeartbeatCall by (cases r') auto
  moreover obtain t' where t': "tbl db' = Some t'" "table_ok t'"
    "row_of t' = row_of t \<or> (\<exists>k. row_of t' = (\<lambda>n. map_option (touch k (HB_Endpoint req) (Env_Now (call_env c))) (row_of t n)))"
    by (rule Heartbeat_Handler_state [OF L t ok r'(1)])
  moreover have "holds_issued s t' m"
    using t'(3) m holds_issued_touch [OF m] by (auto simp: holds_issued_def)
  ultimately show ?thesis by auto
qed

lemma serve_all_step:
  assumes L: "sql_laws (Server_Store s) tbl"
  shows "tbl db = Some t \<Longrightarrow> table_ok t \<Longrightarrow> holds_issued s t m \<Longrightarrow> serve_all s cs db = (rs, db') \<Longrightarrow>
    \<exists>t'. tbl db' = Some t' \<and> table_ok t' \<and> holds_issued s t' (fold issue (zip cs rs) m)"
proof (induction cs arbitrary: db t m rs)
  case (Cons c cs)
  obtain r db1 where r: "serve s c db = (r, db1)" by fastforce
  then obtain rs1 where rs1: "serve_all s cs db1 = (rs1, db')" "rs = r # rs1"
    using Cons.prems(4) by (cases "serve_all s cs db1") auto
  obtain t1 where t1: "tbl db1 = Some t1" "table_ok t1" "holds_issued s t1 (issue (c, r) m)"
    using serve_step [OF L Cons.prems(1-3) r] by blast
  show ?case using Cons.IH [OF t1 rs1(1)] by (simp add: rs1(2))
qed auto

lemma holds_issued_empty: "holds_issued s [] Map.empty"
  by (simp add: holds_issued_def row_of_def)

text \<open>
  C6. The registry is exactly the last accepted registrations. From an empty table, after any
  sequence of requests, whatever the document was at each of them and whatever statements failed,
  the table has one row per name that was ever accepted, with the public key and the digest of the
  token of that name's last accepted registration; every accepted request carried the bootstrap
  token, a name and a key; names and identifiers are unique.
\<close>

theorem registry_last_registrations:
  assumes "sql_laws (Server_Store s) tbl" "tbl db = Some []" "serve_all s cs db = (rs, db')"
  shows "\<exists>t. tbl db' = Some t \<and> table_ok t \<and> holds_issued s t (issued cs rs)"
  using serve_all_step [OF assms(1,2) _ holds_issued_empty assms(3)] by (simp add: table_ok_def issued_def)


lemma Heartbeat_live:
  assumes "sql_laws (Server_Store s) tbl" "sql_live (Server_Store s) tbl" "tbl db = Some t" "table_ok t"
    and "Server_Spec s w = Inr (doc, commit)" "AgentFromContext ctx = Some c"
  shows "is_ok (fst (Heartbeat s w env ctx req db))"
proof -
  obtain db1 where u: "UpdateHeartbeat (Server_Store s) (SA_ID c) (HB_Endpoint req) (Env_Now env) db = (None, db1)"
    using UpdateHeartbeat_live [OF assms(2,3)] by blast
  then obtain t1 where "tbl db1 = Some t1" using heartbeat_refines [OF assms(1,3,4)] by blast
  then obtain out db2 where "ListAgents (Server_Store s) db1 = (Inr out, db2)" using ListAgents_live [OF assms(2)] by blast
  then show ?thesis using u assms(5,6) by (simp add: Heartbeat_def)
qed

lemma serve_heartbeat:
  "call_request c = HeartbeatCall req \<Longrightarrow> serve s c db =
     apfst (map_sum id HeartbeatReply) (Heartbeat_Handler s (call_world c) (call_env c) \<lparr>Ctx_Metadata = call_metadata c, Ctx_Agent = None\<rparr> req db)"
  by (simp add: serve_def)

lemma is_ok_map_sum [simp]: "is_ok (map_sum f g x) \<longleftrightarrow> is_ok x"
  by (cases x) simp_all

lemma Heartbeat_Handler_live:
  fixes ctx :: Ctx
  assumes L: "sql_laws (Server_Store s) tbl" "sql_live (Server_Store s) tbl" and t: "tbl db = Some t" "table_ok t"
    and sp: "Server_Spec s w = Inr (doc, commit)"
  defines "valid \<equiv> \<exists>token n r. tokenFromMetadata ctx = Inr token \<and> row_of t n = Some r \<and> row_auth_token_hash r = HashToken token"
  shows "is_ok (fst (Heartbeat_Handler s w env ctx req db)) \<longleftrightarrow> valid"
    and "\<not> valid \<Longrightarrow> \<exists>m. fst (Heartbeat_Handler s w env ctx req db) = Inl (StatusErr Unauthenticated m)"
proof -
  have "(valid \<and> is_ok (fst (Heartbeat_Handler s w env ctx req db))) \<or>
    (\<not> valid \<and> (\<exists>m. fst (Heartbeat_Handler s w env ctx req db) = Inl (StatusErr Unauthenticated m)))"
  proof (cases "tokenFromMetadata ctx")
    case (Inl st)
    then have "\<exists>m. st = StatusErr Unauthenticated m"
      by (auto simp: tokenFromMetadata_def seineToken_def Let_def split: option.splits list.splits if_splits)
    then show ?thesis using Inl by (auto simp: valid_def heartbeat_handler_simps)
  next
    case (Inr token)
    obtain x db1 where a: "AuthenticateByTokenHash (Server_Store s) (HashToken token) db = (x, db1)" by fastforce
    then have t1: "tbl db1 = Some t" and step: "reg_step (row_of t) (OpAuthenticate (HashToken token)) (GotAgent x) (row_of t)"
      using auth_refines [OF L(1) t] by blast+
    show ?thesis
    proof (cases x)
      case (Inl e)
      then have "e = ErrNotFound" using Authenticate_live [OF L(2) t(1), of "HashToken token"] a by simp
      moreover have "\<not> valid" using step Inl calculation Inr by (auto simp: valid_def reg_step_not_found)
      ultimately show ?thesis using Inr Inl a by (simp add: heartbeat_handler_simps)
    next
      case (Inr agent)
      have "valid" using step \<open>tokenFromMetadata ctx = Inr token\<close> Inr by (auto simp: valid_def reg_step_found)
      moreover have "is_ok (fst (Heartbeat s w env (withAgent ctx agent) req db1))"
        by (rule Heartbeat_live [OF L t1 t(2) sp]) (simp add: AgentFromContext_def withAgent_def)
      ultimately show ?thesis using \<open>tokenFromMetadata ctx = Inr token\<close> Inr a
        by (simp add: heartbeat_handler_simps)
    qed
  qed
  then show "is_ok (fst (Heartbeat_Handler s w env ctx req db)) \<longleftrightarrow> valid"
    "\<not> valid \<Longrightarrow> \<exists>m. fst (Heartbeat_Handler s w env ctx req db) = Inl (StatusErr Unauthenticated m)" by auto
qed

lemma Heartbeat_Handler_refused:
  fixes ctx :: Ctx
  assumes L: "sql_laws (Server_Store s) tbl" "sql_live (Server_Store s) tbl" and t: "tbl db = Some t" "table_ok t"
    and no: "\<And>token r. tokenFromMetadata ctx = Inr token \<Longrightarrow> r \<in> set t \<Longrightarrow> row_auth_token_hash r \<noteq> HashToken token"
  shows "\<exists>m db'. Heartbeat_Handler s w env ctx req db = (Inl (StatusErr Unauthenticated m), db') \<and> tbl db' = Some t"
proof (cases "tokenFromMetadata ctx")
  case (Inl st)
  then have "\<exists>m. st = StatusErr Unauthenticated m"
    by (auto simp: tokenFromMetadata_def seineToken_def Let_def split: option.splits list.splits if_splits)
  then show ?thesis using Inl t(1) by (auto simp: heartbeat_handler_simps)
next
  case (Inr token)
  obtain x db1 where a: "AuthenticateByTokenHash (Server_Store s) (HashToken token) db = (x, db1)" by fastforce
  note step = auth_refines [OF L(1) t a]
  have "x = Inl ErrNotFound"
  proof (cases x)
    case (Inl e)
    then show ?thesis using Authenticate_live [OF L(2) t(1), of "HashToken token"] a by simp
  next
    case (Inr agent)
    then show ?thesis using step no [OF \<open>tokenFromMetadata ctx = Inr token\<close>] row_of_SomeD by (fastforce simp: reg_step_found)
  qed
  then show ?thesis using Inr a step by (simp add: heartbeat_handler_simps)
qed

text \<open>
  C2. After any sequence of requests, a heartbeat is answered exactly when the token it presents has
  the digest of the token some name was given at its last accepted registration; any other, the
  tokens of superseded registrations among them, is refused as unauthenticated.
\<close>

theorem heartbeat_needs_current_token:
  assumes "sql_laws (Server_Store s) tbl" "sql_live (Server_Store s) tbl"
    and "tbl db0 = Some []" "serve_all s cs db0 = (rs, db)"
    and "call_request c = HeartbeatCall req" "Server_Spec s (call_world c) = Inr (doc, commit)"
  defines "valid \<equiv> \<exists>token n q tok.
      tokenFromMetadata \<lparr>Ctx_Metadata = call_metadata c, Ctx_Agent = None\<rparr> = Inr token \<and>
      issued cs rs n = Some (q, tok) \<and> HashToken tok = HashToken token"
  shows "(is_ok (fst (serve s c db)) \<longleftrightarrow> valid) \<and>
    (\<not> valid \<longrightarrow> (\<exists>m. fst (serve s c db) = Inl (StatusErr Unauthenticated m)))"
proof -
  obtain t where t: "tbl db = Some t" "table_ok t" "holds_issued s t (issued cs rs)"
    using serve_all_step [OF assms(1,3) _ holds_issued_empty assms(4)] by (auto simp: table_ok_def issued_def)
  have v: "valid \<longleftrightarrow> (\<exists>token n r. tokenFromMetadata \<lparr>Ctx_Metadata = call_metadata c, Ctx_Agent = None\<rparr> = Inr token \<and>
      row_of t n = Some r \<and> row_auth_token_hash r = HashToken token)"
    using holds_issued_rows [OF t(3)] holds_issued_names [OF t(3)] unfolding valid_def registered_as_def by fastforce
  show ?thesis unfolding v serve_heartbeat [OF assms(5)]
    using Heartbeat_Handler_live [OF assms(1,2) t(1,2) assms(6),
        where ctx = "\<lparr>Ctx_Metadata = call_metadata c, Ctx_Agent = None\<rparr>" and env = "call_env c" and req = req] by auto
qed

section \<open>What a heartbeat answers\<close>

text \<open>What the registry says of a node, under the document.\<close>

definition peer_info :: "Document option \<Rightarrow> Row \<Rightarrow> PeerInfo" where
  "peer_info doc r =
     \<lparr>Info_Name = row_name r, Info_PublicKey = row_public_key r, Info_Endpoint = row_endpoint r,
      Info_TunnelIp = tunnelIPFor doc (row_name r), Info_LastSeen = Some (SA_LastSeenAt (agent_of r)),
      Info_Role = role_of doc (row_name r)\<rparr>"

lemma peerInfos_eq:
  assumes "\<And>r. r \<in> set rs \<Longrightarrow> row_id r = SA_ID caller \<Longrightarrow> HB_Endpoint req \<noteq> [] \<Longrightarrow> row_endpoint r = HB_Endpoint req"
  shows "peerInfos doc caller req (map agent_of rs) = map (Some \<circ> peer_info doc) (filter (\<lambda>r. declared doc (row_name r)) rs)"
  using assms
proof (induction rs)
  case (Cons r rs)
  have IH: "peerInfos doc caller req (map agent_of rs) = map (Some \<circ> peer_info doc) (filter (\<lambda>r. declared doc (row_name r)) rs)"
    using Cons.prems by (intro Cons.IH) simp
  have "row_id r = SA_ID caller \<Longrightarrow> HB_Endpoint req \<noteq> [] \<Longrightarrow> row_endpoint r = HB_Endpoint req"
    using Cons.prems [of r] by simp
  then show ?case
    by (cases "resolveRole doc (row_name r)")
      (simp add: IH Let_def peer_info_def [of doc r] declared_def [of doc "row_name r"] role_of_def)
qed simp

lemma touched_rows:
  assumes "table_ok t'" "row_of t' = (\<lambda>n. map_option (touch i ep w) (row_of t n))" "r \<in> set t'" "row_id r = i" "ep \<noteq> []"
  shows "row_endpoint r = ep"
proof -
  have "map_option (touch i ep w) (row_of t (row_name r)) = Some r"
    using row_of_member [OF assms(1,3)] fun_cong [OF assms(2)] by simp
  then obtain x where "r = touch i ep w x" by auto
  then show ?thesis using assms(4,5) by (simp add: touch_def split: if_splits)
qed

lemma heartbeat_reply:
  assumes L: "sql_laws (Server_Store s) tbl" and t: "tbl db = Some t" "table_ok t"
    and run: "Heartbeat_Handler s w env ctx req db = (Inr resp, db')"
  shows "\<exists>doc caller t'. Server_Spec s w = Inr (doc, HB_SpecCommit resp) \<and> caller \<in> set t \<and>
    tokenFromMetadata ctx \<in> {Inr token | token. HashToken token = row_auth_token_hash caller} \<and>
    tbl db' = Some t' \<and> row_of t' = (\<lambda>n. map_option (touch (row_id caller) (HB_Endpoint req) (Env_Now env)) (row_of t n)) \<and>
    HB_Peers resp = map (\<lambda>n. Some (peer_info doc (the (row_of t' n)))) (filter (declared doc) (sorted_list_of_set (dom (row_of t'))))"
proof -
  obtain token agent db1 where a: "tokenFromMetadata ctx = Inr token"
      "AuthenticateByTokenHash (Server_Store s) (HashToken token) db = (Inr agent, db1)"
      "Heartbeat s w env (withAgent ctx agent) req db1 = (Inr resp, db')"
    using run by (auto simp: heartbeat_handler_simps split: sum.splits prod.splits if_splits)
  obtain n r where r: "tbl db1 = Some t" "row_of t n = Some r" "row_auth_token_hash r = HashToken token" "agent = agent_of r"
    using auth_refines [OF L t a(2)] by (auto simp: reg_step_found)
  then have id: "SA_ID agent = row_id r" by (simp add: agent_of_def)
  obtain doc db2 out where h: "Server_Spec s w = Inr (doc, HB_SpecCommit resp)"
      "UpdateHeartbeat (Server_Store s) (row_id r) (HB_Endpoint req) (Env_Now env) db1 = (None, db2)"
      "ListAgents (Server_Store s) db2 = (Inr out, db')" "HB_Peers resp = peerInfos doc agent req out"
    using a(3) id by (auto simp: Heartbeat_def AgentFromContext_def withAgent_def split: sum.splits prod.splits option.splits)
  obtain t' where t': "tbl db2 = Some t'" "table_ok t'"
      "row_of t' = (\<lambda>n. map_option (touch (row_id r) (HB_Endpoint req) (Env_Now env)) (row_of t n))"
    using heartbeat_refines [OF L r(1) t(2) h(2)] by (auto simp: reg_step_heartbeat)
  define names where "names = sorted_list_of_set (dom (row_of t'))"
  have out: "out = map agent_of (map (\<lambda>n. the (row_of t' n)) names)"
    using ListAgents_Inr [OF L h(3) t'(1,2)] by (simp add: names_def comp_def)
  have rows: "the (row_of t' n) \<in> set t' \<and> row_name (the (row_of t' n)) = n" if "n \<in> set names" for n
    using that row_of_SomeD finite_registry [of t'] by (fastforce simp: names_def)
  have "HB_Peers resp = map (Some \<circ> peer_info doc) (filter (\<lambda>r. declared doc (row_name r)) (map (\<lambda>n. the (row_of t' n)) names))"
    unfolding h(4) out
  proof (rule peerInfos_eq)
    fix x assume "x \<in> set (map (\<lambda>n. the (row_of t' n)) names)" "row_id x = SA_ID agent" "HB_Endpoint req \<noteq> []"
    then show "row_endpoint x = HB_Endpoint req" using rows id touched_rows [OF t'(2,3)] by auto
  qed
  also have "\<dots> = map (\<lambda>n. Some (peer_info doc (the (row_of t' n)))) (filter (declared doc) names)"
    using rows by (auto simp: filter_map comp_def intro!: map_cong filter_cong)
  finally have peers: "HB_Peers resp = map (\<lambda>n. Some (peer_info doc (the (row_of t' n)))) (filter (declared doc) names)" .
  have "tbl db' = Some t'" using ListAgents_keeps [OF L h(3)] t'(1) by simp
  then show ?thesis using a(1) r(2,3) row_of_SomeD h(1) t'(3) peers unfolding names_def
    by (intro exI [of _ doc] exI [of _ r] exI [of _ t']) auto
qed

text \<open>
  C21. A heartbeat that is answered reports the commit of the document the server holds and, sorted by
  name and each once, exactly the registered nodes that document declares, with the key, endpoint
  and tunnel address of each; the caller's own entry already has the endpoint and time of this very
  heartbeat, and an empty endpoint keeps the one stored before.
\<close>

theorem heartbeat_answer:
  assumes L: "sql_laws (Server_Store s) tbl" and t: "tbl db = Some t" "table_ok t"
    and run: "Heartbeat_Handler s w env ctx req db = (Inr resp, db')"
  shows "\<exists>doc caller t'. Server_Spec s w = Inr (doc, HB_SpecCommit resp) \<and> caller \<in> set t \<and>
    tokenFromMetadata ctx \<in> {Inr token | token. HashToken token = row_auth_token_hash caller} \<and>
    tbl db' = Some t' \<and> row_of t' = (\<lambda>n. map_option (touch (row_id caller) (HB_Endpoint req) (Env_Now env)) (row_of t n)) \<and>
    HB_Peers resp = map (\<lambda>n. Some (peer_info doc (the (row_of t' n)))) (filter (declared doc) (sorted_list_of_set (dom (row_of t'))))"
  using heartbeat_reply [OF assms] .

section \<open>Tokens on the wire\<close>

lemma space_runes_not_URL:
  "list_all (\<lambda>p. p \<noteq> [] \<and> hd p \<notin> set encodeURL \<and> last p \<notin> set encodeURL) space_runes"
  by code_simp

lemma TrimSpace_token: "TrimSpace (RawURL_EncodeToString bs) = RawURL_EncodeToString bs"
  using space_runes_not_URL RawURL_set [of bs] by (intro TrimSpace_plain) (auto simp: list_all_iff)

lemma bearer_token:
  assumes "generateAuthToken (Inr buf) = Inr tok" "buf \<noteq> []"
    and "Ctx_Metadata ctx = Some md" "md ''authorization'' = (''Bearer '' @ tok) # vs"
  shows "tokenFromMetadata ctx = Inr tok"
proof -
  have tok: "tok = RawURL_EncodeToString buf" using assms(1) by (simp add: generateAuthToken_def)
  have "tok \<noteq> []" using assms(2) unfolding tok by (cases buf rule: RawURL_EncodeToString.cases) (simp_all add: Let_def)
  moreover have "EqualFold_ascii ''Bearer '' ''bearer ''" by code_simp
  ultimately show ?thesis
    using assms(3,4) TrimSpace_token [of buf] by (simp add: tokenFromMetadata_def Let_def tok)
qed

text \<open>
  The token a registration returns is read back from the header an agent sends: whatever bytes
  it was generated from, the value \<^verbatim>\<open>Bearer <token>\<close> of the authorization header yields
  exactly that token.
\<close>

theorem bearer_roundtrip:
  assumes "generateAuthToken (Inr buf) = Inr tok" "buf \<noteq> []"
    and "Ctx_Metadata ctx = Some md" "md ''authorization'' = (''Bearer '' @ tok) # vs"
  shows "tokenFromMetadata ctx = Inr tok"
  using bearer_token [OF assms] .

section \<open>From the registry to the overlay\<close>

lemma index_registry_infos:
  assumes "distinct names" "\<And>n. n \<in> set names \<Longrightarrow> Info_Name (f n) = n \<and> n \<noteq> [] \<and> Info_PublicKey (f n) \<noteq> []"
  shows "index_registry (map (\<lambda>n. Some (f n)) names) m n = (if n \<in> set names then Some (f n) else m n)"
  using assms by (induction names arbitrary: m) auto

lemma declared_nodes:
  "h \<in> set (Hubs (Document_Spec d)) \<Longrightarrow> declared (Some d) (Hub_Name h)"
  "a \<in> set (Agents (Document_Spec d)) \<Longrightarrow> declared (Some d) (Agent_Name a)"
  by (auto simp: declared_iff)

lemma heartbeat_registry_complete:
  assumes L: "sql_laws (Server_Store s) tbl" and t: "tbl db = Some t" "table_ok t" and iss: "holds_issued s t m"
    and run: "Heartbeat_Handler s w env ctx req db = (Inr resp, db')" and doc: "Server_Spec s w = Inr (Some d, commit)"
    and keys: "\<And>n. declared (Some d) n \<Longrightarrow> \<exists>q tok. m n = Some (q, tok) \<and> pk (Reg_PublicKey q) \<noteq> None"
    and eps: "\<And>h t r. tbl db' = Some t \<Longrightarrow> h \<in> set (Hubs (Document_Spec d)) \<Longrightarrow> row_of t (Hub_Name h) = Some r \<Longrightarrow>
        \<exists>ep. resolveEndpoint dns (row_endpoint r) = Inr (Some ep)"
  shows "registry_complete pk dns d (HB_Peers resp)"
proof -
  obtain t' i where t': "tbl db' = Some t'" "row_of t' = (\<lambda>n. map_option (touch i (HB_Endpoint req) (Env_Now env)) (row_of t n))"
      "HB_Peers resp = map (\<lambda>n. Some (peer_info (Some d) (the (row_of t' n))))
         (filter (declared (Some d)) (sorted_list_of_set (dom (row_of t'))))"
    using heartbeat_reply [OF L t run] doc by auto
  have row: "\<exists>r. row_of t' n = Some r \<and> n \<noteq> [] \<and> row_name r = n \<and> row_public_key r \<noteq> [] \<and> pk (row_public_key r) \<noteq> None"
    if "declared (Some d) n" for n
  proof -
    obtain q tok where q: "m n = Some (q, tok)" "pk (Reg_PublicKey q) \<noteq> None" using keys [OF \<open>declared (Some d) n\<close>] by blast
    then obtain r where "row_of t n = Some r" "registered_as s n r (q, tok)" using holds_issued_names [OF iss] by blast
    then show ?thesis using q row_of_SomeD [of t n r] by (auto simp: t'(2) registered_as_def)
  qed
  define names where "names = filter (declared (Some d)) (sorted_list_of_set (dom (row_of t')))"
  have "set names = Collect (declared (Some d))" using row finite_registry [of t'] by (auto simp: names_def)
  moreover have "index_registry (HB_Peers resp) Map.empty n = (if n \<in> set names then Some (peer_info (Some d) (the (row_of t' n))) else None)" for n
    unfolding t'(3) names_def [symmetric]
    by (rule index_registry_infos) (use row in \<open>force simp: names_def peer_info_def\<close>)+
  ultimately have idx: "index_registry (HB_Peers resp) Map.empty n = Some (peer_info (Some d) (the (row_of t' n)))"
    if "declared (Some d) n" for n using that by simp
  show ?thesis unfolding registry_complete_def
  proof (intro conjI ballI)
    fix h assume h: "h \<in> set (Hubs (Document_Spec d))"
    then obtain r where r: "row_of t' (Hub_Name h) = Some r" "pk (row_public_key r) \<noteq> None" using row declared_nodes(1) by blast
    then show "\<exists>info. index_registry (HB_Peers resp) Map.empty (Hub_Name h) = Some info \<and> mesh_ok pk dns info"
      using idx [OF declared_nodes(1) [OF h]] eps [OF t'(1) h r(1)] by (simp add: mesh_ok_def peer_info_def)
  next
    fix a assume a: "a \<in> set (Agents (Document_Spec d))"
    then obtain r where r: "row_of t' (Agent_Name a) = Some r" "pk (row_public_key r) \<noteq> None" using row declared_nodes(2) by blast
    then show "\<exists>info. index_registry (HB_Peers resp) Map.empty (Agent_Name a) = Some info \<and> pk (Info_PublicKey info) \<noteq> None"
      using idx [OF declared_nodes(2) [OF a]] by (simp add: peer_info_def)
  qed
qed

section \<open>The document provider\<close>

text \<open>
  The contract of a \<^verbatim>\<open>SpecProvider\<close>: in the states \<open>live\<close> holds of, \<open>current\<close> fails or gives a
  well-formed document. Under it the nodes an answer names have addresses, no two the same.
\<close>

locale spec_provider =
  fixes current :: "'w SpecProvider" and live :: "'w \<Rightarrow> bool"
  assumes current_wf: "live w \<Longrightarrow> current w = Inr (doc, commit) \<Longrightarrow> \<exists>d. doc = Some d \<and> wf_Document d"
begin

lemma declared_addr:
  assumes "live w" "current w = Inr (doc, commit)" "declared doc n"
  shows "\<exists>d a. doc = Some d \<and> wf_Document d \<and> node_addr d n = Some a \<and> ParseAddr (tunnelIPFor doc n) = Some a"
proof -
  obtain d where d: "doc = Some d" "wf_Document d" using current_wf [OF assms(1,2)] by blast
  have "\<exists>a. node_addr d n = Some a \<and> ParseAddr (tunnelIPFor (Some d) n) = Some a"
    using assms(3) wf_hub_addr [OF d(2)] wf_agent_addr [OF d(2)]
    by (fastforce simp: d(1) declared_def role_of_def resolveRole_def tunnelIPFor_def node_addr_def FindSelf_def
        dest: hubs.lookup_SomeD agents.lookup_SomeD split: option.splits)
  then show ?thesis using d by blast
qed

lemma declared_addr_inj:
  assumes "live w" "current w = Inr (doc, commit)" "declared doc m" "declared doc n"
    and "ParseAddr (tunnelIPFor doc m) = ParseAddr (tunnelIPFor doc n)"
  shows "m = n"
proof -
  obtain d a where d: "doc = Some d" "wf_Document d" "node_addr d m = Some a" "ParseAddr (tunnelIPFor doc m) = Some a"
    using declared_addr [OF assms(1-3)] by blast
  moreover have "node_addr d n = Some a"
    using declared_addr [OF assms(1,2,4)] d(1,4) assms(5) by auto
  ultimately show ?thesis using node_addr_inj [OF d(2)] by blast
qed

end

section \<open>A server on the reference network\<close>

definition example_server :: "(Row list option, unit) Server" where
  "example_server = \<lparr>Server_Store = mem_db, Server_Spec = (\<lambda>_. Inr (Some example_doc, ''c0ffee'')), Server_BootstrapToken = ''boot''\<rparr>"

definition example_env :: "byte \<Rightarrow> Env" where
  "example_env b = \<lparr>Env_RandID = Inr [b], Env_RandToken = Inr [b], Env_Now = Unix_Time 100, Env_StoreNow = Unix_Time 100\<rparr>"

definition example_request :: "string \<Rightarrow> RegisterRequest" where
  "example_request n = \<lparr>Reg_Name = n, Reg_BootstrapToken = ''boot'', Reg_PublicKey = n, Reg_Endpoint = [], Reg_AgentVersion = ''dev''\<rparr>"

definition register_call :: "string \<Rightarrow> byte \<Rightarrow> unit Call" where
  "register_call n b = \<lparr>call_world = (), call_env = example_env b, call_metadata = None, call_request = RegisterCall (example_request n)\<rparr>"

definition example_token :: "byte \<Rightarrow> string" where
  "example_token b = RawURL_EncodeToString [b]"

definition bearer_md :: "byte \<Rightarrow> string \<Rightarrow> string list" where
  "bearer_md b k = (if k = ''authorization'' then [''Bearer '' @ example_token b] else [])"

definition heartbeat_call :: "byte \<Rightarrow> unit Call" where
  "heartbeat_call b = \<lparr>call_world = (), call_env = example_env 0, call_metadata = Some (bearer_md b),
     call_request = HeartbeatCall \<lparr>HB_Endpoint = []\<rparr>\<rparr>"

definition example_row :: "string \<Rightarrow> byte \<Rightarrow> Row" where
  "example_row n b = created_row (Unix_Time 100)
     (reg_agent (Some example_doc) (example_env b) (example_request n) (hex_EncodeToString [b]) (example_token b))"

lemma example_env_sel:
  "Env_RandID (example_env b) = Inr [b]" "Env_RandToken (example_env b) = Inr [b]"
  "Env_StoreNow (example_env b) = Unix_Time 100"
  by (simp_all add: example_env_def)

lemma example_row_fields [simp]:
  "row_name (example_row n b) = n" "row_id (example_row n b) = hex_EncodeToString [b]" "row_public_key (example_row n b) = n"
  "row_auth_token_hash (example_row n b) = HashToken (example_token b)"
  by (simp_all add: example_row_def reg_agent_def example_request_def)

lemma hex_Encode_iff [simp]: "hex_EncodeToString x = hex_EncodeToString y \<longleftrightarrow> x = y"
  using hex_Encode_inj by blast

lemma upsert_new: "row_name r \<notin> row_name ` set rs \<Longrightarrow> row_id r \<notin> row_id ` set rs \<Longrightarrow> upsert_rows r rs = Some (rs @ [r])"
  by (auto simp: upsert_rows_def list_ex_iff has_name_def image_iff)

lemma example_admissible: "n \<noteq> [] \<Longrightarrow> declared (Some example_doc) n \<Longrightarrow> admissible example_server () (example_request n)"
  by (simp add: admissible_def example_server_def example_request_def)

lemma serve_register:
  assumes "n \<noteq> []" "declared (Some example_doc) n" "n \<notin> row_name ` set rs" "hex_EncodeToString [b] \<notin> row_id ` set rs"
  shows "serve example_server (register_call n b) (Some rs) =
    (Inr (RegisterReply \<lparr>Resp_AuthToken = example_token b\<rparr>), Some (rs @ [example_row n b]))"
proof -
  have "upsert_rows (example_row n b) rs = Some (rs @ [example_row n b])"
    by (rule upsert_new) (use assms in simp_all)
  then have "UpsertAgent mem_db (Unix_Time 100) (reg_agent (Some example_doc) (example_env b) (example_request n)
      (hex_EncodeToString [b]) (RawURL_EncodeToString [b])) (Some rs) = (None, Some (rs @ [example_row n b]))"
    by (simp add: UpsertAgent_exec mem_db_def example_row_def example_token_def del: RawURL_EncodeToString.simps)
  then have "Register example_server () (example_env b) ctx (example_request n) (Some rs) =
      (Inr \<lparr>Resp_AuthToken = example_token b\<rparr>, Some (rs @ [example_row n b]))" for ctx
    using Register_admissible [OF example_admissible [OF assms(1,2)], of "Some example_doc" "''c0ffee''" "example_env b" "[b]" "[b]" ctx "Some rs"]
    by (simp add: example_server_def example_token_def Let_def example_env_sel del: RawURL_EncodeToString.simps)
  then show ?thesis by (simp add: serve_def register_call_def Register_Handler_eq)
qed

lemma example_declared [simp]:
  "declared (Some example_doc) n \<longleftrightarrow> n \<in> {''hub-eu'', ''hub-us'', ''dev-laptop'', ''dev-server'', ''prod-server''}"
  by (auto simp: declared_iff example_simps)

lemma two_registrations:
  "serve_all example_server [register_call ''dev-laptop'' 1, register_call ''hub-eu'' 2] (Some []) =
     ([Inr (RegisterReply \<lparr>Resp_AuthToken = example_token 1\<rparr>), Inr (RegisterReply \<lparr>Resp_AuthToken = example_token 2\<rparr>)],
      Some [example_row ''dev-laptop'' 1, example_row ''hub-eu'' 2])"
  by (simp add: serve_register)

lemma example_laws: "sql_laws (Server_Store example_server) (\<lambda>db. db)" "sql_live (Server_Store example_server) (\<lambda>db. db)"
  by (simp_all add: example_server_def mem_db_laws mem_db_live)

theorem registry_last_registrations_witness:
  "\<exists>t. snd (serve_all example_server [register_call ''dev-laptop'' 1, register_call ''hub-eu'' 2] (Some [])) = Some t \<and> table_ok t \<and>
    holds_issued example_server t [''dev-laptop'' \<mapsto> (example_request ''dev-laptop'', example_token 1),
      ''hub-eu'' \<mapsto> (example_request ''hub-eu'', example_token 2)]"
  using registry_last_registrations [OF example_laws(1) refl two_registrations]
  unfolding two_registrations issued_def by (simp add: register_call_def example_request_def)


theorem bearer_roundtrip_witness:
  "tokenFromMetadata \<lparr>Ctx_Metadata = Some (bearer_md 7), Ctx_Agent = None\<rparr> = Inr (example_token 7)"
  by (rule bearer_roundtrip [where buf = "[7]" and md = "bearer_md 7" and vs = "[]"])
    (simp_all add: generateAuthToken_def example_token_def bearer_md_def del: RawURL_EncodeToString.simps)

lemma example_bearer: "tokenFromMetadata \<lparr>Ctx_Metadata = Some (bearer_md b), Ctx_Agent = a\<rparr> = Inr (example_token b)"
  using bearer_token [of "[b]" "example_token b"]
  by (simp add: generateAuthToken_def example_token_def bearer_md_def del: RawURL_EncodeToString.simps)

theorem heartbeat_needs_current_token_witness:
  "is_ok (fst (serve example_server (heartbeat_call 2)
      (snd (serve_all example_server [register_call ''dev-laptop'' 1, register_call ''hub-eu'' 2] (Some [])))))"
proof -
  have "Server_Spec example_server (call_world (heartbeat_call 2)) = Inr (Some example_doc, ''c0ffee'')"
    by (simp add: example_server_def)
  moreover have "\<exists>token n q tok. tokenFromMetadata \<lparr>Ctx_Metadata = call_metadata (heartbeat_call 2), Ctx_Agent = None\<rparr> = Inr token \<and>
      issued [register_call ''dev-laptop'' 1, register_call ''hub-eu'' 2]
        [Inr (RegisterReply \<lparr>Resp_AuthToken = example_token 1\<rparr>), Inr (RegisterReply \<lparr>Resp_AuthToken = example_token 2\<rparr>)] n = Some (q, tok) \<and>
      HashToken tok = HashToken token"
    by (intro exI [of _ "example_token 2"] exI [of _ "''hub-eu''"] exI [of _ "example_request ''hub-eu''"])
      (simp add: heartbeat_call_def example_bearer issued_def register_call_def example_request_def)
  ultimately show ?thesis
    using heartbeat_needs_current_token [OF example_laws refl two_registrations, of "heartbeat_call 2" "\<lparr>HB_Endpoint = []\<rparr>"]
    unfolding two_registrations by (simp add: heartbeat_call_def)
qed

lemma heartbeat_mem:
  fixes s :: "(Row list option, 'w) Server"
  assumes s: "Server_Store s = mem_db" and sp: "Server_Spec s w = Inr (doc, commit)"
    and rs: "table_ok rs" "r \<in> set rs" "row_auth_token_hash r = HashToken (example_token b)"
  shows "\<exists>resp db'. Heartbeat_Handler s w env \<lparr>Ctx_Metadata = Some (bearer_md b), Ctx_Agent = None\<rparr> req (Some rs) = (Inr resp, db')"
proof -
  let ?ctx = "\<lparr>Ctx_Metadata = Some (bearer_md b), Ctx_Agent = None\<rparr>"
  have laws: "sql_laws (Server_Store s) (\<lambda>db. db)" "sql_live (Server_Store s) (\<lambda>db. db)"
    by (simp_all add: s mem_db_laws mem_db_live)
  have "\<exists>token n r. tokenFromMetadata ?ctx = Inr token \<and> row_of rs n = Some r \<and> row_auth_token_hash r = HashToken token"
    using row_of_member [OF rs(1,2)] rs(3) example_bearer by blast
  then have "is_ok (fst (Heartbeat_Handler s w env ?ctx req (Some rs)))"
    using Heartbeat_Handler_live(1) [OF laws, of "Some rs" rs] rs(1) sp by blast
  then show ?thesis by (cases "Heartbeat_Handler s w env ?ctx req (Some rs)") (auto simp: is_ok_iff)
qed

lemmas heartbeat_example = heartbeat_mem [of example_server "()" "Some example_doc" "''c0ffee''", unfolded example_server_def Server.select_convs, OF refl refl,
    folded example_server_def]

theorem heartbeat_answer_witness:
  "\<exists>resp db' doc caller t'. Heartbeat_Handler example_server () (example_env 0) \<lparr>Ctx_Metadata = Some (bearer_md 2), Ctx_Agent = None\<rparr>
      \<lparr>HB_Endpoint = []\<rparr> (Some [example_row ''dev-laptop'' 1, example_row ''hub-eu'' 2]) = (Inr resp, db') \<and>
    Server_Spec example_server () = Inr (doc, HB_SpecCommit resp) \<and> caller \<in> set [example_row ''dev-laptop'' 1, example_row ''hub-eu'' 2] \<and>
    db' = Some t' \<and>
    HB_Peers resp = map (\<lambda>n. Some (peer_info doc (the (row_of t' n)))) (filter (declared doc) (sorted_list_of_set (dom (row_of t'))))"
proof -
  have ok: "table_ok [example_row ''dev-laptop'' 1, example_row ''hub-eu'' 2]" by (simp add: table_ok_def)
  then obtain resp db' where run: "Heartbeat_Handler example_server () (example_env 0) \<lparr>Ctx_Metadata = Some (bearer_md 2), Ctx_Agent = None\<rparr>
      \<lparr>HB_Endpoint = []\<rparr> (Some [example_row ''dev-laptop'' 1, example_row ''hub-eu'' 2]) = (Inr resp, db')"
    using heartbeat_example [of _ "example_row ''hub-eu'' 2" 2] by fastforce
  show ?thesis using heartbeat_answer [OF example_laws(1) refl ok run] run by blast
qed

end
