(* ===== verification/Rpc.thy ===== *)
theory Rpc
  imports Controlplane
begin

text \<open>
  A call of an agent's stub and the handler of the server: over a gRPC library and a protobuf runtime
  that behave as documented, the client's stub returns what the server's handler returns for the same
  request, with the metadata of the call and no agent in the context.
\<close>

definition incoming_ctx :: "(string \<times> string) list \<Rightarrow> Ctx" where
  "incoming_ctx md = \<lparr>Ctx_Metadata = Some (\<lambda>k. map snd (filter (\<lambda>(k', _). k' = k) md)), Ctx_Agent = None\<rparr>"

text \<open>The gRPC server the command builds: the service of \<open>AttachTo\<close>, and a registrar that has one service.\<close>

definition attached ::
    "(RPCStatus, 'b) codec \<Rightarrow> ('db, 'w) Server \<Rightarrow> 'w \<Rightarrow> Env \<Rightarrow> (Ctx \<Rightarrow> 'b \<Rightarrow> 'db \<Rightarrow> (RPCStatus + 'b) \<times> 'db) ServiceDesc option" where
  "attached C s w env = AttachTo (\<lambda>desc _. Some desc) C s w env None"

definition grpc_server ::
    "(RPCStatus, 'b) codec \<Rightarrow> ('db, 'w) Server \<Rightarrow> 'w \<Rightarrow> Env \<Rightarrow>
     ((string \<times> string) list \<Rightarrow> string \<Rightarrow> 'b \<Rightarrow> 'db \<Rightarrow> (RPCStatus + 'b) \<times> 'db) \<Rightarrow> bool" where
  "grpc_server C s w env carry \<longleftrightarrow> (\<forall>desc. attached C s w env = Some desc \<longrightarrow> routes incoming_ctx desc carry)"

lemma carried:
  assumes "grpc_server C s w env carry"
  shows "carry md Register_FullMethodName b db = register_method C s w env (incoming_ctx md) b db"
    and "carry md Heartbeat_FullMethodName b db = heartbeat_method C s w env (incoming_ctx md) b db"
proof -
  let ?desc = "ControlPlane_ServiceDesc (register_method C s w env) (heartbeat_method C s w env)"
  have "routes incoming_ctx ?desc carry"
    using assms by (simp add: grpc_server_def attached_def AttachTo_def RegisterControlPlaneServer_def)
  then have r: "carry md (''/'' @ ServiceName ?desc @ ''/'' @ name) bytes db = m (incoming_ctx md) bytes db"
    if "(name, m) \<in> set (Methods ?desc)" for name m md bytes db
    using that unfolding routes_def by blast
  have names: "Register_FullMethodName = ''/'' @ ServiceName ?desc @ ''/'' @ ''Register''"
    "Heartbeat_FullMethodName = ''/'' @ ServiceName ?desc @ ''/'' @ ''Heartbeat''"
    by (simp_all add: Register_FullMethodName_def Heartbeat_FullMethodName_def ControlPlane_ServiceDesc_def)
  show "carry md Register_FullMethodName b db = register_method C s w env (incoming_ctx md) b db"
    unfolding names(1) by (rule r) (simp add: ControlPlane_ServiceDesc_def)
  show "carry md Heartbeat_FullMethodName b db = heartbeat_method C s w env (incoming_ctx md) b db"
    unfolding names(2) by (rule r) (simp add: ControlPlane_ServiceDesc_def)
qed

text \<open>A response is answered with its bytes; the codec gives it back.\<close>

lemma over_bytes_roundtrip:
  assumes "unmarshal bytes = Inr req" "handle (Inr req) db = (r, db')"
    and "\<And>resp. r = Inr resp \<Longrightarrow> \<exists>b. enc resp = Inr b" "\<And>m b. enc m = Inr b \<Longrightarrow> unmarshal' b = Inr m"
  shows "\<exists>x. over_bytes unmarshal enc handle bytes db = (x, db') \<and> bind_res x unmarshal' = r"
  using assms by (cases r) (fastforce simp: over_bytes_def)+

lemma Client_Register_eq: "Client_Register invoke md req n = invoke md Register_FullMethodName req n"
  by (auto simp: Client_Register_def split: prod.splits sum.splits)

lemma Client_Heartbeat_eq: "Client_Heartbeat invoke md req n = invoke md Heartbeat_FullMethodName req n"
  by (auto simp: Client_Heartbeat_def split: prod.splits sum.splits)


section \<open>A connection in memory\<close>

datatype wire = RegReq RegisterRequest | RegResp RegisterResponse | HBReq HeartbeatRequest | HBResp HeartbeatResponse

definition bad_wire :: RPCStatus where
  "bad_wire = StatusErr Internal (Text ''unmarshal'')"

definition mem_codec :: "(RPCStatus, wire) codec" where
  "mem_codec =
     \<lparr>marshal_RegisterRequest = Inr \<circ> RegReq, marshal_RegisterResponse = Inr \<circ> RegResp,
      marshal_HeartbeatRequest = Inr \<circ> HBReq, marshal_HeartbeatResponse = Inr \<circ> HBResp,
      unmarshal_RegisterRequest = (\<lambda>b. case b of RegReq m \<Rightarrow> Inr m | _ \<Rightarrow> Inl bad_wire),
      unmarshal_RegisterResponse = (\<lambda>b. case b of RegResp m \<Rightarrow> Inr m | _ \<Rightarrow> Inl bad_wire),
      unmarshal_HeartbeatRequest = (\<lambda>b. case b of HBReq m \<Rightarrow> Inr m | _ \<Rightarrow> Inl bad_wire),
      unmarshal_HeartbeatResponse = (\<lambda>b. case b of HBResp m \<Rightarrow> Inr m | _ \<Rightarrow> Inl bad_wire)\<rparr>"

definition mem_carry :: "(string \<times> string) list \<Rightarrow> string \<Rightarrow> wire \<Rightarrow> Row list option \<Rightarrow> (RPCStatus + wire) \<times> Row list option" where
  "mem_carry md method =
     (if method = Register_FullMethodName then register_method mem_codec example_server () (example_env 7) (incoming_ctx md)
      else heartbeat_method mem_codec example_server () (example_env 7) (incoming_ctx md))"

definition mem_invoke ::
    "('req \<Rightarrow> RPCStatus + wire) \<Rightarrow> (wire \<Rightarrow> RPCStatus + 'resp) \<Rightarrow> ('req, 'resp, Code, Row list option) invocation" where
  "mem_invoke enc unmarshal md m req db =
     (case enc req of
        Inl e \<Rightarrow> (Inl (status_code e), db)
      | Inr b \<Rightarrow> (case mem_carry md m b db of (r, db') \<Rightarrow> (map_sum status_code id (bind_res r unmarshal), db')))"

lemma mem_codec_laws: "codec_laws mem_codec"
  by (auto simp: codec_laws_def mem_codec_def)

lemma mem_grpc_server: "grpc_server mem_codec example_server () (example_env 7) mem_carry"
  by (simp add: grpc_server_def attached_def AttachTo_def RegisterControlPlaneServer_def routes_def ControlPlane_ServiceDesc_def
      mem_carry_def Register_FullMethodName_def)

lemma mem_invokes: "invokes status_code enc unmarshal mem_carry (mem_invoke enc unmarshal)"
  by (simp add: invokes_def mem_invoke_def)


end
