(* ===== verification/Gitsource.thy ===== *)
theory Gitsource
  imports Go_Strings
begin

text \<open>
  Package \<^verbatim>\<open>internal/gitsource\<close>: credentials (\<^verbatim>\<open>auth.go\<close>) and the source that yields one file at
  the tip of a branch (\<^verbatim>\<open>source.go\<close>). go-git and the file system are third-party or external and a
  parameter: a record of the calls the package makes on a world state of any type. A repository
  handle is its directory, an object handle its name. \<open>git_laws\<close> states what the package relies on:
  a fetch moves the remote-tracking reference to the tip of the branch at the repository's origin,
  a fresh clone has the given URL as origin, and the object calls read what the commit holds. The
  theorems say what a pull returns, and that the URL plays no part once a working copy exists.
\<close>

section \<open>Paths\<close>

text \<open>\<^verbatim>\<open>filepath.Clean\<close> and \<^verbatim>\<open>filepath.Join\<close> on Unix, element by element.\<close>

fun split_path :: "string \<Rightarrow> string \<Rightarrow> string list" where
  "split_path cur [] = [cur]"
| "split_path cur (c # cs) = (if c = CHR ''/'' then cur # split_path [] cs else split_path (cur @ [c]) cs)"

fun clean_elem :: "bool \<Rightarrow> string list \<Rightarrow> string \<Rightarrow> string list" where
  "clean_elem rooted out e =
     (if e = [] \<or> e = ''.'' then out
      else if e = ''..'' then
        (if out \<noteq> [] \<and> last out \<noteq> ''..'' then butlast out
         else if rooted then out
         else out @ [''..''])
      else out @ [e])"

fun join_path :: "string list \<Rightarrow> string" where
  "join_path [] = []"
| "join_path [e] = e"
| "join_path (e # es) = e @ ''/'' @ join_path es"

definition Clean :: "string \<Rightarrow> string" where
  "Clean path =
     (if path = [] then ''.''
      else let rooted = (hd path = CHR ''/'');
               body = join_path (foldl (clean_elem rooted) [] (split_path [] path))
           in if rooted then CHR ''/'' # body else if body = [] then ''.'' else body)"

definition Join2 :: "string \<Rightarrow> string \<Rightarrow> string" where
  "Join2 a b =
     (if a \<noteq> [] then Clean (a @ ''/'' @ b)
      else if b \<noteq> [] then Clean b else [])"

section \<open>auth.go\<close>

datatype Auth =
    NoAuth
  | TokenAuth string string
  | SSHKeyAuth string string string

datatype AuthMethod = BasicAuth string string | PublicKeys string string string

datatype StatResult = StatOk | StatNotExist | StatFailed string

datatype FetchResult = FetchOk | AlreadyUpToDate | FetchFailed string

record CloneOptions =
  Clone_URL :: string
  Clone_Auth :: "AuthMethod option"
  Clone_ReferenceName :: string
  Clone_SingleBranch :: bool
  Clone_Depth :: nat

record FetchOptions =
  Fetch_RemoteName :: string
  Fetch_Auth :: "AuthMethod option"
  Fetch_RefSpecs :: "string list"
  Fetch_Force :: bool

text \<open>The calls on the file system and on go-git. \<open>Inl\<close> and \<open>Some\<close> hold an error's text.\<close>

record 'g gitlib =
  os_MkdirTemp :: "string \<Rightarrow> 'g \<Rightarrow> (string + string) \<times> 'g"
  os_MkdirAll :: "string \<Rightarrow> 'g \<Rightarrow> string option \<times> 'g"
  os_RemoveAll :: "string \<Rightarrow> 'g \<Rightarrow> string option \<times> 'g"
  os_Stat :: "string \<Rightarrow> 'g \<Rightarrow> StatResult"
  ssh_NewPublicKeysFromFile :: "string \<Rightarrow> string \<Rightarrow> string \<Rightarrow> 'g \<Rightarrow> string + AuthMethod"
  git_NewBranchReferenceName :: "string \<Rightarrow> string"
  git_NewRemoteReferenceName :: "string \<Rightarrow> string \<Rightarrow> string"
  git_PlainOpen :: "string \<Rightarrow> 'g \<Rightarrow> string option"
  git_PlainClone :: "string \<Rightarrow> CloneOptions \<Rightarrow> 'g \<Rightarrow> string option \<times> 'g"
  git_Fetch :: "string \<Rightarrow> FetchOptions \<Rightarrow> 'g \<Rightarrow> FetchResult \<times> 'g"
  git_Reference :: "string \<Rightarrow> string \<Rightarrow> 'g \<Rightarrow> string + string"
  git_CommitObject :: "string \<Rightarrow> string \<Rightarrow> 'g \<Rightarrow> string + string"
  git_Tree :: "string \<Rightarrow> 'g \<Rightarrow> string + string"
  git_File :: "string \<Rightarrow> string \<Rightarrow> 'g \<Rightarrow> string + string"
  git_Contents :: "string \<Rightarrow> 'g \<Rightarrow> string + string"

datatype GitError =
    URLRequired | BranchRequired | PathRequired
  | MkTemp string | Mkdir string string
  | EmptyToken | EmptyKeyPath | SSHKey string StatResult | KeyFile string
  | OpenRepo string | StatRepo string | CloneFailed string string | FetchErr string
  | ResolveRef string string | LoadCommit string string | LoadTree string string
  | NoFile string string string | ReadFile string string

definition NoAuth_build :: "GitError + AuthMethod option" where
  "NoAuth_build = Inr None"

definition TokenAuth_build :: "string \<Rightarrow> string \<Rightarrow> GitError + AuthMethod option" where
  "TokenAuth_build username token =
     (if token = [] then Inl EmptyToken
      else let user = (if username = [] then ''git'' else username) in Inr (Some (BasicAuth user token)))"

definition SSHKeyAuth_build ::
    "'g gitlib \<Rightarrow> string \<Rightarrow> string \<Rightarrow> string \<Rightarrow> 'g \<Rightarrow> GitError + AuthMethod option" where
  "SSHKeyAuth_build G user path passphrase g =
     (if path = [] then Inl EmptyKeyPath
      else let u = (if user = [] then ''git'' else user) in
           case os_Stat G path g of
             StatOk \<Rightarrow>
               (case ssh_NewPublicKeysFromFile G u path passphrase g of
                  Inl e \<Rightarrow> Inl (KeyFile e)
                | Inr m \<Rightarrow> Inr (Some m))
           | st \<Rightarrow> Inl (SSHKey path st))"

fun build :: "'g gitlib \<Rightarrow> Auth \<Rightarrow> 'g \<Rightarrow> GitError + AuthMethod option" where
  "build G NoAuth g = NoAuth_build"
| "build G (TokenAuth u t) g = TokenAuth_build u t"
| "build G (SSHKeyAuth u p ph) g = SSHKeyAuth_build G u p ph g"

section \<open>source.go\<close>

record GitConfig =
  Git_URL :: string
  Git_Branch :: string
  Git_Path :: string
  Git_Workdir :: string
  Git_Auth :: "Auth option"

record Source =
  Src_cfg :: GitConfig
  Src_workdir :: string
  Src_owned :: bool

record Snapshot =
  Snap_CommitSHA :: string
  Snap_Branch :: string
  Snap_Path :: string
  Snap_Data :: string

definition Source_Open :: "'g gitlib \<Rightarrow> GitConfig \<Rightarrow> 'g \<Rightarrow> (GitError + Source) \<times> 'g" where
  "Source_Open G cfg g =
     (if Git_URL cfg = [] then (Inl URLRequired, g)
      else if Git_Branch cfg = [] then (Inl BranchRequired, g)
      else if Git_Path cfg = [] then (Inl PathRequired, g)
      else if Git_Workdir cfg = []
      then case os_MkdirTemp G ''seine-git-'' g of
             (Inl e, g') \<Rightarrow> (Inl (MkTemp e), g')
           | (Inr dir, g') \<Rightarrow> (Inr \<lparr>Src_cfg = cfg, Src_workdir = dir, Src_owned = True\<rparr>, g')
      else case os_MkdirAll G (Git_Workdir cfg) g of
             (Some e, g') \<Rightarrow> (Inl (Mkdir (Git_Workdir cfg) e), g')
           | (None, g') \<Rightarrow> (Inr \<lparr>Src_cfg = cfg, Src_workdir = Git_Workdir cfg, Src_owned = False\<rparr>, g'))"

text \<open>A nil source is \<open>None\<close>.\<close>

definition Source_Close :: "'g gitlib \<Rightarrow> Source option \<Rightarrow> 'g \<Rightarrow> string option \<times> Source option \<times> 'g" where
  "Source_Close G src g =
     (case src of
        None \<Rightarrow> (None, src, g)
      | Some s \<Rightarrow>
          if \<not> Src_owned s \<or> Src_workdir s = [] then (None, src, g)
          else case os_RemoveAll G (Src_workdir s) g of
                 (err, g') \<Rightarrow> (err, Some (s\<lparr>Src_workdir := [], Src_owned := False\<rparr>), g'))"

definition Workdir :: "Source \<Rightarrow> string" where "Workdir s = Src_workdir s"

definition resolveAuth :: "'g gitlib \<Rightarrow> Auth option \<Rightarrow> 'g \<Rightarrow> GitError + AuthMethod option" where
  "resolveAuth G a g = (case a of None \<Rightarrow> Inr None | Some auth \<Rightarrow> build G auth g)"

definition openOrClone :: "'g gitlib \<Rightarrow> Source \<Rightarrow> AuthMethod option \<Rightarrow> 'g \<Rightarrow> (GitError + string) \<times> 'g" where
  "openOrClone G s auth g =
     (case os_Stat G (Join2 (Src_workdir s) ''.git'') g of
        StatOk \<Rightarrow>
          (case git_PlainOpen G (Src_workdir s) g of
             Some e \<Rightarrow> (Inl (OpenRepo e), g)
           | None \<Rightarrow> (Inr (Src_workdir s), g))
      | StatFailed e \<Rightarrow> (Inl (StatRepo e), g)
      | StatNotExist \<Rightarrow>
          (case git_PlainClone G (Src_workdir s)
                  \<lparr>Clone_URL = Git_URL (Src_cfg s), Clone_Auth = auth,
                   Clone_ReferenceName = git_NewBranchReferenceName G (Git_Branch (Src_cfg s)),
                   Clone_SingleBranch = True, Clone_Depth = 1\<rparr> g of
             (Some e, g') \<Rightarrow> (Inl (CloneFailed (Git_URL (Src_cfg s)) e), g')
           | (None, g') \<Rightarrow> (Inr (Src_workdir s), g')))"

definition branch_refspec :: "string \<Rightarrow> string" where
  "branch_refspec branch = ''+refs/heads/'' @ branch @ '':refs/remotes/origin/'' @ branch"

definition fetch :: "'g gitlib \<Rightarrow> Source \<Rightarrow> string \<Rightarrow> AuthMethod option \<Rightarrow> 'g \<Rightarrow> GitError option \<times> 'g" where
  "fetch G s repo auth g =
     (case git_Fetch G repo
             \<lparr>Fetch_RemoteName = ''origin'', Fetch_Auth = auth,
              Fetch_RefSpecs = [branch_refspec (Git_Branch (Src_cfg s))], Fetch_Force = True\<rparr> g of
        (FetchOk, g') \<Rightarrow> (None, g')
      | (AlreadyUpToDate, g') \<Rightarrow> (None, g')
      | (FetchFailed e, g') \<Rightarrow> (Some (FetchErr e), g'))"

definition readTip :: "'g gitlib \<Rightarrow> Source \<Rightarrow> string \<Rightarrow> 'g \<Rightarrow> GitError + Snapshot" where
  "readTip G s repo g =
     (let remoteRef = git_NewRemoteReferenceName G ''origin'' (Git_Branch (Src_cfg s));
          path = Git_Path (Src_cfg s) in
      bind_res (map_err (ResolveRef remoteRef) (git_Reference G repo remoteRef g)) (\<lambda>hash.
      bind_res (map_err (LoadCommit hash) (git_CommitObject G repo hash g)) (\<lambda>commit.
      bind_res (map_err (LoadTree hash) (git_Tree G commit g)) (\<lambda>tree.
      bind_res (map_err (NoFile path hash) (git_File G tree path g)) (\<lambda>file.
      bind_res (map_err (ReadFile path) (git_Contents G file g)) (\<lambda>contents.
      Inr \<lparr>Snap_CommitSHA = hash, Snap_Branch = Git_Branch (Src_cfg s), Snap_Path = path, Snap_Data = contents\<rparr>))))))"

definition Pull :: "'g gitlib \<Rightarrow> Source \<Rightarrow> 'g \<Rightarrow> (GitError + Snapshot) \<times> 'g" where
  "Pull G s g =
     (case resolveAuth G (Git_Auth (Src_cfg s)) g of
        Inl e \<Rightarrow> (Inl e, g)
      | Inr auth \<Rightarrow>
          (case openOrClone G s auth g of
             (Inl e, g1) \<Rightarrow> (Inl e, g1)
           | (Inr repo, g1) \<Rightarrow>
               (case fetch G s repo auth g1 of
                  (Some e, g2) \<Rightarrow> (Inl e, g2)
                | (None, g2) \<Rightarrow> (readTip G s repo g2, g2))))"

section \<open>What a pull returns\<close>

text \<open>
  What the package relies on. \<open>origin g dir\<close> is the URL of the repository's remote, \<open>tip g url b\<close> the
  commit at the tip of a branch there, \<open>content hash path\<close> the file a commit holds at a path.
\<close>

definition git_clone_law :: "'g gitlib \<Rightarrow> ('g \<Rightarrow> string \<Rightarrow> string) \<Rightarrow> bool" where
  "git_clone_law G origin \<longleftrightarrow>
     (\<forall>dir opts g g'. git_PlainClone G dir opts g = (None, g') \<longrightarrow> origin g' dir = Clone_URL opts)"

definition git_fetch_law :: "'g gitlib \<Rightarrow> ('g \<Rightarrow> string \<Rightarrow> string) \<Rightarrow> ('g \<Rightarrow> string \<Rightarrow> string \<Rightarrow> string) \<Rightarrow> bool" where
  "git_fetch_law G origin tip \<longleftrightarrow>
     (\<forall>dir b auth g r g'. git_Fetch G dir \<lparr>Fetch_RemoteName = ''origin'', Fetch_Auth = auth, Fetch_RefSpecs = [branch_refspec b], Fetch_Force = True\<rparr> g = (r, g') \<longrightarrow>
        r = FetchOk \<or> r = AlreadyUpToDate \<longrightarrow>
        tip g' = tip g \<and> git_Reference G dir (git_NewRemoteReferenceName G ''origin'' b) g' = Inr (tip g (origin g dir) b))"

definition git_read_law :: "'g gitlib \<Rightarrow> (string \<Rightarrow> string \<Rightarrow> string option) \<Rightarrow> bool" where
  "git_read_law G content \<longleftrightarrow>
     (\<forall>dir hash commit tree blob path data g. git_CommitObject G dir hash g = Inr commit \<longrightarrow> git_Tree G commit g = Inr tree \<longrightarrow>
        git_File G tree path g = Inr blob \<longrightarrow> git_Contents G blob g = Inr data \<longrightarrow> content hash path = Some data)"

definition git_laws ::
    "'g gitlib \<Rightarrow> ('g \<Rightarrow> string \<Rightarrow> string) \<Rightarrow> ('g \<Rightarrow> string \<Rightarrow> string \<Rightarrow> string) \<Rightarrow> (string \<Rightarrow> string \<Rightarrow> string option) \<Rightarrow> bool" where
  "git_laws G origin tip content \<longleftrightarrow> git_clone_law G origin \<and> git_fetch_law G origin tip \<and> git_read_law G content"

definition tracked_url :: "'g gitlib \<Rightarrow> ('g \<Rightarrow> string \<Rightarrow> string) \<Rightarrow> Source \<Rightarrow> 'g \<Rightarrow> string" where
  "tracked_url G origin s g =
     (if os_Stat G (Join2 (Src_workdir s) ''.git'') g = StatOk then origin g (Src_workdir s) else Git_URL (Src_cfg s))"

lemma openOrClone_origin:
  assumes "git_laws G origin tip content" "openOrClone G s auth g = (Inr repo, g1)"
  shows "repo = Src_workdir s \<and> origin g1 repo = tracked_url G origin s g"
  using assms
  by (auto simp: openOrClone_def tracked_url_def git_laws_def git_clone_law_def split: StatResult.splits option.splits prod.splits)

lemma fetch_tip:
  assumes "git_laws G origin tip content" "fetch G s repo auth g1 = (None, g2)"
  shows "tip g2 = tip g1 \<and> git_Reference G repo (git_NewRemoteReferenceName G ''origin'' (Git_Branch (Src_cfg s))) g2 =
    Inr (tip g1 (origin g1 repo) (Git_Branch (Src_cfg s)))"
proof -
  obtain r where "git_Fetch G repo \<lparr>Fetch_RemoteName = ''origin'', Fetch_Auth = auth,
      Fetch_RefSpecs = [branch_refspec (Git_Branch (Src_cfg s))], Fetch_Force = True\<rparr> g1 = (r, g2)" "r = FetchOk \<or> r = AlreadyUpToDate"
    using assms(2) by (auto simp: fetch_def split: prod.splits FetchResult.splits)
  then show ?thesis using assms(1) unfolding git_laws_def git_fetch_law_def by blast
qed

lemma readTip_content:
  assumes "git_laws G origin tip content" "readTip G s repo g2 = Inr snap"
  shows "git_Reference G repo (git_NewRemoteReferenceName G ''origin'' (Git_Branch (Src_cfg s))) g2 = Inr (Snap_CommitSHA snap) \<and>
    content (Snap_CommitSHA snap) (Git_Path (Src_cfg s)) = Some (Snap_Data snap) \<and>
    Snap_Branch snap = Git_Branch (Src_cfg s) \<and> Snap_Path snap = Git_Path (Src_cfg s)"
proof -
  obtain commit tree blob where "git_Reference G repo (git_NewRemoteReferenceName G ''origin'' (Git_Branch (Src_cfg s))) g2 = Inr (Snap_CommitSHA snap)"
      "git_CommitObject G repo (Snap_CommitSHA snap) g2 = Inr commit" "git_Tree G commit g2 = Inr tree"
      "git_File G tree (Git_Path (Src_cfg s)) g2 = Inr blob" "git_Contents G blob g2 = Inr (Snap_Data snap)"
      "Snap_Branch snap = Git_Branch (Src_cfg s)" "Snap_Path snap = Git_Path (Src_cfg s)"
    using assms(2) by (auto simp: readTip_def Let_def bind_res_Inr_iff)
  moreover have "content (Snap_CommitSHA snap) (Git_Path (Src_cfg s)) = Some (Snap_Data snap)"
    using assms(1) calculation(2-5) unfolding git_laws_def git_read_law_def by blast
  ultimately show ?thesis by simp
qed

lemma Pull_steps:
  assumes "Pull G s g = (Inr snap, g')"
  obtains auth repo g1 where "openOrClone G s auth g = (Inr repo, g1)" "fetch G s repo auth g1 = (None, g')"
    "readTip G s repo g' = Inr snap"
  using assms by (auto simp: Pull_def split: sum.splits prod.splits option.splits)

text \<open>
  C27. A pull that succeeds returns the commit at the tip of the tracked branch and the configured
  file as that commit holds it. The remote is the configured URL when the working directory has no
  repository yet; when it has one, it is that repository's origin, whatever the configuration says.
\<close>

theorem Pull_returns_tip:
  assumes "git_laws G origin tip content" "Pull G s g = (Inr snap, g')"
  shows "Snap_CommitSHA snap = tip g' (tracked_url G origin s g) (Git_Branch (Src_cfg s)) \<and>
    content (Snap_CommitSHA snap) (Git_Path (Src_cfg s)) = Some (Snap_Data snap) \<and>
    Snap_Branch snap = Git_Branch (Src_cfg s) \<and> Snap_Path snap = Git_Path (Src_cfg s)"
proof -
  obtain auth repo g1 where p: "openOrClone G s auth g = (Inr repo, g1)" "fetch G s repo auth g1 = (None, g')"
    "readTip G s repo g' = Inr snap" using assms(2) by (rule Pull_steps)
  then show ?thesis
    using openOrClone_origin [OF assms(1) p(1)] fetch_tip [OF assms(1) p(2)] readTip_content [OF assms(1) p(3)] by auto
qed

text \<open>
  Opening a source fails without contacting anything unless URL, branch and path are given; the
  source owns its directory exactly when none was configured, and closing it twice removes it once.
\<close>

theorem Open_Close_ownership:
  assumes "Source_Open G cfg g = (Inr s, g1)" "Source_Close G (Some s) g2 = (err, s', g3)"
  shows "Git_URL cfg \<noteq> [] \<and> Git_Branch cfg \<noteq> [] \<and> Git_Path cfg \<noteq> [] \<and>
    (Src_owned s \<longleftrightarrow> Git_Workdir cfg = []) \<and> (Git_Workdir cfg \<noteq> [] \<longrightarrow> g3 = g2 \<and> s' = Some s) \<and>
    Source_Close G s' g3 = (None, s', g3)"
  using assms
  by (auto simp: Source_Open_def Source_Close_def split: if_splits prod.splits sum.splits option.splits)

section \<open>A repository in memory\<close>

text \<open>The world is the origin of the one working copy, if it was cloned.\<close>

definition mem_git :: "string option gitlib" where
  "mem_git =
     \<lparr>os_MkdirTemp = (\<lambda>p g. (Inr (''/tmp/'' @ p), g)), os_MkdirAll = (\<lambda>p g. (None, g)), os_RemoveAll = (\<lambda>p g. (None, None)),
      os_Stat = (\<lambda>p g. if g = None then StatNotExist else StatOk),
      ssh_NewPublicKeysFromFile = (\<lambda>u p ph g. Inr (PublicKeys u p ph)),
      git_NewBranchReferenceName = (\<lambda>b. ''refs/heads/'' @ b),
      git_NewRemoteReferenceName = (\<lambda>r b. ''refs/remotes/'' @ r @ ''/'' @ b),
      git_PlainOpen = (\<lambda>d g. None),
      git_PlainClone = (\<lambda>d opts g. (None, Some (Clone_URL opts))),
      git_Fetch = (\<lambda>d opts g. (if g = None then FetchFailed ''no repository'' else FetchOk, g)),
      git_Reference = (\<lambda>d r g. case g of None \<Rightarrow> Inl ''no repository'' | Some u \<Rightarrow> Inr (u @ ''#'' @ drop 20 r)),
      git_CommitObject = (\<lambda>d h g. Inr h), git_Tree = (\<lambda>c g. Inr c), git_File = (\<lambda>t p g. Inr (t @ ''/'' @ p)),
      git_Contents = (\<lambda>f g. Inr f)\<rparr>"

definition mem_origin :: "string option \<Rightarrow> string \<Rightarrow> string" where
  "mem_origin g dir = (case g of None \<Rightarrow> [] | Some u \<Rightarrow> u)"

definition mem_tip :: "string option \<Rightarrow> string \<Rightarrow> string \<Rightarrow> string" where
  "mem_tip g url b = url @ ''#'' @ b"

definition mem_content :: "string \<Rightarrow> string \<Rightarrow> string option" where
  "mem_content h p = Some (h @ ''/'' @ p)"

lemma mem_git_laws: "git_laws mem_git mem_origin mem_tip mem_content"
  by (auto simp: git_laws_def git_clone_law_def git_fetch_law_def git_read_law_def mem_git_def mem_origin_def mem_tip_def mem_content_def split: if_splits option.splits)

definition sample_source :: Source where
  "sample_source =
     \<lparr>Src_cfg = \<lparr>Git_URL = ''https://new'', Git_Branch = ''main'', Git_Path = ''network.yaml'', Git_Workdir = ''/work'', Git_Auth = None\<rparr>,
      Src_workdir = ''/work'', Src_owned = False\<rparr>"

theorem Pull_returns_tip_witness:
  "Snap_CommitSHA \<lparr>Snap_CommitSHA = ''https://old#main'', Snap_Branch = ''main'', Snap_Path = ''network.yaml'', Snap_Data = ''https://old#main/network.yaml''\<rparr> =
     mem_tip (Some ''https://old'') ''https://old'' ''main'' \<and> Git_URL (Src_cfg sample_source) = ''https://new''"
proof -
  have "Pull mem_git sample_source (Some ''https://old'') =
    (Inr \<lparr>Snap_CommitSHA = ''https://old#main'', Snap_Branch = ''main'', Snap_Path = ''network.yaml'', Snap_Data = ''https://old#main/network.yaml''\<rparr>, Some ''https://old'')"
    by code_simp
  from Pull_returns_tip [OF mem_git_laws this] show ?thesis
    by (simp add: tracked_url_def mem_git_def mem_origin_def sample_source_def)
qed

theorem Open_Close_ownership_witness:
  "Src_owned \<lparr>Src_cfg = (Src_cfg sample_source)\<lparr>Git_Workdir := []\<rparr>, Src_workdir = ''/tmp/seine-git-'', Src_owned = True\<rparr> \<and>
   Source_Close mem_git (Some \<lparr>Src_cfg = (Src_cfg sample_source)\<lparr>Git_Workdir := []\<rparr>, Src_workdir = [], Src_owned = False\<rparr>) None =
     (None, Some \<lparr>Src_cfg = (Src_cfg sample_source)\<lparr>Git_Workdir := []\<rparr>, Src_workdir = [], Src_owned = False\<rparr>, None)"
proof -
  let ?cfg = "(Src_cfg sample_source)\<lparr>Git_Workdir := []\<rparr>"
  have 1: "Source_Open mem_git ?cfg None = (Inr \<lparr>Src_cfg = ?cfg, Src_workdir = ''/tmp/seine-git-'', Src_owned = True\<rparr>, None)"
    by (simp add: Source_Open_def mem_git_def sample_source_def)
  have 2: "Source_Close mem_git (Some \<lparr>Src_cfg = ?cfg, Src_workdir = ''/tmp/seine-git-'', Src_owned = True\<rparr>) None =
      (None, Some \<lparr>Src_cfg = ?cfg, Src_workdir = [], Src_owned = False\<rparr>, None)"
    by (simp add: Source_Close_def mem_git_def)
  show ?thesis using Open_Close_ownership [OF 1 2] by simp
qed

end
