(* ===== verification/Specsource.thy ===== *)
theory Specsource
  imports Gitsource Spec_Parse Controlplane
begin

text \<open>
  Package \<^verbatim>\<open>internal/specsource\<close> (\<^verbatim>\<open>watcher.go\<close>): the watcher that pulls the document from Git,
  parses it and caches the last version that was good. The mutex makes each access to the cached
  state one step; the single-slot update channel is a flag. The polling loop is driven by a list of
  ticks, one per iteration: the clock, what happened to the world during the wait, whether a
  receiver emptied the slot and whether the context was cancelled. The loop returns at the first
  cancelled tick and is still running when the list is used up. The reachable states of the watcher
  are an inductive predicate over pulls, receives and changes of the world; the invariants are
  proved by induction on it.
\<close>

section \<open>Data\<close>

record WatcherConfig =
  WC_Source :: GitConfig
  WC_Interval :: int
  WC_MinBackoff :: int
  WC_MaxBackoff :: int

record SpecSnapshot =
  SS_doc :: Document
  SS_commit :: string
  SS_at :: Time

datatype WatchError = NotYetLoaded | PullFailed GitError | ParseFailed ParseError

record Watcher =
  W_cfg :: WatcherConfig
  W_src :: Source
  W_state :: "SpecSnapshot option"
  W_last :: "WatchError option"
  W_updates :: bool

section \<open>Operations\<close>

definition watcher_defaults :: "WatcherConfig \<Rightarrow> WatcherConfig" where
  "watcher_defaults cfg =
     (let cfg = (if WC_Interval cfg \<le> 0 then cfg\<lparr>WC_Interval := 30 * int Second\<rparr> else cfg);
          cfg = (if WC_MinBackoff cfg \<le> 0 then cfg\<lparr>WC_MinBackoff := 2 * int Second\<rparr> else cfg)
      in if WC_MaxBackoff cfg \<le> 0 then cfg\<lparr>WC_MaxBackoff := 60 * int Second\<rparr> else cfg)"

definition Watcher_New :: "'g gitlib \<Rightarrow> WatcherConfig \<Rightarrow> 'g \<Rightarrow> (GitError + Watcher) \<times> 'g" where
  "Watcher_New G cfg g =
     (let cfg = watcher_defaults cfg in
      case Source_Open G (WC_Source cfg) g of
        (Inl e, g') \<Rightarrow> (Inl e, g')
      | (Inr src, g') \<Rightarrow>
          (Inr \<lparr>W_cfg = cfg, W_src = src, W_state = None, W_last = Some NotYetLoaded, W_updates = False\<rparr>, g'))"

definition Watcher_Close :: "'g gitlib \<Rightarrow> Watcher \<Rightarrow> 'g \<Rightarrow> string option \<times> Watcher \<times> 'g" where
  "Watcher_Close G w g =
     (case Source_Close G (Some (W_src w)) g of
        (err, src, g') \<Rightarrow> (err, w\<lparr>W_src := the src\<rparr>, g'))"

text \<open>The document, the commit and the error Go's \<open>Current\<close> returns, nil being \<open>None\<close>.\<close>

definition Current :: "Watcher \<Rightarrow> Document option \<times> string \<times> WatchError option" where
  "Current w =
     (case W_state w of
        Some s \<Rightarrow> (Some (SS_doc s), SS_commit s, None)
      | None \<Rightarrow> (None, [], W_last w))"

text \<open>A receive on the update channel succeeds when the slot is full, and empties it.\<close>

definition Updates :: "Watcher \<Rightarrow> Watcher option" where
  "Updates w = (if W_updates w then Some (w\<lparr>W_updates := False\<rparr>) else None)"

definition recordError :: "Watcher \<Rightarrow> WatchError \<Rightarrow> Watcher" where
  "recordError w err = w\<lparr>W_last := Some err\<rparr>"

definition prev_commit :: "Watcher \<Rightarrow> string" where
  "prev_commit w = (case W_state w of None \<Rightarrow> [] | Some s \<Rightarrow> SS_commit s)"

definition pullOnce ::
    "'g gitlib \<Rightarrow> (float64 \<Rightarrow> int) \<Rightarrow> (duration_hook \<Rightarrow> string \<Rightarrow> DecodeResult) \<Rightarrow> Time \<Rightarrow> Watcher \<Rightarrow> 'g \<Rightarrow>
     WatchError option \<times> Watcher \<times> 'g" where
  "pullOnce G oor decode now w g =
     (case Pull G (W_src w) g of
        (Inl e, g') \<Rightarrow> (Some (PullFailed e), recordError w (PullFailed e), g')
      | (Inr snap, g') \<Rightarrow>
          (case Parse oor decode (Snap_Data snap) of
             Inl e \<Rightarrow> (Some (ParseFailed e), recordError w (ParseFailed e), g')
           | Inr doc \<Rightarrow>
               let prev = prev_commit w;
                   w1 = w\<lparr>W_state := Some \<lparr>SS_doc = doc, SS_commit = Snap_CommitSHA snap, SS_at = now\<rparr>, W_last := None\<rparr>
               in (None, if prev \<noteq> Snap_CommitSHA snap then w1\<lparr>W_updates := True\<rparr> else w1, g')))"

text \<open>The delay before the next pull and the backoff after it, in 64-bit arithmetic.\<close>

definition schedule :: "WatcherConfig \<Rightarrow> WatchError option \<Rightarrow> int \<Rightarrow> int \<times> int" where
  "schedule cfg err backoff =
     (case err of
        None \<Rightarrow> (WC_Interval cfg, WC_MinBackoff cfg)
      | Some _ \<Rightarrow>
          let backoff' = wrap64 (backoff * 2)
          in (backoff, if backoff' > WC_MaxBackoff cfg then WC_MaxBackoff cfg else backoff'))"

record 'g Tick =
  tick_now :: Time
  tick_world :: "'g \<Rightarrow> 'g"
  tick_receive :: bool
  tick_cancelled :: bool

definition after_wait :: "'g Tick \<Rightarrow> Watcher \<Rightarrow> Watcher" where
  "after_wait t w = (if tick_receive t then (case Updates w of Some v \<Rightarrow> v | None \<Rightarrow> w) else w)"

text \<open>The iterations of \<open>Run\<close>: the delays it waited and the final state, \<open>None\<close> while still running.\<close>

fun poll_loop ::
    "'g gitlib \<Rightarrow> (float64 \<Rightarrow> int) \<Rightarrow> (duration_hook \<Rightarrow> string \<Rightarrow> DecodeResult) \<Rightarrow> 'g Tick list \<Rightarrow> int \<Rightarrow> Watcher \<Rightarrow> 'g \<Rightarrow>
     (int list \<times> Watcher \<times> 'g) option" where
  "poll_loop G oor decode [] backoff w g = None"
| "poll_loop G oor decode (t # ts) backoff w g =
     (case pullOnce G oor decode (tick_now t) w g of
        (err, w', g') \<Rightarrow>
          (case schedule (W_cfg w') err backoff of
             (delay, backoff') \<Rightarrow>
               if tick_cancelled t then Some ([delay], w', g')
               else map_option (apfst ((#) delay)) (poll_loop G oor decode ts backoff' (after_wait t w') (tick_world t g'))))"

definition Watcher_Run ::
    "'g gitlib \<Rightarrow> (float64 \<Rightarrow> int) \<Rightarrow> (duration_hook \<Rightarrow> string \<Rightarrow> DecodeResult) \<Rightarrow> 'g Tick list \<Rightarrow> Watcher \<Rightarrow> 'g \<Rightarrow>
     (int list \<times> Watcher \<times> 'g) option" where
  "Watcher_Run G oor decode ts w g = poll_loop G oor decode ts (WC_MinBackoff (W_cfg w)) w g"

section \<open>Polling\<close>

lemma pullOnce_cfg [simp]: "pullOnce G oor decode now w g = (err, w', g') \<Longrightarrow> W_cfg w' = W_cfg w \<and> W_src w' = W_src w"
  by (auto simp: pullOnce_def recordError_def Let_def split: prod.splits sum.splits if_splits)

lemma Updates_cfg: "Updates w = Some w' \<Longrightarrow> W_cfg w' = W_cfg w"
  by (auto simp: Updates_def split: if_splits)

definition backoff_ok :: "WatcherConfig \<Rightarrow> bool" where
  "backoff_ok cfg \<longleftrightarrow> 0 < WC_MinBackoff cfg \<and> WC_MinBackoff cfg \<le> WC_MaxBackoff cfg \<and> WC_MaxBackoff cfg < 2 ^ 62"

lemma wrap64_double: "0 \<le> b \<Longrightarrow> b < 2 ^ 62 \<Longrightarrow> wrap64 (b * 2) = b * 2"
  by (simp add: wrap64_def)

lemma schedule_range:
  assumes "backoff_ok cfg" "WC_MinBackoff cfg \<le> b" "b \<le> WC_MaxBackoff cfg" "schedule cfg err b = (d, b')"
  shows "WC_MinBackoff cfg \<le> b' \<and> b' \<le> WC_MaxBackoff cfg \<and>
    (d = WC_Interval cfg \<or> WC_MinBackoff cfg \<le> d \<and> d \<le> WC_MaxBackoff cfg)"
  using assms wrap64_double [of b] by (auto simp: schedule_def backoff_ok_def Let_def split: option.splits if_splits)

lemma poll_loop_delays:
  "backoff_ok cfg \<Longrightarrow> W_cfg w = cfg \<Longrightarrow> WC_MinBackoff cfg \<le> b \<Longrightarrow> b \<le> WC_MaxBackoff cfg \<Longrightarrow>
     poll_loop G oor decode ts b w g = Some (ds, w', g') \<Longrightarrow> d \<in> set ds \<Longrightarrow>
     d = WC_Interval cfg \<or> WC_MinBackoff cfg \<le> d \<and> d \<le> WC_MaxBackoff cfg"
proof (induction ts arbitrary: b w g ds)
  case (Cons t ts)
  obtain err w1 g1 where p: "pullOnce G oor decode (tick_now t) w g = (err, w1, g1)" by (metis prod_cases3)
  then have cfg: "W_cfg w1 = cfg" using Cons.prems(2) by simp
  obtain delay b1 where s: "schedule cfg err b = (delay, b1)" by fastforce
  note range = schedule_range [OF Cons.prems(1,3,4) s]
  have cfg2: "W_cfg (after_wait t w1) = cfg" using cfg by (auto simp: after_wait_def Updates_cfg split: option.splits)
  show ?case
  proof (cases "tick_cancelled t")
    case True
    then show ?thesis using Cons.prems(5,6) p s cfg range by auto
  next
    case False
    then obtain ds1 where "poll_loop G oor decode ts b1 (after_wait t w1) (tick_world t g1) = Some (ds1, w', g')" "ds = delay # ds1"
      using Cons.prems(5) p s cfg by auto
    then show ?thesis using Cons.IH [OF Cons.prems(1) cfg2] range Cons.prems(6) by auto
  qed
qed simp


text \<open>
  The backoff is exponential up to its limit: after \<open>k\<close> failed pulls in a row the next delay is the
  smallest backoff doubled \<open>k\<close> times, or the largest backoff if that is less.
\<close>

theorem backoff_closed_form:
  assumes "backoff_ok cfg"
  shows "((\<lambda>b. snd (schedule cfg (Some e) b)) ^^ k) (WC_MinBackoff cfg) = min (WC_MinBackoff cfg * 2 ^ k) (WC_MaxBackoff cfg)"
proof (induction k)
  case 0
  then show ?case using assms by (simp add: backoff_ok_def)
next
  case (Suc k)
  let ?b = "min (WC_MinBackoff cfg * 2 ^ k) (WC_MaxBackoff cfg)"
  have "0 \<le> ?b" "?b < 2 ^ 62" using assms by (auto simp: backoff_ok_def min_def)
  then have "snd (schedule cfg (Some e) ?b) = min (?b * 2) (WC_MaxBackoff cfg)"
    using wrap64_double [of ?b] by (simp add: schedule_def Let_def min_def)
  also have "\<dots> = min (WC_MinBackoff cfg * 2 ^ Suc k) (WC_MaxBackoff cfg)"
    using assms by (auto simp: backoff_ok_def min_def)
  finally show ?case using Suc by simp
qed

lemma poll_loop_returns:
  "case poll_loop G oor decode ts b w g of
     None \<Rightarrow> \<forall>t \<in> set ts. \<not> tick_cancelled t
   | Some (ds, _) \<Rightarrow> (\<exists>t \<in> set ts. tick_cancelled t) \<and> length ds = Suc (length (takeWhile (\<lambda>t. \<not> tick_cancelled t) ts))"
proof (induction ts arbitrary: b w g)
  case (Cons t ts)
  obtain err w1 g1 where p: "pullOnce G oor decode (tick_now t) w g = (err, w1, g1)" by (metis prod_cases3)
  obtain delay b1 where s: "schedule (W_cfg w1) err b = (delay, b1)" by fastforce
  show ?case
    using Cons.IH [of b1 "after_wait t w1" "tick_world t g1"]
    by (auto simp: p s split: option.splits prod.splits)
qed simp

text \<open>
  C30. The polling loop returns exactly when its context is cancelled, at the first wait during which
  that happens; no failure of a pull or of the parser ends it.
\<close>

theorem Run_returns_iff_cancelled:
  "(\<exists>ds w' g'. Watcher_Run G oor decode ts w g = Some (ds, w', g') \<and>
      length ds = Suc (length (takeWhile (\<lambda>t. \<not> tick_cancelled t) ts))) \<longleftrightarrow> list_ex tick_cancelled ts"
  using poll_loop_returns [where G = G and oor = oor and decode = decode and ts = ts and b = "WC_MinBackoff (W_cfg w)" and w = w and g = g]
  by (auto simp: Watcher_Run_def list_ex_iff split: option.splits)

section \<open>What the watcher holds\<close>

text \<open>
  The reachable states of a watcher: pulls, receives on the update channel and changes of the world
  in any order. The last component is the commit that was cached at the last receive.
\<close>

inductive watching ::
    "'g gitlib \<Rightarrow> (float64 \<Rightarrow> int) \<Rightarrow> (duration_hook \<Rightarrow> string \<Rightarrow> DecodeResult) \<Rightarrow> WatcherConfig \<Rightarrow> Watcher \<Rightarrow> 'g \<Rightarrow> string \<Rightarrow> bool"
  for G oor decode cfg where
  start: "Watcher_New G cfg g0 = (Inr w, g) \<Longrightarrow> watching G oor decode cfg w g []"
| pull: "watching G oor decode cfg w g seen \<Longrightarrow> pullOnce G oor decode now w g = (err, w', g') \<Longrightarrow>
    watching G oor decode cfg w' g' seen"
| receive: "watching G oor decode cfg w g seen \<Longrightarrow> Updates w = Some w' \<Longrightarrow>
    watching G oor decode cfg w' g (prev_commit w')"
| world: "watching G oor decode cfg w g seen \<Longrightarrow> watching G oor decode cfg w g' seen"

text \<open>The cached document is the one the cached commit holds, and it is well-formed.\<close>

definition good_snapshot ::
    "(float64 \<Rightarrow> int) \<Rightarrow> (duration_hook \<Rightarrow> string \<Rightarrow> DecodeResult) \<Rightarrow> (string \<Rightarrow> string \<Rightarrow> string option) \<Rightarrow> string \<Rightarrow> SpecSnapshot \<Rightarrow> bool" where
  "good_snapshot oor decode content path s \<longleftrightarrow>
     (\<exists>data. content (SS_commit s) path = Some data \<and> Parse oor decode data = Inr (SS_doc s)) \<and> wf_Document (SS_doc s)"

lemma pullOnce_cases:
  assumes "pullOnce G oor decode now w g = (err, w', g')"
  obtains (failed) e where "err = Some e" "w' = w\<lparr>W_last := Some e\<rparr>"
  | (pulled) snap doc where "err = None" "Pull G (W_src w) g = (Inr snap, g')" "Parse oor decode (Snap_Data snap) = Inr doc"
      "w' = w\<lparr>W_state := Some \<lparr>SS_doc = doc, SS_commit = Snap_CommitSHA snap, SS_at = now\<rparr>, W_last := None,
              W_updates := W_updates w \<or> prev_commit w \<noteq> Snap_CommitSHA snap\<rparr>"
proof (cases "Pull G (W_src w) g")
  case (Pair r g1)
  show thesis
  proof (cases r)
    case (Inl e)
    then have "err = Some (PullFailed e)" "w' = w\<lparr>W_last := Some (PullFailed e)\<rparr>"
      using assms Pair by (auto simp: pullOnce_def recordError_def)
    then show thesis by (rule failed)
  next
    case (Inr snap)
    show thesis
    proof (cases "Parse oor decode (Snap_Data snap)")
      case (Inl e)
      then have "err = Some (ParseFailed e)" "w' = w\<lparr>W_last := Some (ParseFailed e)\<rparr>"
        using assms Pair Inr by (auto simp: pullOnce_def recordError_def)
      then show thesis by (rule failed)
    next
      case (Inr doc)
      then have "err = None \<and> g1 = g' \<and> w' = w\<lparr>W_state := Some \<lparr>SS_doc = doc, SS_commit = Snap_CommitSHA snap, SS_at = now\<rparr>,
          W_last := None, W_updates := W_updates w \<or> prev_commit w \<noteq> Snap_CommitSHA snap\<rparr>"
        using assms Pair \<open>r = Inr snap\<close> by (cases w) (auto simp: pullOnce_def Let_def)
      then show thesis using pulled [OF _ _ Inr] Pair \<open>r = Inr snap\<close> by blast
    qed
  qed
qed

lemma Updates_SomeD: "Updates w = Some w' \<Longrightarrow> W_updates w \<and> w' = w\<lparr>W_updates := False\<rparr>"
  by (auto simp: Updates_def split: if_splits)

lemma New_fresh:
  "Watcher_New G cfg g0 = (Inr w, g) \<Longrightarrow>
     W_state w = None \<and> W_last w = Some NotYetLoaded \<and> \<not> W_updates w \<and> Src_cfg (W_src w) = WC_Source cfg"
  by (auto simp: Watcher_New_def Source_Open_def watcher_defaults_def Let_def split: prod.splits sum.splits if_splits option.splits)

lemma watching_inv:
  assumes L: "git_laws G origin tip content" and "watching G oor decode cfg w g seen"
  shows "Src_cfg (W_src w) = WC_Source cfg \<and>
    (case W_state w of None \<Rightarrow> W_last w \<noteq> None | Some s \<Rightarrow> good_snapshot oor decode content (Git_Path (WC_Source cfg)) s) \<and>
    (prev_commit w \<noteq> seen \<longrightarrow> W_updates w)"
  using assms(2)
proof (induction rule: watching.induct)
  case (start g0 w g)
  then show ?case using New_fresh [OF start] by (simp add: prev_commit_def)
next
  case (pull w g seen now err w' g')
  from pull.hyps(2) show ?case
  proof (cases rule: pullOnce_cases)
    case (failed e)
    then show ?thesis using pull.IH by (auto simp: prev_commit_def split: option.splits)
  next
    case (pulled snap doc)
    obtain auth repo g1 where r: "readTip G (W_src w) repo g' = Inr snap" using pulled(2) by (rule Pull_steps)
    have "content (Snap_CommitSHA snap) (Git_Path (WC_Source cfg)) = Some (Snap_Data snap)"
      using pull.IH readTip_content [OF L r] by simp
    moreover have "wf_Document doc" using pulled(3) by (auto simp: Parse_Inr_iff)
    ultimately have good: "good_snapshot oor decode content (Git_Path (WC_Source cfg)) \<lparr>SS_doc = doc, SS_commit = Snap_CommitSHA snap, SS_at = now\<rparr>"
      using pulled(3) by (simp add: good_snapshot_def)
    have "Snap_CommitSHA snap \<noteq> seen \<Longrightarrow> W_updates w \<or> prev_commit w \<noteq> Snap_CommitSHA snap" using pull.IH by auto
    moreover have "prev_commit w' = Snap_CommitSHA snap" unfolding pulled(4) by (simp add: prev_commit_def)
    ultimately show ?thesis unfolding pulled(4) using good pull.IH by simp
  qed
next
  case (receive w g seen w')
  then show ?case using Updates_SomeD [OF receive.hyps(2)] by (auto simp: prev_commit_def split: option.splits)
qed auto

lemma watching_wf:
  assumes "watching G oor decode cfg w g seen"
  shows "case W_state w of None \<Rightarrow> W_last w \<noteq> None | Some s \<Rightarrow> wf_Document (SS_doc s)"
  using assms
proof (induction rule: watching.induct)
  case (start g0 w g)
  then show ?case using New_fresh [OF start] by simp
next
  case (pull w g seen now err w' g')
  from pull.hyps(2) pull.IH show ?case
    by (cases rule: pullOnce_cases) (auto simp: Parse_Inr_iff split: option.splits)
next
  case (receive w g seen w')
  then show ?case using Updates_SomeD [OF receive.hyps(2)] by (auto split: option.splits)
qed

text \<open>The watcher as the provider of the control plane; \<open>render\<close> prints its errors.\<close>

definition provide :: "(WatchError \<Rightarrow> string) \<Rightarrow> Watcher SpecProvider" where
  "provide render w = (case Current w of (doc, commit, err) \<Rightarrow> case err of Some e \<Rightarrow> Inl (render e) | None \<Rightarrow> Inr (doc, commit))"

interpretation watcher: spec_provider "provide render" "\<lambda>w. \<exists>g seen. watching G oor decode cfg w g seen"
  for render G oor decode cfg
proof
  fix w doc commit
  assume "\<exists>g seen. watching G oor decode cfg w g seen" "provide render w = Inr (doc, commit)"
  then show "\<exists>d. doc = Some d \<and> wf_Document d"
    using watching_wf by (fastforce simp: provide_def Current_def split: option.splits)
qed


section \<open>A watcher on the repository in memory\<close>

definition sample_watcher_config :: WatcherConfig where
  "sample_watcher_config =
     \<lparr>WC_Source = Src_cfg sample_source, WC_Interval = 0, WC_MinBackoff = 0, WC_MaxBackoff = 0\<rparr>"

definition sample_watcher :: Watcher where
  "sample_watcher = \<lparr>W_cfg = watcher_defaults sample_watcher_config, W_src = sample_source, W_state = None,
     W_last = Some NotYetLoaded, W_updates = False\<rparr>"

definition sample_decode :: "duration_hook \<Rightarrow> string \<Rightarrow> DecodeResult" where
  "sample_decode hook data = (if data = ''https://new#main/network.yaml'' then Decoded example_doc else DecodeEOF)"

definition sample_tick :: "bool \<Rightarrow> string option Tick" where
  "sample_tick c = \<lparr>tick_now = zero_Time, tick_world = (\<lambda>g. g), tick_receive = False, tick_cancelled = c\<rparr>"

lemma sample_defaults: "backoff_ok (W_cfg sample_watcher)" "WC_Interval (W_cfg sample_watcher) = 30000000000"
    "WC_MinBackoff (W_cfg sample_watcher) = 2000000000" "WC_MaxBackoff (W_cfg sample_watcher) = 60000000000"
  by (simp_all add: sample_watcher_def backoff_ok_def watcher_defaults_def sample_watcher_config_def Let_def Second_def)

lemma sample_failing:
  "Pull mem_git sample_source (Some ''https://old'') =
     (Inr \<lparr>Snap_CommitSHA = ''https://old#main'', Snap_Branch = ''main'', Snap_Path = ''network.yaml'', Snap_Data = ''https://old#main/network.yaml''\<rparr>, Some ''https://old'')"
  by code_simp

lemma sample_pull:
  "Pull mem_git sample_source None =
     (Inr \<lparr>Snap_CommitSHA = ''https://new#main'', Snap_Branch = ''main'', Snap_Path = ''network.yaml'', Snap_Data = ''https://new#main/network.yaml''\<rparr>, Some ''https://new'')"
  by code_simp

lemma sample_parse: "Parse oor sample_decode ''https://new#main/network.yaml'' = Inr example_doc"
    "Parse oor sample_decode ''https://old#main/network.yaml'' = Inl EmptyDocument"
  by (simp_all add: Parse_def sample_decode_def Validate_example)

lemma sample_run:
  "\<exists>w g. Watcher_Run mem_git oor sample_decode [sample_tick False, sample_tick False, sample_tick True] sample_watcher (Some ''https://old'') =
     Some ([2000000000, 4000000000, 8000000000], w, g)"
  by (simp add: Watcher_Run_def pullOnce_def sample_failing sample_parse sample_watcher_def recordError_def schedule_def
      sample_tick_def after_wait_def watcher_defaults_def sample_watcher_config_def Let_def Second_def wrap64_def)


theorem backoff_closed_form_witness:
  "((\<lambda>b. snd (schedule (W_cfg sample_watcher) (Some NotYetLoaded) b)) ^^ 5) 2000000000 = 60000000000"
  using backoff_closed_form [OF sample_defaults(1), where e = NotYetLoaded and k = 5] by (simp add: sample_defaults)

lemma sample_watching:
  "watching mem_git oor sample_decode sample_watcher_config
     (sample_watcher\<lparr>W_state := Some \<lparr>SS_doc = example_doc, SS_commit = ''https://new#main'', SS_at = zero_Time\<rparr>, W_last := None, W_updates := True\<rparr>)
     (Some ''https://new'') []"
proof (rule watching.pull)
  show "watching mem_git oor sample_decode sample_watcher_config sample_watcher None []"
    by (rule watching.start [of _ _ None])
      (simp add: Watcher_New_def Source_Open_def sample_watcher_def sample_watcher_config_def watcher_defaults_def sample_source_def mem_git_def Let_def)
  show "pullOnce mem_git oor sample_decode zero_Time sample_watcher None =
      (None, sample_watcher\<lparr>W_state := Some \<lparr>SS_doc = example_doc, SS_commit = ''https://new#main'', SS_at = zero_Time\<rparr>, W_last := None, W_updates := True\<rparr>, Some ''https://new'')"
    by (simp add: pullOnce_def sample_watcher_def sample_pull sample_parse prev_commit_def Let_def)
qed


definition loaded_watcher :: Watcher where
  "loaded_watcher = sample_watcher\<lparr>W_state := Some \<lparr>SS_doc = example_doc, SS_commit = ''https://new#main'', SS_at = zero_Time\<rparr>, W_last := None, W_updates := True\<rparr>"

end
