(* ===== verification/Server_System.thy ===== *)
theory Server_System
  imports Specsource
begin

text \<open>
  The management server as it runs: the watcher pulls while requests are served, in any order, and the
  world of Git changes at any time (\<^verbatim>\<open>cmd/seine-server/main.go\<close> starts the watcher in a goroutine beside
  the gRPC server; \<^verbatim>\<open>watcher.go\<close> and \<^verbatim>\<open>server.go\<close> share the cached document under a mutex, so a pull and
  a reading of the document are single steps). The reachable states are an inductive predicate with
  the history of requests and replies; what an answered heartbeat says is an invariant of it.
\<close>

section \<open>Pulls and requests, interleaved\<close>

inductive serving ::
    "'g gitlib \<Rightarrow> (float64 \<Rightarrow> int) \<Rightarrow> (duration_hook \<Rightarrow> string \<Rightarrow> DecodeResult) \<Rightarrow> WatcherConfig \<Rightarrow> ('db, Watcher) Server \<Rightarrow> 'db \<Rightarrow>
     Watcher \<Rightarrow> 'g \<Rightarrow> 'db \<Rightarrow> (Watcher Call \<times> (RPCStatus + Reply)) list \<Rightarrow> bool"
  for G oor decode cfg s db0 where
  started: "Watcher_New G cfg g0 = (Inr w, g) \<Longrightarrow> serving G oor decode cfg s db0 w g db0 []"
| pulled: "serving G oor decode cfg s db0 w g db h \<Longrightarrow> pullOnce G oor decode now w g = (err, w', g') \<Longrightarrow>
    serving G oor decode cfg s db0 w' g' db h"
| committed: "serving G oor decode cfg s db0 w g db h \<Longrightarrow> serving G oor decode cfg s db0 w g' db h"
| served: "serving G oor decode cfg s db0 w g db h \<Longrightarrow> call_world c = w \<Longrightarrow> serve s c db = (r, db') \<Longrightarrow>
    serving G oor decode cfg s db0 w g db' (h @ [(c, r)])"

lemma serving_watching:
  assumes "serving G oor decode cfg s db0 w g db h"
  shows "watching G oor decode cfg w g []"
  using assms by (induction rule: serving.induct) (blast intro: watching.intros)+

text \<open>The history is a run of the server on the requests, one after the other.\<close>

lemma serve_all_snoc:
  "serve_all s cs db = (rs, db1) \<Longrightarrow> serve s c db1 = (r, db2) \<Longrightarrow> serve_all s (cs @ [c]) db = (rs @ [r], db2)"
proof (induction cs arbitrary: db rs)
  case (Cons a cs)
  obtain x db' where a: "serve s a db = (x, db')" by fastforce
  then obtain rs' where "serve_all s cs db' = (rs', db1)" "rs = x # rs'" using Cons.prems(1) by (cases "serve_all s cs db'") auto
  then show ?case using a Cons.IH [OF _ Cons.prems(2)] by simp
qed simp

lemma serving_history:
  assumes "serving G oor decode cfg s db0 w g db h"
  shows "serve_all s (map fst h) db0 = (map snd h, db)"
  using assms by (induction rule: serving.induct) (auto intro: serve_all_snoc)

text \<open>The last request of a history was served in a reachable state.\<close>

lemma serving_last:
  assumes "serving G oor decode cfg s db0 w g db (h @ [(c, r)])"
  shows "\<exists>g1 db1. serving G oor decode cfg s db0 (call_world c) g1 db1 h \<and> serve s c db1 = (r, db)"
  using assms
proof (induction w g db "h @ [(c, r)]" rule: serving.induct)
  case (served w g db h' c' r' db')
  then show ?case by blast
qed auto

section \<open>What a heartbeat is told\<close>

lemma serve_HeartbeatReply:
  assumes "serve s c db = (Inr (HeartbeatReply resp), db')"
  obtains req where "call_request c = HeartbeatCall req"
    "Heartbeat_Handler s (call_world c) (call_env c) \<lparr>Ctx_Metadata = call_metadata c, Ctx_Agent = None\<rparr> req db = (Inr resp, db')"
proof (cases "call_request c")
  case (RegisterCall req)
  then show thesis
    using assms by (cases "Register_Handler s (call_world c) (call_env c) \<lparr>Ctx_Metadata = call_metadata c, Ctx_Agent = None\<rparr> req db";
        cases "fst (Register_Handler s (call_world c) (call_env c) \<lparr>Ctx_Metadata = call_metadata c, Ctx_Agent = None\<rparr> req db)")
      (auto simp: serve_def)
next
  case (HeartbeatCall req)
  then show thesis
    using assms that by (cases "Heartbeat_Handler s (call_world c) (call_env c) \<lparr>Ctx_Metadata = call_metadata c, Ctx_Agent = None\<rparr> req db";
        cases "fst (Heartbeat_Handler s (call_world c) (call_env c) \<lparr>Ctx_Metadata = call_metadata c, Ctx_Agent = None\<rparr> req db)")
      (auto simp: serve_heartbeat)
qed

text \<open>
  C12. Every answer of a running server is sound, whatever was committed, pulled and requested before and
  whatever failed. The commit it reports holds a file that parses to a well-formed document; each peer
  is a node that document declares, with the address declared for it and the key of the last
  registration accepted for its name; and no two peers have the same address.
\<close>

theorem served_answers_sound:
  assumes L: "sql_laws (Server_Store s) tbl" "tbl db0 = Some []" and sp: "Server_Spec s = provide render"
    and G: "git_laws G origin tip content"
    and run: "serving G oor decode cfg s db0 w g db (h @ [(c, Inr (HeartbeatReply resp))])"
  shows "\<exists>d data. content (HB_SpecCommit resp) (Git_Path (WC_Source cfg)) = Some data \<and> Parse oor decode data = Inr d \<and> wf_Document d \<and>
    (\<forall>i. Some i \<in> set (HB_Peers resp) \<longrightarrow>
       declared (Some d) (Info_Name i) \<and> ParseAddr (Info_TunnelIp i) = node_addr d (Info_Name i) \<and> node_addr d (Info_Name i) \<noteq> None \<and>
       (\<exists>q tok. issued (map fst h) (map snd h) (Info_Name i) = Some (q, tok) \<and> Info_PublicKey i = Reg_PublicKey q)) \<and>
    (\<forall>i j. Some i \<in> set (HB_Peers resp) \<longrightarrow> Some j \<in> set (HB_Peers resp) \<longrightarrow>
       ParseAddr (Info_TunnelIp i) = ParseAddr (Info_TunnelIp j) \<longrightarrow> i = j)"
proof -
  obtain g1 db1 where s1: "serving G oor decode cfg s db0 (call_world c) g1 db1 h" "serve s c db1 = (Inr (HeartbeatReply resp), db)"
    using serving_last [OF run] by blast
  obtain t where t: "tbl db1 = Some t" "table_ok t" "holds_issued s t (issued (map fst h) (map snd h))"
    using serve_all_step [OF L _ holds_issued_empty serving_history [OF s1(1)]] by (auto simp: table_ok_def issued_def)
  obtain req where hb: "Heartbeat_Handler s (call_world c) (call_env c) \<lparr>Ctx_Metadata = call_metadata c, Ctx_Agent = None\<rparr> req db1 = (Inr resp, db)"
    using s1(2) by (rule serve_HeartbeatReply)
  obtain doc t' k where r: "provide render (call_world c) = Inr (doc, HB_SpecCommit resp)"
      "row_of t' = (\<lambda>n. map_option (touch k (HB_Endpoint req) (Env_Now (call_env c))) (row_of t n))"
      "HB_Peers resp = map (\<lambda>n. Some (peer_info doc (the (row_of t' n)))) (filter (declared doc) (sorted_list_of_set (dom (row_of t'))))"
    using heartbeat_reply [OF L(1) t(1,2) hb] unfolding sp by blast
  have live: "\<exists>g seen. watching G oor decode cfg (call_world c) g seen" using serving_watching [OF s1(1)] by blast
  have cur: "Current (call_world c) = (doc, HB_SpecCommit resp, None)" using r(1) by (auto simp: provide_def split: prod.splits option.splits)
  obtain d where doc: "doc = Some d" using watcher.current_wf [OF live r(1)] by blast
  have good: "wf_Document d \<and> (\<exists>data. content (HB_SpecCommit resp) (Git_Path (WC_Source cfg)) = Some data \<and> Parse oor decode data = Inr d)"
    using watching_inv [OF G serving_watching [OF s1(1)]] cur doc by (auto simp: Current_def good_snapshot_def split: option.splits)
  have info: "\<exists>n. declared doc n \<and> Info_Name p = n \<and> Info_TunnelIp p = tunnelIPFor doc n \<and> p = peer_info doc (the (row_of t' n)) \<and>
      (\<exists>q tok. issued (map fst h) (map snd h) n = Some (q, tok) \<and> Info_PublicKey p = Reg_PublicKey q)"
    if p: "Some p \<in> set (HB_Peers resp)" for p
  proof -
    obtain n r1 where n: "row_of t' n = Some r1" "declared doc n" "p = peer_info doc r1"
      using p finite_registry [of t'] by (auto simp: r(3))
    then obtain r0 where r0: "row_of t n = Some r0" "r1 = touch k (HB_Endpoint req) (Env_Now (call_env c)) r0" by (auto simp: r(2))
    obtain q where q: "issued (map fst h) (map snd h) n = Some q" "registered_as s n r0 q" using holds_issued_rows [OF t(3) r0(1)] by blast
    have "row_name r1 = n" using row_of_SomeD [of t'] n(1) by auto
    moreover have "registered_as s n r1 q" using q(2) r0(2) by simp
    ultimately show ?thesis using n q(1) by (cases q) (auto simp: peer_info_def registered_as_def)
  qed
  have addr: "ParseAddr (tunnelIPFor doc n) = node_addr d n \<and> node_addr d n \<noteq> None" if "declared doc n" for n
    using watcher.declared_addr [OF live r(1) that] doc by auto
  show ?thesis
    using good info addr watcher.declared_addr_inj [OF live r(1)] unfolding doc by (metis (no_types, lifting))
qed

section \<open>Two nodes of the reference network\<close>

definition watched_server :: "(Row list option, Watcher) Server" where
  "watched_server = \<lparr>Server_Store = mem_db, Server_Spec = provide (\<lambda>_. []), Server_BootstrapToken = ''boot''\<rparr>"

definition watched_call :: "(string \<Rightarrow> string list) option \<Rightarrow> byte \<Rightarrow> Request \<Rightarrow> Watcher Call" where
  "watched_call md b req = \<lparr>call_world = loaded_watcher, call_env = example_env b, call_metadata = md, call_request = req\<rparr>"

lemma watched_spec: "Server_Spec watched_server loaded_watcher = Inr (Some example_doc, ''https://new#main'')"
  by (simp add: watched_server_def provide_def Current_def loaded_watcher_def)

lemma watched_register:
  assumes "n \<noteq> []" "declared (Some example_doc) n" "n \<notin> row_name ` set rs" "hex_EncodeToString [b] \<notin> row_id ` set rs"
  shows "serve watched_server (watched_call None b (RegisterCall (example_request n))) (Some rs) =
    (Inr (RegisterReply \<lparr>Resp_AuthToken = example_token b\<rparr>), Some (rs @ [example_row n b]))"
proof -
  have eqs: "Server_Spec watched_server loaded_watcher = Inr (Some example_doc, ''https://new#main'')"
    "Server_Spec example_server () = Inr (Some example_doc, ''c0ffee'')"
    "Server_Store watched_server = Server_Store example_server" "Server_BootstrapToken watched_server = Server_BootstrapToken example_server"
    by (simp_all add: watched_spec) (simp_all add: watched_server_def example_server_def)
  have "Register watched_server loaded_watcher env ctx req db = Register example_server () env ctx req db" for env ctx req db
    unfolding Register_def eqs by (simp only: sum.case prod.case)
  then show ?thesis
    using serve_register [OF assms] by (simp add: serve_def Register_Handler_eq watched_call_def register_call_def)
qed

text \<open>The watcher loads the document, a hub registers and sends a heartbeat.\<close>

theorem served_answers_sound_witness:
  "\<exists>resp db. serving mem_git (\<lambda>_. 0) sample_decode sample_watcher_config watched_server (Some []) loaded_watcher (Some ''https://new'') db
      ([(watched_call None 2 (RegisterCall (example_request ''hub-eu'')), Inr (RegisterReply \<lparr>Resp_AuthToken = example_token 2\<rparr>))] @
       [(watched_call (Some (bearer_md 2)) 0 (HeartbeatCall \<lparr>HB_Endpoint = []\<rparr>), Inr (HeartbeatReply resp))]) \<and>
    (\<forall>i. Some i \<in> set (HB_Peers resp) \<longrightarrow> Info_Name i = ''hub-eu'')"
proof -
  let ?reg = "watched_call None 2 (RegisterCall (example_request ''hub-eu''))" and ?hb = "watched_call (Some (bearer_md 2)) 0 (HeartbeatCall \<lparr>HB_Endpoint = []\<rparr>)"
  let ?S = "serving mem_git (\<lambda>_. 0) sample_decode sample_watcher_config watched_server (Some [])"
  have world: "call_world ?reg = loaded_watcher" "call_world ?hb = loaded_watcher" by (simp_all add: watched_call_def)
  have s0: "?S sample_watcher None (Some []) []"
    by (rule serving.started [of _ _ None])
      (simp add: Watcher_New_def Source_Open_def sample_watcher_def sample_watcher_config_def watcher_defaults_def sample_source_def mem_git_def Let_def)
  have "pullOnce mem_git (\<lambda>_. 0) sample_decode zero_Time sample_watcher None = (None, loaded_watcher, Some ''https://new'')"
    by (simp add: pullOnce_def sample_watcher_def sample_pull sample_parse prev_commit_def loaded_watcher_def Let_def)
  from serving.pulled [OF s0 this] have s1: "?S loaded_watcher (Some ''https://new'') (Some []) []" .
  have "serve watched_server ?reg (Some []) = (Inr (RegisterReply \<lparr>Resp_AuthToken = example_token 2\<rparr>), Some [example_row ''hub-eu'' 2])"
    using watched_register [of "''hub-eu''" "[]" 2] by simp
  from serving.served [OF s1 world(1) this]
  have s2: "?S loaded_watcher (Some ''https://new'') (Some [example_row ''hub-eu'' 2]) [(?reg, Inr (RegisterReply \<lparr>Resp_AuthToken = example_token 2\<rparr>))]"
    by simp
  obtain resp db where "Heartbeat_Handler watched_server loaded_watcher (example_env 0) \<lparr>Ctx_Metadata = Some (bearer_md 2), Ctx_Agent = None\<rparr>
      \<lparr>HB_Endpoint = []\<rparr> (Some [example_row ''hub-eu'' 2]) = (Inr resp, db)"
    using heartbeat_mem [OF _ watched_spec, of "[example_row ''hub-eu'' 2]" "example_row ''hub-eu'' 2" 2]
    by (fastforce simp: watched_server_def table_ok_def)
  then have "serve watched_server ?hb (Some [example_row ''hub-eu'' 2]) = (Inr (HeartbeatReply resp), db)"
    by (simp add: serve_def watched_call_def)
  from serving.served [OF s2 world(2) this] have s3: "?S loaded_watcher (Some ''https://new'') db
      ([(?reg, Inr (RegisterReply \<lparr>Resp_AuthToken = example_token 2\<rparr>))] @ [(?hb, Inr (HeartbeatReply resp))])" .
  have laws: "sql_laws (Server_Store watched_server) (\<lambda>db. db)" "Server_Spec watched_server = provide (\<lambda>_. [])"
    by (simp_all add: watched_server_def mem_db_laws)
  have "Info_Name i = ''hub-eu''" if "Some i \<in> set (HB_Peers resp)" for i
    using served_answers_sound [OF laws(1) refl laws(2) mem_git_laws s3] that
    by (auto simp: issued_def watched_call_def example_request_def split: if_splits)
  then show ?thesis using s3 by blast
qed

end
