(* ===== verification/Go_Flag.thy ===== *)
theory Go_Flag
  imports Go_Time
begin

text \<open>
  Go's \<^verbatim>\<open>flag\<close> package and the environment as the two commands use them: the command line is read
  from the left; an argument of one or two dashes names a flag; a flag that is not boolean takes its
  value after \<^verbatim>\<open>=\<close> or from the next argument; reading stops at the first argument that is not a flag
  or at \<^verbatim>\<open>--\<close>. The set of flags is an association list of setters on a record of options. The
  theory proves what a command line of settings of the form \<^verbatim>\<open>--name=value\<close> does.
\<close>

section \<open>Values\<close>

text \<open>\<^verbatim>\<open>strconv.ParseBool\<close>.\<close>

definition ParseBool :: "string \<Rightarrow> bool option" where
  "ParseBool s =
     (if s \<in> set [''1'', ''t'', ''T'', ''true'', ''TRUE'', ''True''] then Some True
      else if s \<in> set [''0'', ''f'', ''F'', ''false'', ''FALSE'', ''False''] then Some False
      else None)"

datatype 'opts FlagValue =
    BoolVar "bool \<Rightarrow> 'opts \<Rightarrow> 'opts"
  | StringVar "string \<Rightarrow> 'opts \<Rightarrow> 'opts"
  | DurationVar "int \<Rightarrow> 'opts \<Rightarrow> 'opts"

fun flag_Set :: "'opts FlagValue \<Rightarrow> string \<Rightarrow> 'opts \<Rightarrow> 'opts option" where
  "flag_Set (BoolVar upd) v opts = map_option (\<lambda>b. upd b opts) (ParseBool v)"
| "flag_Set (StringVar upd) v opts = Some (upd v opts)"
| "flag_Set (DurationVar upd) v opts = map_option (\<lambda>d. upd d opts) (ParseDuration v)"

fun IsBoolFlag :: "'opts FlagValue \<Rightarrow> bool" where
  "IsBoolFlag (BoolVar _) \<longleftrightarrow> True"
| "IsBoolFlag _ \<longleftrightarrow> False"

section \<open>Arguments\<close>

datatype FlagArg = NotAFlag | Terminator | BadSyntax | NamedFlag string "string option"

text \<open>The name ends at the first \<^verbatim>\<open>=\<close> after its first character.\<close>

definition split_value :: "string \<Rightarrow> string \<times> string option" where
  "split_value name =
     (case name of
        [] \<Rightarrow> ([], None)
      | c # cs \<Rightarrow>
          (c # takeWhile (\<lambda>x. x \<noteq> CHR ''='') cs,
           case dropWhile (\<lambda>x. x \<noteq> CHR ''='') cs of [] \<Rightarrow> None | _ # v \<Rightarrow> Some v))"

definition classify :: "string \<Rightarrow> FlagArg" where
  "classify s =
     (if length s < 2 \<or> hd s \<noteq> CHR ''-'' then NotAFlag
      else if s = ''--'' then Terminator
      else let name = (if s ! 1 = CHR ''-'' then drop 2 s else drop 1 s)
           in if name = [] \<or> hd name = CHR ''-'' \<or> hd name = CHR ''='' then BadSyntax
              else case split_value name of (n, v) \<Rightarrow> NamedFlag n v)"

datatype FlagError =
    ErrHelp
  | BadFlagSyntax string
  | NotDefined string
  | NeedsArgument string
  | InvalidValue string string

text \<open>The options and the arguments that are left.\<close>

fun parse_args :: "(string \<times> 'opts FlagValue) list \<Rightarrow> string list \<Rightarrow> 'opts \<Rightarrow> FlagError + 'opts \<times> string list" where
  "parse_args fs [] opts = Inr (opts, [])"
| "parse_args fs (s # args) opts =
     (case classify s of
        NotAFlag \<Rightarrow> Inr (opts, s # args)
      | Terminator \<Rightarrow> Inr (opts, args)
      | BadSyntax \<Rightarrow> Inl (BadFlagSyntax s)
      | NamedFlag name value \<Rightarrow>
          (case map_of fs name of
             None \<Rightarrow> Inl (if name = ''help'' \<or> name = ''h'' then ErrHelp else NotDefined name)
           | Some flag \<Rightarrow>
               (case value of
                  Some v \<Rightarrow>
                    (case flag_Set flag v opts of
                       None \<Rightarrow> Inl (InvalidValue name v)
                     | Some opts' \<Rightarrow> parse_args fs args opts')
                | None \<Rightarrow>
                    if IsBoolFlag flag
                    then (case flag_Set flag ''true'' opts of
                            None \<Rightarrow> Inl (InvalidValue name ''true'')
                          | Some opts' \<Rightarrow> parse_args fs args opts')
                    else (case args of
                            [] \<Rightarrow> Inl (NeedsArgument name)
                          | v # args' \<Rightarrow>
                              (case flag_Set flag v opts of
                                 None \<Rightarrow> Inl (InvalidValue name v)
                               | Some opts' \<Rightarrow> parse_args fs args' opts')))))"

text \<open>
  \<^verbatim>\<open>flag.Parse\<close> on the command line's flag set exits the process on an error: with status 0 when
  help was asked for, with status 2 otherwise.
\<close>

definition flag_Parse :: "(string \<times> 'opts FlagValue) list \<Rightarrow> string list \<Rightarrow> 'opts \<Rightarrow> nat + 'opts" where
  "flag_Parse fs args opts =
     (case parse_args fs args opts of
        Inl ErrHelp \<Rightarrow> Inl 0
      | Inl _ \<Rightarrow> Inl 2
      | Inr (opts', _) \<Rightarrow> Inr opts')"

section \<open>The environment\<close>

definition Getenv :: "(string \<rightharpoonup> string) \<Rightarrow> string \<Rightarrow> string" where
  "Getenv env key = (case env key of Some v \<Rightarrow> v | None \<Rightarrow> [])"

section \<open>Settings\<close>

definition setting :: "string \<times> string \<Rightarrow> string" where
  "setting nv = ''--'' @ fst nv @ ''='' @ snd nv"

definition plain_name :: "string \<Rightarrow> bool" where
  "plain_name n \<longleftrightarrow> n \<noteq> [] \<and> hd n \<noteq> CHR ''-'' \<and> CHR ''='' \<notin> set n"

lemma classify_setting:
  assumes "plain_name n"
  shows "classify (setting (n, v)) = NamedFlag n (Some v)"
proof -
  obtain c cs where n: "n = c # cs" "c \<noteq> CHR ''-''" "c \<noteq> CHR ''=''" "CHR ''='' \<notin> set cs"
    using assms by (cases n) (auto simp: plain_name_def)
  have all: "x \<noteq> CHR ''=''" if "x \<in> set cs" for x using n(4) that by auto
  have "takeWhile (\<lambda>x. x \<noteq> CHR ''='') (cs @ CHR ''='' # v) = cs"
    "dropWhile (\<lambda>x. x \<noteq> CHR ''='') (cs @ CHR ''='' # v) = CHR ''='' # v"
    using all by (simp_all add: takeWhile_append2 dropWhile_append2)
  then show ?thesis using n(2,3) by (simp add: classify_def setting_def split_value_def n(1))
qed

text \<open>Settings are applied from the left, so the last one for an option wins.\<close>

lemma parse_settings:
  assumes "\<And>n v. (n, v) \<in> set nvs \<Longrightarrow> plain_name n \<and> map_of fs n = Some (StringVar (upd n))"
  shows "parse_args fs (map setting nvs) opts = Inr (fold (\<lambda>(n, v). upd n v) nvs opts, [])"
  using assms
proof (induction nvs arbitrary: opts)
  case (Cons nv nvs)
  obtain n v where nv: "nv = (n, v)" by fastforce
  have "plain_name n" "map_of fs n = Some (StringVar (upd n))" using Cons.prems nv by auto
  moreover have "parse_args fs (map setting nvs) o' = Inr (fold (\<lambda>(n, v). upd n v) nvs o', [])" for o'
    using Cons by auto
  ultimately show ?case by (simp add: nv classify_setting)
qed simp

end
