(* ===== verification/Wg_Iface.thy ===== *)
theory Wg_Iface
  imports Wg Go_Time
begin

text \<open>
  Package \<^verbatim>\<open>internal/wg\<close>, the kernel interface (\<^verbatim>\<open>iface_linux.go\<close>, \<^verbatim>\<open>iface.go\<close>,
  \<^verbatim>\<open>iface_unsupported.go\<close>): bring-up, peer reconciliation, status and teardown, and the
  conversions between prefixes and \<^verbatim>\<open>net.IPNet\<close>. The netlink and wgctrl libraries are a
  parameter, a record of their operations on a kernel state. The theory proves the round trip
  of prefixes, and that applying peers converges when the kernel configures a device as
  wgctrl documents it.
\<close>

unbundle bit_operations_syntax

section \<open>Library types\<close>

record IPNet =
  Net_IP :: IP
  Net_Mask :: "byte list"

record WgPeer =
  WP_PublicKey :: Key
  WP_Endpoint :: "UDPAddr option"
  WP_PersistentKeepaliveInterval :: int
  WP_LastHandshakeTime :: Time
  WP_ReceiveBytes :: int
  WP_TransmitBytes :: int
  WP_AllowedIPs :: "IPNet list"

record Device =
  Dev_Name :: string
  Dev_PublicKey :: Key
  Dev_ListenPort :: int
  Dev_Peers :: "WgPeer list"

record PeerConfig =
  PC_PublicKey :: Key
  PC_Remove :: bool
  PC_ReplaceAllowedIPs :: bool
  PC_Endpoint :: "UDPAddr option"
  PC_PersistentKeepaliveInterval :: "int option"
  PC_AllowedIPs :: "IPNet list"

record WgConfig =
  Cfg_PrivateKey :: "Key option"
  Cfg_ListenPort :: "int option"
  Cfg_ReplacePeers :: bool
  Cfg_Peers :: "PeerConfig list"

record Link =
  Link_Name :: string
  Link_MTU :: int

datatype LinkResult = LinkFound Link | LinkNotFound | LinkLookupError

text \<open>
  The operations of netlink and wgctrl the package calls: a command returns whether there
  was an error and the new state; \<open>k_ParseAddr\<close> is \<^verbatim>\<open>netlink.ParseAddr\<close>.
\<close>

record ('s, 'a) kernel =
  k_LinkByName :: "string \<Rightarrow> 's \<Rightarrow> LinkResult"
  k_LinkAdd :: "Link \<Rightarrow> 's \<Rightarrow> bool \<times> 's"
  k_LinkSetMTU :: "Link \<Rightarrow> int \<Rightarrow> 's \<Rightarrow> bool \<times> 's"
  k_LinkSetUp :: "Link \<Rightarrow> 's \<Rightarrow> bool \<times> 's"
  k_LinkDel :: "Link \<Rightarrow> 's \<Rightarrow> bool \<times> 's"
  k_ParseAddr :: "string \<Rightarrow> 'a option"
  k_AddrReplace :: "Link \<Rightarrow> 'a \<Rightarrow> 's \<Rightarrow> bool \<times> 's"
  k_Device :: "string \<Rightarrow> 's \<Rightarrow> Device option"
  k_ConfigureDevice :: "string \<Rightarrow> WgConfig \<Rightarrow> 's \<Rightarrow> bool \<times> 's"
  k_Close :: "'s \<Rightarrow> bool \<times> 's"

section \<open>net.IPNet\<close>

text \<open>\<^verbatim>\<open>net.CIDRMask\<close>, \<^verbatim>\<open>IPMask.Size\<close> and \<^verbatim>\<open>netip.AddrFromSlice\<close>.\<close>

fun mask_bytes :: "nat \<Rightarrow> nat \<Rightarrow> byte list" where
  "mask_bytes n 0 = []"
| "mask_bytes n (Suc l) =
     (if n \<ge> 8 then 0xff # mask_bytes (n - 8) l else NOT (drop_bit n 0xff) # mask_bytes 0 l)"

definition CIDRMask :: "int \<Rightarrow> nat \<Rightarrow> byte list" where
  "CIDRMask ones bits = (if ones < 0 \<or> ones > int bits then [] else mask_bytes (nat ones) (bits div 8))"

fun leading_ones :: "nat \<Rightarrow> byte \<Rightarrow> nat \<times> byte" where
  "leading_ones 0 v = (0, v)"
| "leading_ones (Suc k) v =
     (if v AND 0x80 \<noteq> 0 then (let (n, w) = leading_ones k (push_bit 1 v) in (n + 1, w)) else (0, v))"

fun simpleMaskLength :: "byte list \<Rightarrow> nat \<Rightarrow> nat option" where
  "simpleMaskLength [] n = Some n"
| "simpleMaskLength (v # vs) n =
     (if v = 0xff then simpleMaskLength vs (n + 8)
      else let (k, w) = leading_ones 8 v
           in if w \<noteq> 0 then None else if list_all (\<lambda>u. u = 0) vs then Some (n + k) else None)"

definition Mask_Size :: "byte list \<Rightarrow> int \<times> int" where
  "Mask_Size m = (case simpleMaskLength m 0 of None \<Rightarrow> (0, 0) | Some n \<Rightarrow> (int n, int (length m) * 8))"

definition be_value :: "byte list \<Rightarrow> nat" where
  "be_value bs = foldl (\<lambda>n b. n * 256 + unat b) 0 bs"

definition AddrFromSlice :: "IP \<Rightarrow> Addr option" where
  "AddrFromSlice ip =
     (if length ip = 4 then Some (Addr4 (word_of_nat (be_value ip)))
      else if length ip = 16 then Some (Addr6 (word_of_nat (be_value ip)) [])
      else None)"

text \<open>\<^verbatim>\<open>IP.String\<close> (an IPv4-mapped address prints as IPv4) and \<^verbatim>\<open>IPNet.String\<close>.\<close>

definition IP_String :: "IP \<Rightarrow> string" where
  "IP_String ip =
     (if length ip = 4 then string4 (word_of_nat (be_value ip))
      else if length ip = 16 then
        (if take 12 ip = v4InV6Prefix then string4 (word_of_nat (be_value (drop 12 ip)))
         else string6 (word_of_nat (be_value ip)) [])
      else ''<nil>'')"

definition IPNet_String :: "IPNet \<Rightarrow> string" where
  "IPNet_String n =
     (case simpleMaskLength (Net_Mask n) 0 of
        None \<Rightarrow> ''<nil>''
      | Some k \<Rightarrow> if Net_Mask n = [] then ''<nil>'' else IP_String (Net_IP n) @ ''/'' @ dec k)"

section \<open>Conversions\<close>

definition ipNetFromPrefix :: "Prefix \<Rightarrow> IPNet" where
  "ipNetFromPrefix p =
    (let bits = Prefix_Bits p
     in case pfx_ip p of
          Addr4 w \<Rightarrow> \<lparr>Net_IP = As4 w, Net_Mask = CIDRMask bits 32\<rparr>
        | addr \<Rightarrow> \<lparr>Net_IP = As16 addr, Net_Mask = CIDRMask bits 128\<rparr>)"

definition prefixFromIPNet :: "IPNet \<Rightarrow> Prefix option" where
  "prefixFromIPNet n =
    (case AddrFromSlice (Net_IP n) of
       None \<Rightarrow> None
     | Some addr \<Rightarrow> Some (PrefixFrom (Unmap addr) (fst (Mask_Size (Net_Mask n)))))"

definition peerToConfig :: "Peer \<Rightarrow> bool \<Rightarrow> PeerConfig" where
  "peerToConfig p replaceAllowedIPs =
     \<lparr>PC_PublicKey = Peer_PublicKey p, PC_Remove = False, PC_ReplaceAllowedIPs = replaceAllowedIPs,
      PC_Endpoint = Peer_Endpoint p,
      PC_PersistentKeepaliveInterval =
        (if Peer_PersistentKeepalive p > 0 then Some (Peer_PersistentKeepalive p) else None),
      PC_AllowedIPs = map ipNetFromPrefix (Peer_AllowedIPs p)\<rparr>"

definition wgPeerToDomain :: "WgPeer \<Rightarrow> Peer" where
  "wgPeerToDomain p =
     \<lparr>Peer_Name = [], Peer_PublicKey = WP_PublicKey p, Peer_Endpoint = WP_Endpoint p,
      Peer_AllowedIPs = List.map_filter prefixFromIPNet (WP_AllowedIPs p),
      Peer_PersistentKeepalive = WP_PersistentKeepaliveInterval p\<rparr>"

section \<open>linuxIface\<close>

record ('s, 'a) linuxIface =
  iface_name :: string
  iface_wg :: "('s, 'a) kernel"

datatype IfaceError =
    OpenWgctrl
  | SetMTU string
  | ConfigureDeviceFailed string
  | ParseNlAddr Prefix
  | SetAddress Prefix
  | LinkUp string
  | LinkLookup string
  | LinkAddFailed string
  | LinkGone string
  | ReadDevice string
  | ConfigurePeers string
  | StatusFailed string
  | LinkDelFailed string
  | UnsupportedPlatform string

text \<open>\<open>opened\<close> is what \<^verbatim>\<open>wgctrl.New\<close> returns.\<close>

definition newPlatformInterface :: "('s, 'a) kernel option \<Rightarrow> string \<Rightarrow> IfaceError + ('s, 'a) linuxIface" where
  "newPlatformInterface opened name =
    (case opened of
       None \<Rightarrow> Inl OpenWgctrl
     | Some cli \<Rightarrow> Inr \<lparr>iface_name = name, iface_wg = cli\<rparr>)"

definition New :: "('s, 'a) kernel option \<Rightarrow> string \<Rightarrow> IfaceError + ('s, 'a) linuxIface" where
  "New opened ifaceName = newPlatformInterface opened ifaceName"

definition newPlatformInterface_other :: "string \<Rightarrow> string \<Rightarrow> IfaceError + unit" where
  "newPlatformInterface_other goos name = Inl (UnsupportedPlatform goos)"

definition ensureLink :: "('s, 'a) linuxIface \<Rightarrow> int \<Rightarrow> 's \<Rightarrow> (IfaceError + Link) \<times> 's" where
  "ensureLink l mtu s =
    (case k_LinkByName (iface_wg l) (iface_name l) s of
       LinkFound link \<Rightarrow> (Inr link, s)
     | LinkLookupError \<Rightarrow> (Inl (LinkLookup (iface_name l)), s)
     | LinkNotFound \<Rightarrow>
         (let attrs = \<lparr>Link_Name = iface_name l, Link_MTU = 0\<rparr>;
              attrs = (if mtu > 0 then attrs\<lparr>Link_MTU := mtu\<rparr> else attrs);
              (err, s) = k_LinkAdd (iface_wg l) attrs s
          in if err then (Inl (LinkAddFailed (iface_name l)), s)
             else case k_LinkByName (iface_wg l) (iface_name l) s of
                    LinkFound link \<Rightarrow> (Inr link, s)
                  | _ \<Rightarrow> (Inl (LinkGone (iface_name l)), s)))"

definition netlinkAddrFromPrefix :: "('s, 'a) linuxIface \<Rightarrow> Prefix \<Rightarrow> IfaceError + 'a" where
  "netlinkAddrFromPrefix l p =
     of_option (ParseNlAddr p) (k_ParseAddr (iface_wg l) (IPNet_String (ipNetFromPrefix p)))"

definition upAddress :: "('s, 'a) linuxIface \<Rightarrow> Link \<Rightarrow> Prefix \<Rightarrow> 's \<Rightarrow> IfaceError option \<times> 's" where
  "upAddress l link p s =
    (if Prefix_IsValid p then
       (case netlinkAddrFromPrefix l p of
          Inl e \<Rightarrow> (Some e, s)
        | Inr nlAddr \<Rightarrow>
            (let (err, s) = k_AddrReplace (iface_wg l) link nlAddr s
             in if err then (Some (SetAddress p), s) else (None, s)))
     else (None, s))"

definition Up :: "('s, 'a) linuxIface \<Rightarrow> UpOptions \<Rightarrow> 's \<Rightarrow> IfaceError option \<times> 's" where
  "Up l opts s =
    (case ensureLink l (Up_MTU opts) s of
       (Inl e, s) \<Rightarrow> (Some e, s)
     | (Inr link, s) \<Rightarrow>
         (let (err, s) = (if Up_MTU opts > 0 \<and> Link_MTU link \<noteq> Up_MTU opts
                          then k_LinkSetMTU (iface_wg l) link (Up_MTU opts) s else (False, s))
          in if err then (Some (SetMTU (iface_name l)), s)
             else
               let cfg = \<lparr>Cfg_PrivateKey = Some (Up_PrivateKey opts), Cfg_ListenPort = Some (Up_ListenPort opts),
                          Cfg_ReplacePeers = False, Cfg_Peers = []\<rparr>;
                   (err, s) = k_ConfigureDevice (iface_wg l) (iface_name l) cfg s
               in if err then (Some (ConfigureDeviceFailed (iface_name l)), s)
                  else case upAddress l link (Up_Address opts) s of
                         (Some e, s) \<Rightarrow> (Some e, s)
                       | (None, s) \<Rightarrow>
                           (let (err, s) = k_LinkSetUp (iface_wg l) link s
                            in if err then (Some (LinkUp (iface_name l)), s) else (None, s))))"

text \<open>The device's peers by key; a repeated key keeps the last entry.\<close>

definition currentPeers :: "WgPeer list \<Rightarrow> (Key \<rightharpoonup> Peer)" where
  "currentPeers ps = foldl (\<lambda>m p. m(WP_PublicKey p \<mapsto> wgPeerToDomain p)) Map.empty ps"

definition removeConfig :: "Key \<Rightarrow> PeerConfig" where
  "removeConfig k =
     \<lparr>PC_PublicKey = k, PC_Remove = True, PC_ReplaceAllowedIPs = False, PC_Endpoint = None,
      PC_PersistentKeepaliveInterval = None, PC_AllowedIPs = []\<rparr>"

definition diffConfig :: "Diff \<Rightarrow> PeerConfig list" where
  "diffConfig d =
     map (\<lambda>p. peerToConfig p False) (Added d) @ map (\<lambda>p. peerToConfig p True) (Updated d) @
     map removeConfig (Removed d)"

text \<open>\<open>iter\<close> gives the order in which Go visits the keys of the current map.\<close>

definition ApplyPeers ::
    "(Key set \<Rightarrow> Key list) \<Rightarrow> ('s, 'a) linuxIface \<Rightarrow> Peer list \<Rightarrow> 's \<Rightarrow> (Diff \<times> IfaceError option) \<times> 's" where
  "ApplyPeers iter l desired s =
    (let none = \<lparr>Added = [], Updated = [], Removed = []\<rparr>
     in case k_Device (iface_wg l) (iface_name l) s of
          None \<Rightarrow> ((none, Some (ReadDevice (iface_name l))), s)
        | Some dev \<Rightarrow>
            (let current = currentPeers (Dev_Peers dev);
                 diff = computeDiff (iter (dom current)) current desired
             in if Diff_Empty diff then ((diff, None), s)
                else
                  let cfg = \<lparr>Cfg_PrivateKey = None, Cfg_ListenPort = None, Cfg_ReplacePeers = False,
                             Cfg_Peers = diffConfig diff\<rparr>;
                      (err, s) = k_ConfigureDevice (iface_wg l) (iface_name l) cfg s
                  in if err then ((diff, Some (ConfigurePeers (iface_name l))), s) else ((diff, None), s)))"

record PeerStatus =
  PS_PublicKey :: Key
  PS_Endpoint :: "UDPAddr option"
  PS_AllowedIPs :: "Prefix list"
  PS_LastHandshake :: Time
  PS_BytesReceived :: int
  PS_BytesTransmitted :: int

record Status =
  St_Name :: string
  St_PublicKey :: Key
  St_ListenPort :: int
  St_Peers :: "PeerStatus list"

definition peerStatus :: "WgPeer \<Rightarrow> PeerStatus" where
  "peerStatus p =
     \<lparr>PS_PublicKey = WP_PublicKey p, PS_Endpoint = WP_Endpoint p,
      PS_AllowedIPs = List.map_filter prefixFromIPNet (WP_AllowedIPs p),
      PS_LastHandshake = WP_LastHandshakeTime p, PS_BytesReceived = WP_ReceiveBytes p,
      PS_BytesTransmitted = WP_TransmitBytes p\<rparr>"

definition Iface_Status :: "('s, 'a) linuxIface \<Rightarrow> 's \<Rightarrow> IfaceError + Status" where
  "Iface_Status l s =
    (case k_Device (iface_wg l) (iface_name l) s of
       None \<Rightarrow> Inl (StatusFailed (iface_name l))
     | Some dev \<Rightarrow>
         Inr \<lparr>St_Name = Dev_Name dev, St_PublicKey = Dev_PublicKey dev, St_ListenPort = Dev_ListenPort dev,
              St_Peers = map peerStatus (Dev_Peers dev)\<rparr>)"

definition Down :: "('s, 'a) linuxIface \<Rightarrow> 's \<Rightarrow> IfaceError option \<times> 's" where
  "Down l s =
    (case k_LinkByName (iface_wg l) (iface_name l) s of
       LinkNotFound \<Rightarrow> (None, s)
     | LinkLookupError \<Rightarrow> (Some (LinkLookup (iface_name l)), s)
     | LinkFound link \<Rightarrow>
         (let (err, s) = k_LinkDel (iface_wg l) link s
          in if err then (Some (LinkDelFailed (iface_name l)), s) else (None, s)))"

definition Iface_Close :: "('s, 'a) linuxIface \<Rightarrow> 's \<Rightarrow> bool \<times> 's" where
  "Iface_Close l s = k_Close (iface_wg l) s"

section \<open>Prefixes and networks\<close>

lemma mask_size_32: "b \<le> 32 \<Longrightarrow> Mask_Size (CIDRMask (int b) 32) = (int b, 32)"
proof -
  assume "b \<le> 32"
  then have "b \<in> set [0 ..< 33]" by auto
  moreover have "\<forall>b \<in> set [0 ..< 33]. Mask_Size (CIDRMask (int b) 32) = (int b, 32)" by code_simp
  ultimately show ?thesis by blast
qed

lemma be_value_As4: "be_value (As4 w) = unat w"
proof -
  have o: "unat (ucast (drop_bit (8 * k) w) :: byte) = octet4 w k" for k
    unfolding octet4_def unsigned_ucast_eq unsigned_drop_bit_eq
    using unsigned_less [of w, where ?'a = nat]
    by (simp add: drop_bit_eq_div [where 'a = nat] take_bit_eq_mod [where 'a = nat] power_mult)
  have "be_value (As4 w) = octets_value (map unat (As4 w))"
    by (simp add: be_value_def octets_value_def foldl_map)
  also have "map unat (As4 w) = map (octet4 w) (rev [0 ..< 4])"
    unfolding As4_def map_map by (rule map_cong) (simp_all add: o)
  finally show ?thesis using octets_of_word4 [of w] by (simp add: upt_rec numeral_2_eq_2 numeral_3_eq_3)
qed

lemma As4_length [simp]: "length (As4 w) = 4"
  by (simp add: As4_def)

lemma prefixFromIPNet_roundtrip:
  assumes "ipv4_prefix p"
  shows "prefixFromIPNet (ipNetFromPrefix p) = Some p"
proof -
  obtain w where w: "pfx_ip p = Addr4 w" using assms Is4_cases by (auto simp: ipv4_prefix_def)
  define b where "b = bitsPlusOne p - 1"
  have p: "p = Prefix (Addr4 w) (b + 1)" "b \<le> 32"
    using assms w by (cases p, auto simp: ipv4_prefix_def b_def)+
  have "Prefix_Bits p = int b" by (simp add: p Prefix_Bits_def)
  then show ?thesis
    using mask_size_32 [OF p(2)] p(2)
    by (simp add: prefixFromIPNet_def ipNetFromPrefix_def w AddrFromSlice_def be_value_As4 PrefixFrom_def p(1))
qed

section \<open>Applying peers\<close>

text \<open>
  What wgctrl documents of \<^verbatim>\<open>ConfigureDevice\<close>, on the peers of a device by key: a removal
  deletes the peer; otherwise the peer is created if absent, a nil endpoint or keepalive is
  left unchanged, and the allowed IPs are replaced or extended. The kernel keeps every network
  masked and with one peer only: a network given to a peer is taken from the others.
\<close>

definition mask_net :: "IPNet \<Rightarrow> IPNet" where
  "mask_net n = n\<lparr>Net_IP := map2 (\<lambda>a b. a AND b) (Net_IP n) (Net_Mask n)\<rparr>"

definition fresh_peer :: "Key \<Rightarrow> WgPeer" where
  "fresh_peer k = \<lparr>WP_PublicKey = k, WP_Endpoint = None, WP_PersistentKeepaliveInterval = 0,
     WP_LastHandshakeTime = zero_Time, WP_ReceiveBytes = 0, WP_TransmitBytes = 0, WP_AllowedIPs = []\<rparr>"

definition lose_nets :: "IPNet set \<Rightarrow> WgPeer \<Rightarrow> WgPeer" where
  "lose_nets ns p = p\<lparr>WP_AllowedIPs := filter (\<lambda>n. n \<notin> ns) (WP_AllowedIPs p)\<rparr>"

definition set_peer :: "PeerConfig \<Rightarrow> WgPeer \<Rightarrow> WgPeer" where
  "set_peer c p =
     (let old = (if PC_ReplaceAllowedIPs c then [] else WP_AllowedIPs p);
          new = map mask_net (PC_AllowedIPs c)
      in p\<lparr>WP_Endpoint := (case PC_Endpoint c of None \<Rightarrow> WP_Endpoint p | Some ep \<Rightarrow> Some ep),
           WP_PersistentKeepaliveInterval :=
             (case PC_PersistentKeepaliveInterval c of None \<Rightarrow> WP_PersistentKeepaliveInterval p | Some ka \<Rightarrow> ka),
           WP_AllowedIPs := filter (\<lambda>n. n \<notin> set new) old @ remdups new\<rparr>)"

definition cfg_nets :: "PeerConfig \<Rightarrow> IPNet set" where
  "cfg_nets c = (if PC_Remove c then {} else mask_net ` set (PC_AllowedIPs c))"

definition cfg_peer :: "PeerConfig \<Rightarrow> (Key \<rightharpoonup> WgPeer) \<Rightarrow> (Key \<rightharpoonup> WgPeer)" where
  "cfg_peer c m =
     (if PC_Remove c then m(PC_PublicKey c := None)
      else (\<lambda>k. if k = PC_PublicKey c
                then Some (set_peer c (case m k of None \<Rightarrow> fresh_peer k | Some p \<Rightarrow> p))
                else map_option (lose_nets (cfg_nets c)) (m k)))"

lemma lose_nets_lose [simp]: "lose_nets A (lose_nets B p) = lose_nets (A \<union> B) p"
  by (simp add: lose_nets_def conj_commute)

lemma lose_nets_empty [simp]: "lose_nets {} p = p"
  by (simp add: lose_nets_def)

lemma lose_nets_disjoint: "set (WP_AllowedIPs p) \<inter> ns = {} \<Longrightarrow> lose_nets ns p = p"
proof -
  assume "set (WP_AllowedIPs p) \<inter> ns = {}"
  then have "filter (\<lambda>n. n \<notin> ns) (WP_AllowedIPs p) = WP_AllowedIPs p" by (auto intro: filter_True)
  then show ?thesis by (simp add: lose_nets_def)
qed

lemma fold_cfg_other:
  "k \<notin> PC_PublicKey ` set cs \<Longrightarrow> fold cfg_peer cs m k = map_option (lose_nets (\<Union> (cfg_nets ` set cs))) (m k)"
proof (induction cs arbitrary: m)
  case Nil
  then show ?case by (simp add: option.map_ident_strong)
next
  case (Cons c cs)
  have "cfg_peer c m k = map_option (lose_nets (cfg_nets c)) (m k)"
    using Cons.prems by (auto simp: cfg_peer_def cfg_nets_def option.map_ident_strong)
  then show ?case using Cons by (simp add: option.map_comp comp_def Un_commute)
qed

lemma fold_cfg_own:
  assumes "distinct (map PC_PublicKey (as @ c # bs))"
  shows "fold cfg_peer (as @ c # bs) m (PC_PublicKey c) =
    (if PC_Remove c then None
     else Some (lose_nets (\<Union> (cfg_nets ` set bs))
       (set_peer c (case m (PC_PublicKey c) of
          None \<Rightarrow> fresh_peer (PC_PublicKey c) | Some p \<Rightarrow> lose_nets (\<Union> (cfg_nets ` set as)) p))))"
proof -
  have d: "PC_PublicKey c \<notin> PC_PublicKey ` set as" "PC_PublicKey c \<notin> PC_PublicKey ` set bs"
    using assms by auto
  show ?thesis by (simp add: fold_cfg_other [OF d(2)] cfg_peer_def fold_cfg_other [OF d(1)] split: option.split)
qed

text \<open>Two peers that read the same through the domain conversion.\<close>

definition peer_like :: "WgPeer \<Rightarrow> WgPeer \<Rightarrow> bool" where
  "peer_like p q \<longleftrightarrow> WP_PublicKey p = WP_PublicKey q \<and> udpAddrsEqual (WP_Endpoint p) (WP_Endpoint q) \<and>
     mset (WP_AllowedIPs p) = mset (WP_AllowedIPs q) \<and>
     WP_PersistentKeepaliveInterval p = WP_PersistentKeepaliveInterval q"

definition peer_table :: "WgPeer list \<Rightarrow> (Key \<rightharpoonup> WgPeer)" where
  "peer_table ps = map_of (map (\<lambda>p. (WP_PublicKey p, p)) ps)"

text \<open>
  The kernel serves the device \<open>name\<close> as documented: the peers it lists have distinct keys, and
  a configuration that succeeds has the effect of \<open>cfg_peer\<close> on each entry in turn.
\<close>

definition device_ok :: "('s, 'a) kernel \<Rightarrow> string \<Rightarrow> bool" where
  "device_ok k name \<longleftrightarrow>
     (\<forall>s dev. k_Device k name s = Some dev \<longrightarrow> distinct (map WP_PublicKey (Dev_Peers dev))) \<and>
     (\<forall>s s' cfg dev dev'. k_ConfigureDevice k name cfg s = (False, s') \<longrightarrow> \<not> Cfg_ReplacePeers cfg \<longrightarrow>
        k_Device k name s = Some dev \<longrightarrow> k_Device k name s' = Some dev' \<longrightarrow>
        (\<forall>j. rel_option peer_like (peer_table (Dev_Peers dev') j)
              (fold cfg_peer (Cfg_Peers cfg) (peer_table (Dev_Peers dev)) j)))"

text \<open>Go visits each key of a map once.\<close>

definition enumerates :: "(Key set \<Rightarrow> Key list) \<Rightarrow> bool" where
  "enumerates iter \<longleftrightarrow> (\<forall>A. finite A \<longrightarrow> set (iter A) = A \<and> distinct (iter A))"

definition canonical :: "Prefix \<Rightarrow> bool" where
  "canonical p \<longleftrightarrow> ipv4_prefix p \<and> mask_net (ipNetFromPrefix p) = ipNetFromPrefix p"

text \<open>
  A peer set the kernel can hold: distinct keys, masked IPv4 prefixes, none listed twice or
  under two peers.
\<close>

definition installable :: "Peer list \<Rightarrow> bool" where
  "installable ps \<longleftrightarrow>
     distinct (map Peer_PublicKey ps) \<and>
     (\<forall>p \<in> set ps. distinct (Peer_AllowedIPs p) \<and> (\<forall>x \<in> set (Peer_AllowedIPs p). canonical x)) \<and>
     (\<forall>p \<in> set ps. \<forall>q \<in> set ps. p \<noteq> q \<longrightarrow> set (Peer_AllowedIPs p) \<inter> set (Peer_AllowedIPs q) = {})"

text \<open>No nil field of a desired peer stands for a value the kernel already holds.\<close>

definition settable :: "(Key \<rightharpoonup> WgPeer) \<Rightarrow> Peer \<Rightarrow> bool" where
  "settable m p \<longleftrightarrow> (\<forall>q. m (Peer_PublicKey p) = Some q \<longrightarrow>
     (Peer_Endpoint p = None \<longrightarrow> WP_Endpoint q = None) \<and>
     (Peer_PersistentKeepalive p \<le> 0 \<longrightarrow> WP_PersistentKeepaliveInterval q \<le> 0))"

lemma peer_table_Some:
  "distinct (map WP_PublicKey ps) \<Longrightarrow> peer_table ps k = Some p \<longleftrightarrow> p \<in> set ps \<and> WP_PublicKey p = k"
  unfolding peer_table_def by (subst map_of_eq_Some_iff) (auto simp: comp_def)

lemma foldl_upd_eq: "foldl (\<lambda>m p. m(f p \<mapsto> g p)) m ps = m ++ map_of (map (\<lambda>p. (f p, g p)) (rev ps))"
proof (induction ps rule: rev_induct)
  case (snoc p ps)
  then show ?case by (auto simp: fun_eq_iff map_add_def)
qed simp

lemma currentPeers_eq:
  assumes "distinct (map WP_PublicKey ps)"
  shows "currentPeers ps = (\<lambda>k. map_option wgPeerToDomain (peer_table ps k))"
proof (rule ext)
  fix k
  have "map_of (map (\<lambda>p. (WP_PublicKey p, wgPeerToDomain p)) (rev ps)) =
      map_of (map (\<lambda>p. (WP_PublicKey p, wgPeerToDomain p)) ps)"
    using assms by (subst map_of_inject_set) (simp_all add: rev_map [symmetric] comp_def)
  then have "map_of (map (\<lambda>p. (WP_PublicKey p, wgPeerToDomain p)) (rev ps)) k =
      map_of (map (\<lambda>p. (WP_PublicKey p, wgPeerToDomain p)) ps) k" by simp
  also have "\<dots> = map_option wgPeerToDomain (peer_table ps k)"
    unfolding peer_table_def by (induction ps) auto
  finally show "currentPeers ps k = map_option wgPeerToDomain (peer_table ps k)"
    by (simp add: currentPeers_def foldl_upd_eq)
qed

lemma map_filter_nets:
  "\<forall>x \<in> set xs. ipv4_prefix x \<Longrightarrow> List.map_filter prefixFromIPNet (map ipNetFromPrefix xs) = xs"
  by (induction xs) (simp_all add: prefixFromIPNet_roundtrip List.map_filter_simps)

lemma map_filter_mset: "mset (List.map_filter f xs) = image_mset (\<lambda>x. the (f x)) (filter_mset (\<lambda>x. f x \<noteq> None) (mset xs))"
  by (simp add: List.map_filter_def comp_def)

lemma IP_Equal_trans: "IP_Equal a b \<Longrightarrow> IP_Equal b c \<Longrightarrow> IP_Equal a c"
  unfolding IP_Equal_def by (auto split: if_splits) (metis append_take_drop_id)+

lemma udpAddrsEqual_trans: "udpAddrsEqual a b \<Longrightarrow> udpAddrsEqual b c \<Longrightarrow> udpAddrsEqual a c"
  by (cases a; cases b; cases c) (auto intro: IP_Equal_trans)

lemma peer_like_peersEqual:
  assumes like: "peer_like q' q" and eq: "peersEqual (wgPeerToDomain q) p"
    and v4: "\<forall>x \<in> set (Peer_AllowedIPs p). ipv4_prefix x"
  shows "peersEqual (wgPeerToDomain q') p"
proof -
  have "mset (Peer_AllowedIPs (wgPeerToDomain q')) = mset (Peer_AllowedIPs (wgPeerToDomain q))"
    using like by (simp add: wgPeerToDomain_def map_filter_mset peer_like_def)
  also have "\<dots> = mset (Peer_AllowedIPs p)"
    using eq prefixSetsEqual_sound by (auto simp: peersEqual_iff)
  finally have m: "mset (Peer_AllowedIPs (wgPeerToDomain q')) = mset (Peer_AllowedIPs p)" .
  then have "prefixSetsEqual (Peer_AllowedIPs (wgPeerToDomain q')) (Peer_AllowedIPs p)"
    using v4 by (subst prefixSetsEqual_iff) (auto dest: mset_eq_setD)
  then show ?thesis
    using like eq udpAddrsEqual_trans by (auto simp: peersEqual_iff wgPeerToDomain_def peer_like_def)
qed

section \<open>Convergence\<close>

lemma set_peer_simps [simp]:
  "WP_PublicKey (set_peer c p) = WP_PublicKey p" "WP_PublicKey (lose_nets ns p) = WP_PublicKey p"
  "WP_Endpoint (lose_nets ns p) = WP_Endpoint p"
  "WP_PersistentKeepaliveInterval (lose_nets ns p) = WP_PersistentKeepaliveInterval p"
  "WP_Endpoint (set_peer c p) = (case PC_Endpoint c of None \<Rightarrow> WP_Endpoint p | Some ep \<Rightarrow> Some ep)"
  "WP_PersistentKeepaliveInterval (set_peer c p) =
     (case PC_PersistentKeepaliveInterval c of None \<Rightarrow> WP_PersistentKeepaliveInterval p | Some ka \<Rightarrow> ka)"
  by (simp_all add: set_peer_def lose_nets_def Let_def)

lemma ipNet_inj: "ipv4_prefix x \<Longrightarrow> ipv4_prefix y \<Longrightarrow> ipNetFromPrefix x = ipNetFromPrefix y \<Longrightarrow> x = y"
  by (metis option.inject prefixFromIPNet_roundtrip)

lemma canonical_nets:
  assumes "\<forall>x \<in> set xs. canonical x" "distinct xs"
  shows "remdups (map mask_net (map ipNetFromPrefix xs)) = map ipNetFromPrefix xs"
proof -
  have "map mask_net (map ipNetFromPrefix xs) = map ipNetFromPrefix xs"
    using assms(1) by (auto simp: canonical_def)
  moreover have "distinct (map ipNetFromPrefix xs)"
    using assms ipNet_inj by (auto simp: distinct_map canonical_def inj_on_def)
  ultimately show ?thesis by (simp only: distinct_remdups_id)
qed

lemma set_peer_config:
  assumes p: "\<forall>x \<in> set (Peer_AllowedIPs p). canonical x" "distinct (Peer_AllowedIPs p)"
    and key: "WP_PublicKey q = Peer_PublicKey p" and old: "r \<or> WP_AllowedIPs q = []"
    and ep: "Peer_Endpoint p = None \<longrightarrow> WP_Endpoint q = None"
    and ka: "Peer_PersistentKeepalive p \<le> 0 \<longrightarrow> WP_PersistentKeepaliveInterval q \<le> 0"
  shows "WP_AllowedIPs (set_peer (peerToConfig p r) q) = map ipNetFromPrefix (Peer_AllowedIPs p)"
    and "peersEqual (wgPeerToDomain (set_peer (peerToConfig p r) q)) p"
proof -
  show nets: "WP_AllowedIPs (set_peer (peerToConfig p r) q) = map ipNetFromPrefix (Peer_AllowedIPs p)"
    using old canonical_nets [OF p] by (auto simp: set_peer_def peerToConfig_def Let_def)
  have "List.map_filter prefixFromIPNet (map ipNetFromPrefix (Peer_AllowedIPs p)) = Peer_AllowedIPs p"
    using p(1) by (intro map_filter_nets) (simp add: canonical_def)
  then have "Peer_AllowedIPs (wgPeerToDomain (set_peer (peerToConfig p r) q)) = Peer_AllowedIPs p"
    by (simp add: wgPeerToDomain_def nets)
  moreover have "Peer_Endpoint (wgPeerToDomain (set_peer (peerToConfig p r) q)) = Peer_Endpoint p"
    using ep by (simp add: wgPeerToDomain_def peerToConfig_def split: option.split)
  moreover have "normalizeKeepalive (Peer_PersistentKeepalive (wgPeerToDomain (set_peer (peerToConfig p r) q))) =
      normalizeKeepalive (Peer_PersistentKeepalive p)"
    using ka by (auto simp: wgPeerToDomain_def peerToConfig_def normalizeKeepalive_def)
  moreover have "Peer_PublicKey (wgPeerToDomain (set_peer (peerToConfig p r) q)) = Peer_PublicKey p"
    using key by (simp add: wgPeerToDomain_def)
  ultimately show "peersEqual (wgPeerToDomain (set_peer (peerToConfig p r) q)) p" by (simp add: peersEqual_iff)
qed

lemma config_simps [simp]:
  "PC_PublicKey (peerToConfig p r) = Peer_PublicKey p" "\<not> PC_Remove (peerToConfig p r)"
  "PC_AllowedIPs (peerToConfig p r) = map ipNetFromPrefix (Peer_AllowedIPs p)"
  "PC_PublicKey (removeConfig k) = k" "PC_Remove (removeConfig k)" "cfg_nets (removeConfig k) = {}"
  by (simp_all add: peerToConfig_def removeConfig_def cfg_nets_def)

lemma config_nets:
  assumes "installable ps" "p \<in> set ps"
  shows "cfg_nets (peerToConfig p r) = ipNetFromPrefix ` set (Peer_AllowedIPs p)"
proof -
  have "mask_net (ipNetFromPrefix x) = ipNetFromPrefix x" if "x \<in> set (Peer_AllowedIPs p)" for x
    using assms that by (simp add: installable_def canonical_def)
  then show ?thesis by (simp add: cfg_nets_def image_image)
qed

lemma nets_apart:
  assumes ins: "installable ps" and p: "p \<in> set ps" "q \<in> set ps" "p \<noteq> q"
  shows "cfg_nets (peerToConfig q r) \<inter> ipNetFromPrefix ` set (Peer_AllowedIPs p) = {}"
proof -
  have v4: "ipv4_prefix x" if "x \<in> set (Peer_AllowedIPs p) \<union> set (Peer_AllowedIPs q)" for x
    using ins p that by (auto simp: installable_def canonical_def)
  have "set (Peer_AllowedIPs p) \<inter> set (Peer_AllowedIPs q) = {}" using ins p by (auto simp: installable_def)
  then have "ipNetFromPrefix x \<noteq> ipNetFromPrefix y" if "x \<in> set (Peer_AllowedIPs q)" "y \<in> set (Peer_AllowedIPs p)" for x y
    using ipNet_inj [of x y] v4 that by blast
  then show ?thesis unfolding config_nets [OF ins p(2)] by blast
qed

lemma diffConfig_cases:
  assumes "c \<in> set (diffConfig (computeDiff it current desired))"
  obtains (set) p r where "p \<in> set desired" "c = peerToConfig p r" "is_new current p \<or> is_changed current p"
    | (rem) k where "k \<notin> Peer_PublicKey ` set desired" "c = removeConfig k"
  using assms by (auto simp: diffConfig_def computeDiff_eq)

lemma diffConfig_keys:
  "map PC_PublicKey (diffConfig (computeDiff it current desired)) =
     map Peer_PublicKey (filter (is_new current) desired) @ map Peer_PublicKey (filter (is_changed current) desired) @
     filter (\<lambda>k. k \<notin> Peer_PublicKey ` set desired) it"
  by (simp add: diffConfig_def computeDiff_eq comp_def)

lemma diffConfig_distinct:
  assumes "distinct (map Peer_PublicKey desired)" "distinct it"
  shows "distinct (map PC_PublicKey (diffConfig (computeDiff it current desired)))"
proof -
  have "Peer_PublicKey p \<noteq> Peer_PublicKey q" if "is_new current p" "is_changed current q" for p q
    using that by (auto simp: is_new_def is_changed_def)
  then show ?thesis
    unfolding diffConfig_keys using assms by (auto simp: distinct_map_filter)
qed

lemma apply_entry_set:
  assumes ins: "installable desired" and it: "distinct it"
    and cur: "current = (\<lambda>k. map_option wgPeerToDomain (m k))"
    and keyed: "\<And>k q. m k = Some q \<Longrightarrow> WP_PublicKey q = k"
    and p: "p \<in> set desired" "settable m p" "is_new current p \<or> is_changed current p"
  shows "\<exists>q. fold cfg_peer (diffConfig (computeDiff it current desired)) m (Peer_PublicKey p) = Some q \<and>
    peersEqual (wgPeerToDomain q) p"
proof -
  let ?cs = "diffConfig (computeDiff it current desired)"
  have keys: "distinct (map Peer_PublicKey desired)" using ins by (simp add: installable_def)
  define r where "r = is_changed current p"
  have "peerToConfig p r \<in> set ?cs"
    using p by (auto simp: diffConfig_def computeDiff_eq r_def is_new_def is_changed_def)
  then obtain as bs where cs: "?cs = as @ peerToConfig p r # bs" by (meson split_list)
  have dist: "distinct (map PC_PublicKey (as @ peerToConfig p r # bs))"
    using diffConfig_distinct [OF keys it, of current] cs by simp
  define q0 where "q0 = (case m (Peer_PublicKey p) of None \<Rightarrow> fresh_peer (Peer_PublicKey p)
      | Some q \<Rightarrow> lose_nets (\<Union> (cfg_nets ` set as)) q)"
  have q0: "WP_PublicKey q0 = Peer_PublicKey p" "r \<or> WP_AllowedIPs q0 = []"
      "Peer_Endpoint p = None \<longrightarrow> WP_Endpoint q0 = None"
      "Peer_PersistentKeepalive p \<le> 0 \<longrightarrow> WP_PersistentKeepaliveInterval q0 \<le> 0"
    using p keyed by (auto simp: q0_def r_def fresh_peer_def settable_def is_new_def cur split: option.splits)
  have cp: "\<forall>x \<in> set (Peer_AllowedIPs p). canonical x" "distinct (Peer_AllowedIPs p)"
    using ins p(1) by (auto simp: installable_def)
  note sp = set_peer_config [OF cp q0]
  have own: "fold cfg_peer ?cs m (Peer_PublicKey p) =
      Some (lose_nets (\<Union> (cfg_nets ` set bs)) (set_peer (peerToConfig p r) q0))"
    using fold_cfg_own [OF dist, of m] unfolding cs config_simps q0_def by simp
  have "cfg_nets c \<inter> ipNetFromPrefix ` set (Peer_AllowedIPs p) = {}" if "c \<in> set bs" for c
  proof -
    have "c \<in> set ?cs" using that cs by simp
    then show ?thesis
    proof (cases rule: diffConfig_cases)
      case (set q r')
      have "PC_PublicKey c \<noteq> Peer_PublicKey p" using dist that by (force simp del: distinct_map)
      then have "p \<noteq> q" using set by auto
      then show ?thesis using nets_apart [OF ins p(1) set(1)] set(2) by blast
    qed simp
  qed
  then have "lose_nets (\<Union> (cfg_nets ` set bs)) (set_peer (peerToConfig p r) q0) = set_peer (peerToConfig p r) q0"
    by (intro lose_nets_disjoint) (auto simp: sp(1) disjoint_iff)
  then show ?thesis using own sp(2) by simp
qed

lemma apply_entry_kept:
  assumes ins: "installable desired"
    and cur: "current = (\<lambda>k. map_option wgPeerToDomain (m k))"
    and p: "p \<in> set desired" "m (Peer_PublicKey p) = Some q" "peersEqual (wgPeerToDomain q) p"
  shows "fold cfg_peer (diffConfig (computeDiff it current desired)) m (Peer_PublicKey p) = Some q"
proof -
  let ?cs = "diffConfig (computeDiff it current desired)"
  have inj: "p' = p" if "p' \<in> set desired" "Peer_PublicKey p' = Peer_PublicKey p" for p'
    using ins p(1) that by (auto simp: installable_def distinct_map dest: inj_onD)
  have unch: "\<not> is_new current p" "\<not> is_changed current p"
    using p by (simp_all add: is_new_def is_changed_def cur)
  have notin: "Peer_PublicKey p \<notin> PC_PublicKey ` set ?cs"
  proof
    assume "Peer_PublicKey p \<in> PC_PublicKey ` set ?cs"
    then obtain c where c: "c \<in> set ?cs" "Peer_PublicKey p = PC_PublicKey c" by blast
    from c(1) show False
    proof (cases rule: diffConfig_cases)
      case (set p' r)
      then have "p' = p" using c(2) inj by simp
      then show ?thesis using set(3) unch by simp
    next
      case (rem k)
      then have "Peer_PublicKey p = k" using c(2) by simp
      then show ?thesis using rem(1) p(1) by blast
    qed
  qed
  have "cfg_nets c \<inter> set (WP_AllowedIPs q) = {}" if c: "c \<in> set ?cs" for c
    using c
  proof (cases rule: diffConfig_cases)
    case (set p' r)
    then have "p' \<noteq> p" using unch by blast
    then have apart: "set (Peer_AllowedIPs p) \<inter> set (Peer_AllowedIPs p') = {}"
      using ins p(1) set(1) by (auto simp: installable_def)
    have "mset (Peer_AllowedIPs (wgPeerToDomain q)) = mset (Peer_AllowedIPs p)"
      using p(3) prefixSetsEqual_sound by (simp add: peersEqual_iff)
    from mset_eq_setD [OF this]
    have allowed: "set (List.map_filter prefixFromIPNet (WP_AllowedIPs q)) = set (Peer_AllowedIPs p)"
      by (simp add: wgPeerToDomain_def)
    have "x \<in> set (Peer_AllowedIPs p)" if "ipNetFromPrefix x \<in> set (WP_AllowedIPs q)" "x \<in> set (Peer_AllowedIPs p')" for x
    proof -
      have "prefixFromIPNet (ipNetFromPrefix x) = Some x"
        using ins set(1) that(2) by (intro prefixFromIPNet_roundtrip) (auto simp: installable_def canonical_def)
      then show ?thesis using that(1) allowed by (force simp: List.map_filter_def)
    qed
    then show ?thesis
      using apart unfolding set(2) config_nets [OF ins set(1)] by (auto simp: disjoint_iff)
  qed simp
  then have "lose_nets (\<Union> (cfg_nets ` set ?cs)) q = q"
    by (intro lose_nets_disjoint) (auto simp: disjoint_iff)
  then show ?thesis using fold_cfg_other [OF notin, of m] p(2) by simp
qed

lemma apply_entry_gone:
  assumes keys: "distinct (map Peer_PublicKey desired)" and it: "distinct it" "set it = dom m"
    and k: "k \<notin> Peer_PublicKey ` set desired"
  shows "fold cfg_peer (diffConfig (computeDiff it current desired)) m k = None"
proof (cases "k \<in> dom m")
  case True
  let ?cs = "diffConfig (computeDiff it current desired)"
  have "removeConfig k \<in> set ?cs" using True it k by (simp add: diffConfig_def computeDiff_eq)
  then obtain as bs where cs: "?cs = as @ removeConfig k # bs" by (meson split_list)
  have "distinct (map PC_PublicKey (as @ removeConfig k # bs))"
    using diffConfig_distinct [OF keys it(1), of current] cs by simp
  from fold_cfg_own [OF this, of m] show ?thesis by (simp add: cs)
next
  case False
  then have "k \<notin> PC_PublicKey ` set (diffConfig (computeDiff it current desired))"
    using it k unfolding set_map [symmetric] diffConfig_keys by auto
  then show ?thesis using fold_cfg_other False by (simp add: domIff)
qed

lemma device_okD:
  assumes "device_ok k name"
  shows "k_Device k name s = Some dev \<Longrightarrow> distinct (map WP_PublicKey (Dev_Peers dev))"
    and "k_ConfigureDevice k name cfg s = (False, s') \<Longrightarrow> \<not> Cfg_ReplacePeers cfg \<Longrightarrow>
      k_Device k name s = Some dev \<Longrightarrow> k_Device k name s' = Some dev' \<Longrightarrow>
      rel_option peer_like (peer_table (Dev_Peers dev') j) (fold cfg_peer (Cfg_Peers cfg) (peer_table (Dev_Peers dev)) j)"
  using assms unfolding device_ok_def by blast+

lemma ApplyPeers_sends:
  assumes dev: "k_Device (iface_wg l) (iface_name l) s = Some dev"
    and run: "ApplyPeers iter l desired s = ((d, None), s')"
    and ne: "\<not> Diff_Empty (computeDiff (iter (dom (currentPeers (Dev_Peers dev)))) (currentPeers (Dev_Peers dev)) desired)"
  shows "\<exists>cfg. k_ConfigureDevice (iface_wg l) (iface_name l) cfg s = (False, s') \<and> \<not> Cfg_ReplacePeers cfg \<and>
    Cfg_Peers cfg = diffConfig d \<and>
    d = computeDiff (iter (dom (currentPeers (Dev_Peers dev)))) (currentPeers (Dev_Peers dev)) desired"
proof -
  let ?d = "computeDiff (iter (dom (currentPeers (Dev_Peers dev)))) (currentPeers (Dev_Peers dev)) desired"
  let ?cfg = "\<lparr>Cfg_PrivateKey = None, Cfg_ListenPort = None, Cfg_ReplacePeers = False, Cfg_Peers = diffConfig ?d\<rparr>"
  obtain err s1 where c: "k_ConfigureDevice (iface_wg l) (iface_name l) ?cfg s = (err, s1)" by fastforce
  have "ApplyPeers iter l desired s = (if err then ((?d, Some (ConfigurePeers (iface_name l))), s1) else ((?d, None), s1))"
    using ne by (simp add: ApplyPeers_def Let_def dev c)
  then have "\<not> err" "s1 = s'" "d = ?d" using run by (auto split: if_splits)
  then show ?thesis using c by (intro exI [of _ ?cfg]) simp
qed


text \<open>
  C37. A nil endpoint is not a wish the kernel can be told: when a desired peer has none and the
  kernel has learned one from a handshake, every \<open>ApplyPeers\<close> finds the peer changed, sends a
  configuration that leaves the endpoint as it is, and finds it changed again.
\<close>

theorem ApplyPeers_learned_endpoint:
  assumes dev_ok: "device_ok (iface_wg l) (iface_name l)" and iter: "enumerates iter" and ins: "installable desired"
    and dev: "k_Device (iface_wg l) (iface_name l) s = Some dev"
    and p: "p \<in> set desired" "Peer_Endpoint p = None"
    and q: "peer_table (Dev_Peers dev) (Peer_PublicKey p) = Some q" "WP_Endpoint q \<noteq> None"
    and run: "ApplyPeers iter l desired s = ((d, None), s')"
    and dev': "k_Device (iface_wg l) (iface_name l) s' = Some dev'"
  shows "p \<in> set (Updated d) \<and>
    (\<exists>q'. peer_table (Dev_Peers dev') (Peer_PublicKey p) = Some q' \<and> WP_Endpoint q' \<noteq> None)"
proof -
  let ?m = "peer_table (Dev_Peers dev)" and ?cur = "currentPeers (Dev_Peers dev)"
  have dist: "distinct (map WP_PublicKey (Dev_Peers dev))" using dev_ok dev unfolding device_ok_def by blast
  have keys: "distinct (map Peer_PublicKey desired)" using ins by (simp add: installable_def)
  have fin: "finite (dom ?cur)" by (simp add: currentPeers_def foldl_upd_eq finite_dom_map_of)
  have it: "distinct (iter (dom ?cur))" using iter fin unfolding enumerates_def by blast
  have ch: "is_changed ?cur p"
    using p q by (cases "WP_Endpoint q")
      (auto simp: is_changed_def currentPeers_eq [OF dist] peersEqual_iff wgPeerToDomain_def)
  let ?d = "computeDiff (iter (dom ?cur)) ?cur desired"
  have upd: "p \<in> set (Updated ?d)" using ch p(1) by (simp add: computeDiff_eq)
  then have ne: "\<not> Diff_Empty ?d" by (auto simp: Diff_Empty_def)
  obtain cfg where cfg: "k_ConfigureDevice (iface_wg l) (iface_name l) cfg s = (False, s')" "\<not> Cfg_ReplacePeers cfg"
      "Cfg_Peers cfg = diffConfig ?d" and d: "d = ?d"
    using ApplyPeers_sends [OF dev run ne] by blast
  have "peerToConfig p True \<in> set (diffConfig ?d)" using upd by (simp add: diffConfig_def)
  then obtain as bs where cs: "diffConfig ?d = as @ peerToConfig p True # bs" by (meson split_list)
  have "distinct (map PC_PublicKey (as @ peerToConfig p True # bs))"
    using diffConfig_distinct [OF keys it, of ?cur] cs by simp
  from fold_cfg_own [OF this, of ?m] obtain r where
      r: "fold cfg_peer (diffConfig ?d) ?m (Peer_PublicKey p) = Some r" "WP_Endpoint r = WP_Endpoint q"
    using q(1) p(2) by (simp add: cs) (simp add: peerToConfig_def)
  have "rel_option peer_like (peer_table (Dev_Peers dev') (Peer_PublicKey p)) (Some r)"
    using device_okD(2) [OF dev_ok, OF cfg(1,2) dev dev', of "Peer_PublicKey p"] r(1) cfg(3) by simp
  then obtain q' where "peer_table (Dev_Peers dev') (Peer_PublicKey p) = Some q'" "peer_like q' r"
    by (cases "peer_table (Dev_Peers dev') (Peer_PublicKey p)") auto
  then show ?thesis
    using upd d r(2) q(2) by (cases "WP_Endpoint q'"; cases "WP_Endpoint q") (auto simp: peer_like_def)
qed

section \<open>A device in memory\<close>

definition cfg_list :: "PeerConfig \<Rightarrow> WgPeer list \<Rightarrow> WgPeer list" where
  "cfg_list c ps =
     (if PC_Remove c then filter (\<lambda>p. WP_PublicKey p \<noteq> PC_PublicKey c) ps
      else let qs = map (\<lambda>p. if WP_PublicKey p = PC_PublicKey c then set_peer c p else lose_nets (cfg_nets c) p) ps
           in if PC_PublicKey c \<in> WP_PublicKey ` set ps then qs
              else qs @ [set_peer c (fresh_peer (PC_PublicKey c))])"

definition mem_kernel :: "(WgPeer list, unit) kernel" where
  "mem_kernel =
    \<lparr>k_LinkByName = (\<lambda>n s. LinkFound \<lparr>Link_Name = n, Link_MTU = 1420\<rparr>),
     k_LinkAdd = (\<lambda>l s. (False, s)), k_LinkSetMTU = (\<lambda>l m s. (False, s)), k_LinkSetUp = (\<lambda>l s. (False, s)),
     k_LinkDel = (\<lambda>l s. (False, [])), k_ParseAddr = (\<lambda>a. Some ()), k_AddrReplace = (\<lambda>l a s. (False, s)),
     k_Device = (\<lambda>n s. if distinct (map WP_PublicKey s)
       then Some \<lparr>Dev_Name = n, Dev_PublicKey = 0, Dev_ListenPort = 0, Dev_Peers = s\<rparr> else None),
     k_ConfigureDevice = (\<lambda>n cfg s. (False, fold cfg_list (Cfg_Peers cfg) s)),
     k_Close = (\<lambda>s. (False, s))\<rparr>"

definition mem_iface :: "(WgPeer list, unit) linuxIface" where
  "mem_iface = \<lparr>iface_name = ''wg0'', iface_wg = mem_kernel\<rparr>"

lemma peer_table_filter:
  "peer_table (filter (\<lambda>p. WP_PublicKey p \<noteq> k) ps) = (peer_table ps)(k := None)"
  by (induction ps) (auto simp: peer_table_def fun_eq_iff)

lemma peer_table_map:
  assumes "\<And>p. WP_PublicKey (f p) = WP_PublicKey p"
  shows "peer_table (map f ps) k = map_option f (peer_table ps k)"
  using assms by (induction ps) (auto simp: peer_table_def)

lemma peer_table_snoc:
  "peer_table (ps @ [p]) k = (case peer_table ps k of None \<Rightarrow> if k = WP_PublicKey p then Some p else None | Some q \<Rightarrow> Some q)"
  by (induction ps) (auto simp: peer_table_def)

lemma peer_table_None: "peer_table ps k = None \<longleftrightarrow> k \<notin> WP_PublicKey ` set ps"
  by (simp add: peer_table_def map_of_eq_None_iff image_image)

lemma peer_table_key: "peer_table ps k = Some p \<Longrightarrow> WP_PublicKey p = k"
  by (auto simp: peer_table_def dest!: map_of_SomeD)

lemma fresh_key [simp]: "WP_PublicKey (fresh_peer k) = k"
  by (simp add: fresh_peer_def)

lemma peer_table_cfg_list: "peer_table (cfg_list c ps) = cfg_peer c (peer_table ps)"
proof (cases "PC_Remove c")
  case True
  then show ?thesis by (simp add: cfg_list_def cfg_peer_def peer_table_filter)
next
  case False
  let ?f = "\<lambda>p. if WP_PublicKey p = PC_PublicKey c then set_peer c p else lose_nets (cfg_nets c) p"
  have m: "peer_table (map ?f ps) k = map_option ?f (peer_table ps k)" for k
    by (rule peer_table_map) simp
  show ?thesis
  proof (rule ext)
    fix k
    show "peer_table (cfg_list c ps) k = cfg_peer c (peer_table ps) k"
    proof (cases "peer_table ps k")
      case None
      then show ?thesis
        using False m [of k] peer_table_None [of ps k] by (auto simp: cfg_list_def cfg_peer_def Let_def peer_table_snoc)
    next
      case (Some p)
      then show ?thesis
        using False m [of k] peer_table_key [OF Some] by (auto simp: cfg_list_def cfg_peer_def Let_def peer_table_snoc)
    qed
  qed
qed

lemma peer_table_fold: "peer_table (fold cfg_list cs ps) = fold cfg_peer cs (peer_table ps)"
  by (induction cs arbitrary: ps) (simp_all add: peer_table_cfg_list)

lemma cfg_list_distinct:
  "distinct (map WP_PublicKey ps) \<Longrightarrow> distinct (map WP_PublicKey (fold cfg_list cs ps))"
proof (induction cs arbitrary: ps)
  case (Cons c cs)
  have keys: "map WP_PublicKey (map (\<lambda>p. if WP_PublicKey p = PC_PublicKey c then set_peer c p else lose_nets (cfg_nets c) p) ps) =
      map WP_PublicKey ps"
    by simp
  have "distinct (map WP_PublicKey (cfg_list c ps))"
  proof (cases "PC_Remove c")
    case True
    then show ?thesis using Cons.prems by (simp add: cfg_list_def distinct_map_filter)
  next
    case False
    then show ?thesis using Cons.prems unfolding cfg_list_def Let_def
      by (simp only: if_False map_append keys split: if_split) auto
  qed
  then show ?case using Cons.IH by simp
qed simp

lemma udp_refl_option: "rel_option peer_like x x"
  by (cases x) (simp_all add: peer_like_def)

lemma mem_kernel_ok: "device_ok (iface_wg mem_iface) (iface_name mem_iface)"
  by (auto simp: device_ok_def mem_iface_def mem_kernel_def peer_table_fold udp_refl_option split: if_splits)

lemma enumerates_ex: "\<exists>iter. enumerates iter"
proof -
  have "\<forall>A. \<exists>xs :: Key list. finite A \<longrightarrow> set xs = A \<and> distinct xs" by (meson finite_distinct_list)
  then show ?thesis unfolding enumerates_def by metis
qed

definition hub_peer :: Peer where
  "hub_peer = \<lparr>Peer_Name = ''hub'', Peer_PublicKey = 7,
     Peer_Endpoint = Some \<lparr>UDP_IP = [192, 0, 2, 1], UDP_Port = 51820, UDP_Zone = []\<rparr>,
     Peer_AllowedIPs = [Prefix (Addr4 0x64400000) 11], Peer_PersistentKeepalive = 25\<rparr>"

lemma hub_peer_installable: "installable [hub_peer]" "installable [hub_peer\<lparr>Peer_Endpoint := None\<rparr>]"
proof -
  have "mask_net (ipNetFromPrefix (Prefix (Addr4 0x64400000) 11)) = ipNetFromPrefix (Prefix (Addr4 0x64400000) 11)"
    by code_simp
  then show "installable [hub_peer]" "installable [hub_peer\<lparr>Peer_Endpoint := None\<rparr>]"
    by (simp_all add: installable_def canonical_def hub_peer_def ipv4_prefix_def)
qed


theorem ApplyPeers_learned_endpoint_witness:
  "\<exists>iter d s'. ApplyPeers iter mem_iface [hub_peer\<lparr>Peer_Endpoint := None\<rparr>]
      [set_peer (peerToConfig hub_peer False) (fresh_peer 7)] = ((d, None), s') \<and>
     hub_peer\<lparr>Peer_Endpoint := None\<rparr> \<in> set (Updated d)"
proof -
  let ?p = "hub_peer\<lparr>Peer_Endpoint := None\<rparr>" and ?q = "set_peer (peerToConfig hub_peer False) (fresh_peer 7)"
  obtain iter where it: "enumerates iter" using enumerates_ex by blast
  let ?dev = "\<lparr>Dev_Name = ''wg0'', Dev_PublicKey = 0, Dev_ListenPort = 0, Dev_Peers = [?q]\<rparr>"
  have dev: "k_Device (iface_wg mem_iface) (iface_name mem_iface) [?q] = Some ?dev"
    by (simp add: mem_iface_def mem_kernel_def)
  have q: "peer_table (Dev_Peers ?dev) (Peer_PublicKey ?p) = Some ?q" "WP_Endpoint ?q \<noteq> None"
    by (simp_all add: peer_table_def hub_peer_def peerToConfig_def)
  obtain d e s' where run: "ApplyPeers iter mem_iface [?p] [?q] = ((d, e), s')" by (metis prod.collapse)
  have e: "e = None" using run dev by (auto simp: ApplyPeers_def Let_def mem_iface_def mem_kernel_def split: if_splits)
  have "distinct (map WP_PublicKey s')"
    using run cfg_list_distinct [of "[?q]"] by (auto simp: ApplyPeers_def Let_def mem_iface_def mem_kernel_def split: if_splits)
  then obtain dev' where dev': "k_Device (iface_wg mem_iface) (iface_name mem_iface) s' = Some dev'"
    by (simp add: mem_iface_def mem_kernel_def)
  have "?p \<in> set (Updated d)"
    using ApplyPeers_learned_endpoint [OF mem_kernel_ok it hub_peer_installable(2) dev _ _ q run [unfolded e] dev'] by simp
  then show ?thesis using run e by blast
qed

end
