(* ===== verification/Netpolicy.thy ===== *)
theory Netpolicy
  imports Example_Network "HOL-Library.Product_Lexorder"
begin

text \<open>
  Package \<^verbatim>\<open>internal/netpolicy\<close>, \<^verbatim>\<open>netpolicy.go\<close>: the expansion of the group based ACL into
  address pairs. The state of the four nested loops (pairs seen, rules emitted) is a record.
  The theory proves which pairs come out, that none comes out twice and in which order.
\<close>

record Rule =
  Rule_Source :: Addr
  Rule_Dest :: Addr
  Rule_Allow :: bool

definition Rule_String :: "Rule \<Rightarrow> string" where
  "Rule_String r =
     (let verb = (if Rule_Allow r then ''allow'' else ''deny'')
      in Addr_String (Rule_Source r) @ [CHR 0xE2, CHR 0x86, CHR 0x92] @ Addr_String (Rule_Dest r) @ '' '' @ verb)"

record Compiled =
  Allows :: "Rule list"
  Denies :: "Rule list"
  HubIPs :: "Addr list"
  Overlay :: Prefix

datatype NetpolicyError =
    NilDocument
  | PolicyCIDR
  | PolicyAgentIP string
  | PolicyHubIP string

text \<open>The group members; a group without members has no entry, which reads as the empty list.\<close>

fun collectGroups :: "Agent list \<Rightarrow> (string \<Rightarrow> Addr list) \<Rightarrow> NetpolicyError + (string \<Rightarrow> Addr list)" where
  "collectGroups [] groupMembers = Inr groupMembers"
| "collectGroups (a # as) groupMembers =
    (case ParseAddr (Agent_TunnelIP a) of
       None \<Rightarrow> Inl (PolicyAgentIP (Agent_Name a))
     | Some ip \<Rightarrow> collectGroups as (fold (\<lambda>g m. m(g := m g @ [ip])) (Agent_Groups a) groupMembers))"

record cstate =
  seenAllow :: "(Addr \<times> Addr) set"
  seenDeny :: "(Addr \<times> Addr) set"
  allows :: "Rule list"
  denies :: "Rule list"

definition init_cstate :: cstate where
  "init_cstate = \<lparr>seenAllow = {}, seenDeny = {}, allows = [], denies = []\<rparr>"

text \<open>The body of the innermost loop.\<close>

definition emitRule :: "bool \<Rightarrow> Addr \<Rightarrow> Addr \<Rightarrow> cstate \<Rightarrow> cstate" where
  "emitRule isAllow src dst st =
    (if src = dst then st
     else if isAllow then
       (if (src, dst) \<in> seenAllow st then st
        else st\<lparr>seenAllow := insert (src, dst) (seenAllow st),
                allows := allows st @ [\<lparr>Rule_Source = src, Rule_Dest = dst, Rule_Allow = True\<rparr>]\<rparr>)
     else
       (if (src, dst) \<in> seenDeny st then st
        else st\<lparr>seenDeny := insert (src, dst) (seenDeny st),
                denies := denies st @ [\<lparr>Rule_Source = src, Rule_Dest = dst, Rule_Allow = False\<rparr>]\<rparr>))"

definition expandACL :: "(string \<Rightarrow> Addr list) \<Rightarrow> ACL \<Rightarrow> cstate \<Rightarrow> cstate" where
  "expandACL groupMembers r st =
     (let isAllow = (ACL_Action r = ActionAllow)
      in fold (\<lambda>fromG. fold (\<lambda>toG. fold (\<lambda>src. fold (\<lambda>dst. emitRule isAllow src dst)
           (groupMembers toG)) (groupMembers fromG)) (ACL_To r)) (ACL_From r) st)"

definition rule_pair :: "Rule \<Rightarrow> Addr \<times> Addr" where
  "rule_pair r = (Rule_Source r, Rule_Dest r)"

definition sortRules :: "Rule list \<Rightarrow> Rule list" where
  "sortRules rs = sort_key rule_pair rs"

definition hubAddr :: "Hub \<Rightarrow> NetpolicyError + Addr" where
  "hubAddr h = of_option (PolicyHubIP (Hub_Name h)) (ParseAddr (Hub_TunnelIP h))"

definition Compile :: "Document option \<Rightarrow> NetpolicyError + Compiled" where
  "Compile doc =
    (case doc of
       None \<Rightarrow> Inl NilDocument
     | Some d \<Rightarrow>
         (case ParsePrefix (CIDR (Document_Spec d)) of
            None \<Rightarrow> Inl PolicyCIDR
          | Some overlay \<Rightarrow>
              bind_res (collectGroups (Agents (Document_Spec d)) (\<lambda>_. [])) (\<lambda>groupMembers.
              let st = fold (expandACL groupMembers) (ACLs (Document_Spec d)) init_cstate
              in bind_res (traverse hubAddr (Hubs (Document_Spec d))) (\<lambda>hubs.
                 Inr \<lparr>Allows = sortRules (allows st), Denies = sortRules (denies st),
                      HubIPs = sort hubs, Overlay = overlay\<rparr>))))"

section \<open>Groups\<close>

lemma fold_append_member:
  "x \<in> set (fold (\<lambda>g m. m(g := m g @ [ip])) gs m k) \<longleftrightarrow> x \<in> set (m k) \<or> (k \<in> set gs \<and> x = ip)"
  by (induction gs arbitrary: m) auto

lemma collectGroups_members:
  "collectGroups as m = Inr gm \<Longrightarrow>
     x \<in> set (gm k) \<longleftrightarrow> x \<in> set (m k) \<or> (\<exists>a \<in> set as. k \<in> set (Agent_Groups a) \<and> ParseAddr (Agent_TunnelIP a) = Some x)"
proof (induction as arbitrary: m)
  case (Cons a as)
  then obtain ip where ip: "ParseAddr (Agent_TunnelIP a) = Some ip"
      "collectGroups as (fold (\<lambda>g m. m(g := m g @ [ip])) (Agent_Groups a) m) = Inr gm"
    by (auto split: option.splits)
  show ?case unfolding Cons.IH [OF ip(2)] fold_append_member using ip(1) by auto
qed simp

lemma collectGroups_total:
  "\<forall>a \<in> set as. ParseAddr (Agent_TunnelIP a) \<noteq> None \<Longrightarrow> \<exists>gm. collectGroups as m = Inr gm"
  by (induction as arbitrary: m) auto

section \<open>The loops\<close>

definition emit :: "bool \<times> Addr \<times> Addr \<Rightarrow> cstate \<Rightarrow> cstate" where
  "emit t st = emitRule (fst t) (fst (snd t)) (snd (snd t)) st"

definition acl_triples :: "(string \<Rightarrow> Addr list) \<Rightarrow> ACL \<Rightarrow> (bool \<times> Addr \<times> Addr) list" where
  "acl_triples gm r =
     concat (map (\<lambda>f. concat (map (\<lambda>t. concat (map (\<lambda>s. map (\<lambda>x. (ACL_Action r = ActionAllow, s, x)) (gm t)) (gm f)))
       (ACL_To r))) (ACL_From r))"

lemma fold_concat_map: "fold (\<lambda>x. fold g (f x)) xs = fold g (concat (map f xs))"
  by (induction xs) auto

lemma expandACL_triples: "expandACL gm = (\<lambda>r. fold emit (acl_triples gm r))"
proof -
  have inner: "fold (emitRule b s) xs = fold emit (map (\<lambda>x. (b, s, x)) xs)" for b s xs
    by (simp add: fold_map comp_def emit_def [abs_def])
  show ?thesis
    by (simp add: fun_eq_iff expandACL_def acl_triples_def Let_def inner fold_concat_map)
qed

lemma fold_expandACL: "fold (expandACL gm) rs st = fold emit (concat (map (acl_triples gm) rs)) st"
  by (simp add: expandACL_triples fold_concat_map)

definition cinv :: "cstate \<Rightarrow> bool" where
  "cinv st \<longleftrightarrow>
     rule_pair ` set (allows st) = seenAllow st \<and> distinct (map rule_pair (allows st)) \<and>
     (\<forall>r \<in> set (allows st). Rule_Allow r) \<and>
     rule_pair ` set (denies st) = seenDeny st \<and> distinct (map rule_pair (denies st)) \<and>
     (\<forall>r \<in> set (denies st). \<not> Rule_Allow r)"

lemma cinv_emit: "cinv st \<Longrightarrow> cinv (emit t st)"
  by (auto simp: cinv_def emit_def emitRule_def rule_pair_def image_iff)

lemma cinv_fold: "cinv st \<Longrightarrow> cinv (fold emit ts st)"
  by (induction ts arbitrary: st) (auto intro: cinv_emit)

lemma emit_seen:
  "seenAllow (emit t st) = seenAllow st \<union> {p. t = (True, p) \<and> fst p \<noteq> snd p}"
  "seenDeny (emit t st) = seenDeny st \<union> {p. t = (False, p) \<and> fst p \<noteq> snd p}"
  by (cases t; auto simp: emit_def emitRule_def)+

lemma fold_emit_seen:
  "seenAllow (fold emit ts st) = seenAllow st \<union> {p. (True, p) \<in> set ts \<and> fst p \<noteq> snd p}"
  "seenDeny (fold emit ts st) = seenDeny st \<union> {p. (False, p) \<in> set ts \<and> fst p \<noteq> snd p}"
  by (induction ts arbitrary: st) (auto simp: emit_seen)

lemma acl_triples_iff:
  "(b, s, x) \<in> set (acl_triples gm r) \<longleftrightarrow>
     (ACL_Action r = ActionAllow) = b \<and>
     (\<exists>f \<in> set (ACL_From r). s \<in> set (gm f)) \<and> (\<exists>t \<in> set (ACL_To r). x \<in> set (gm t))"
  by (auto simp: acl_triples_def)

lemma init_cstate_simps [simp]:
  "seenAllow init_cstate = {}" "seenDeny init_cstate = {}" "cinv init_cstate"
  by (simp_all add: init_cstate_def cinv_def)

section \<open>The compiled policy\<close>

text \<open>
  A rule selects a flow when the source has a group of \<^verbatim>\<open>from\<close> and the destination one of
  \<^verbatim>\<open>to\<close>; a node does not talk to itself.
\<close>

definition in_groups :: "Document \<Rightarrow> string list \<Rightarrow> Addr \<Rightarrow> bool" where
  "in_groups d gs x \<longleftrightarrow>
     (\<exists>a \<in> set (Agents (Document_Spec d)). ParseAddr (Agent_TunnelIP a) = Some x \<and> set (Agent_Groups a) \<inter> set gs \<noteq> {})"

definition selects :: "Document \<Rightarrow> ACL \<Rightarrow> Addr \<Rightarrow> Addr \<Rightarrow> bool" where
  "selects d r s x \<longleftrightarrow> s \<noteq> x \<and> in_groups d (ACL_From r) s \<and> in_groups d (ACL_To r) x"

definition spec_allows :: "Document \<Rightarrow> Addr \<Rightarrow> Addr \<Rightarrow> bool" where
  "spec_allows d s x \<longleftrightarrow> (\<exists>r \<in> set (ACLs (Document_Spec d)). ACL_Action r = ActionAllow \<and> selects d r s x)"

definition spec_denies :: "Document \<Rightarrow> Addr \<Rightarrow> Addr \<Rightarrow> bool" where
  "spec_denies d s x \<longleftrightarrow> (\<exists>r \<in> set (ACLs (Document_Spec d)). ACL_Action r \<noteq> ActionAllow \<and> selects d r s x)"

lemma Compile_Inr:
  assumes "Compile (Some d) = Inr c"
  shows "ParsePrefix (CIDR (Document_Spec d)) = Some (Overlay c)"
    and "rule_pair ` set (Allows c) = {(s, x). spec_allows d s x}"
    and "rule_pair ` set (Denies c) = {(s, x). spec_denies d s x}"
    and "sorted (map rule_pair (Allows c))" "distinct (map rule_pair (Allows c))"
    and "sorted (map rule_pair (Denies c))" "distinct (map rule_pair (Denies c))"
    and "sorted (HubIPs c)" "set (HubIPs c) = {x. \<exists>h \<in> set (Hubs (Document_Spec d)). ParseAddr (Hub_TunnelIP h) = Some x}"
proof -
  obtain gm hubs where ov: "ParsePrefix (CIDR (Document_Spec d)) = Some (Overlay c)"
    and gm: "collectGroups (Agents (Document_Spec d)) (\<lambda>_. []) = Inr gm"
    and hubs: "traverse hubAddr (Hubs (Document_Spec d)) = Inr hubs"
    and c: "Allows c = sortRules (allows (fold (expandACL gm) (ACLs (Document_Spec d)) init_cstate))"
      "Denies c = sortRules (denies (fold (expandACL gm) (ACLs (Document_Spec d)) init_cstate))"
      "HubIPs c = sort hubs"
    using assms by (auto simp: Compile_def Let_def bind_res_Inr_iff split: option.splits)
  define st where "st = fold (expandACL gm) (ACLs (Document_Spec d)) init_cstate"
  note st = st_def [unfolded fold_expandACL]
  have inv: "cinv st" unfolding st by (rule cinv_fold) simp
  have grp: "(\<exists>f \<in> set gs. x \<in> set (gm f)) \<longleftrightarrow> in_groups d gs x" for gs x
    using collectGroups_members [OF gm] by (auto simp: in_groups_def)
  have sa: "seenAllow st = {(s, x). spec_allows d s x}"
    by (auto simp: st fold_emit_seen acl_triples_iff grp spec_allows_def selects_def)
  have sd: "seenDeny st = {(s, x). spec_denies d s x}"
    by (auto simp: st fold_emit_seen acl_triples_iff grp spec_denies_def selects_def)
  have srt: "distinct (map rule_pair (sort_key rule_pair rs)) \<longleftrightarrow> distinct (map rule_pair rs)" for rs
    by (metis distinct_map distinct_sort set_sort)
  show "ParsePrefix (CIDR (Document_Spec d)) = Some (Overlay c)" by (rule ov)
  show "rule_pair ` set (Allows c) = {(s, x). spec_allows d s x}"
      "rule_pair ` set (Denies c) = {(s, x). spec_denies d s x}"
      "sorted (map rule_pair (Allows c))" "distinct (map rule_pair (Allows c))"
      "sorted (map rule_pair (Denies c))" "distinct (map rule_pair (Denies c))" "sorted (HubIPs c)"
    using inv sa sd by (simp_all add: c sortRules_def srt cinv_def flip: st_def)
  have "set hubs = {x. \<exists>h \<in> set (Hubs (Document_Spec d)). ParseAddr (Hub_TunnelIP h) = Some x}"
    using traverse_set [OF hubs] by (simp add: hubAddr_def)
  then show "set (HubIPs c) = {x. \<exists>h \<in> set (Hubs (Document_Spec d)). ParseAddr (Hub_TunnelIP h) = Some x}"
    by (simp add: c)
qed

lemma Compile_total: "wf_Document d \<Longrightarrow> \<exists>c. Compile (Some d) = Inr c"
proof -
  assume wf: "wf_Document d"
  obtain ov where "ParsePrefix (CIDR (Document_Spec d)) = Some ov" using wf_overlay [OF wf] by blast
  moreover obtain gm where "collectGroups (Agents (Document_Spec d)) (\<lambda>_. []) = Inr gm"
    using collectGroups_total wf_agent_addr [OF wf] by (metis option.distinct(1))
  moreover have "traverse hubAddr (Hubs (Document_Spec d)) = Inr (map (\<lambda>h. the (ParseAddr (Hub_TunnelIP h))) (Hubs (Document_Spec d)))"
    by (rule traverse_map) (use wf_hub_addr [OF wf] in \<open>force simp: hubAddr_def\<close>)
  ultimately show ?thesis by (simp add: Compile_def Let_def)
qed

text \<open>
  C19. \<open>Compile\<close> succeeds on an accepted document and its rules are exactly the flows the ACL
  selects: a pair is allowed when some allow rule lists a group of the source in \<^verbatim>\<open>from\<close> and a
  group of the destination in \<^verbatim>\<open>to\<close>, and denied likewise; no pair is emitted twice and the lists
  are sorted, so the rule sequence is a function of the policy.
\<close>

theorem Compile_exact:
  assumes "wf_Document d"
  shows "\<exists>c. Compile (Some d) = Inr c \<and>
    rule_pair ` set (Allows c) = {(s, x). spec_allows d s x} \<and>
    rule_pair ` set (Denies c) = {(s, x). spec_denies d s x} \<and>
    distinct (map rule_pair (Allows c)) \<and> distinct (map rule_pair (Denies c)) \<and>
    sorted (map rule_pair (Allows c)) \<and> sorted (map rule_pair (Denies c)) \<and> sorted (HubIPs c)"
proof -
  obtain c where c: "Compile (Some d) = Inr c" using Compile_total [OF assms] by blast
  show ?thesis using Compile_Inr [OF c] c by blast
qed

theorem Compile_exact_witness:
  "\<exists>c. Compile (Some example_doc) = Inr c \<and> rule_pair ` set (Allows c) = {(s, x). spec_allows example_doc s x}"
  using Compile_exact [OF wf_example] by blast

end
