(* ===== verification/Firewall.thy ===== *)
theory Firewall
  imports Netpolicy
begin

text \<open>
  Package \<^verbatim>\<open>internal/netpolicy\<close>, the Linux side (\<^verbatim>\<open>firewall_linux.go\<close>, \<^verbatim>\<open>forwarding_linux.go\<close>)
  and the stubs of other systems. The go-iptables handle is a parameter: a record of its
  operations on a state the model does not look into. What its documentation promises of a
  chain's contents is the predicate \<open>iptables_ok\<close>; a table held in memory satisfies it. The
  theory proves what the chain holds after \<open>Reconcile\<close> and what a packet meets there.
\<close>

section \<open>firewall_linux.go\<close>

definition firewallChain :: string where "firewallChain = ''SEINE-FWD''"

text \<open>
  The operations of \<^verbatim>\<open>iptables.IPTables\<close>: a query returns its value and whether there was an
  error, a command whether there was an error and the new state.
\<close>

record 's iptables =
  ipt_ChainExists :: "string \<Rightarrow> string \<Rightarrow> 's \<Rightarrow> bool \<times> bool"
  ipt_Exists :: "string \<Rightarrow> string \<Rightarrow> string list \<Rightarrow> 's \<Rightarrow> bool \<times> bool"
  ipt_NewChain :: "string \<Rightarrow> string \<Rightarrow> 's \<Rightarrow> bool \<times> 's"
  ipt_ClearChain :: "string \<Rightarrow> string \<Rightarrow> 's \<Rightarrow> bool \<times> 's"
  ipt_DeleteChain :: "string \<Rightarrow> string \<Rightarrow> 's \<Rightarrow> bool \<times> 's"
  ipt_Insert :: "string \<Rightarrow> string \<Rightarrow> nat \<Rightarrow> string list \<Rightarrow> 's \<Rightarrow> bool \<times> 's"
  ipt_Append :: "string \<Rightarrow> string \<Rightarrow> string list \<Rightarrow> 's \<Rightarrow> bool \<times> 's"
  ipt_Delete :: "string \<Rightarrow> string \<Rightarrow> string list \<Rightarrow> 's \<Rightarrow> bool \<times> 's"

datatype FirewallError =
    IptablesInit
  | ChainExistsQuery
  | CreateChain
  | ForwardJumpQuery
  | InsertForwardJump
  | ClearChainFailed
  | AppendFailed "string list"
  | UnsupportedOS string
  | NotInitialised

record 's Firewall =
  fw_ipt :: "'s iptables"
  fw_iface :: string

text \<open>\<open>opened\<close> is what \<^verbatim>\<open>iptables.New\<close> returns.\<close>

definition NewFirewall :: "'s iptables option \<Rightarrow> string \<Rightarrow> FirewallError + 's Firewall" where
  "NewFirewall opened ifaceName =
    (case opened of
       None \<Rightarrow> Inl IptablesInit
     | Some ipt \<Rightarrow> Inr \<lparr>fw_ipt = ipt, fw_iface = ifaceName\<rparr>)"

definition ensureChain :: "'s Firewall \<Rightarrow> 's \<Rightarrow> FirewallError option \<times> 's" where
  "ensureChain f s =
    (let (exists, err) = ipt_ChainExists (fw_ipt f) ''filter'' firewallChain s
     in if err then (Some ChainExistsQuery, s)
        else if exists then (None, s)
        else let (err, s) = ipt_NewChain (fw_ipt f) ''filter'' firewallChain s
             in if err then (Some CreateChain, s) else (None, s))"

definition forwardJump :: "'s Firewall \<Rightarrow> string list" where
  "forwardJump f = [''-i'', fw_iface f, ''-o'', fw_iface f, ''-j'', firewallChain]"

definition ensureForwardJump :: "'s Firewall \<Rightarrow> 's \<Rightarrow> FirewallError option \<times> 's" where
  "ensureForwardJump f s =
    (let jump = forwardJump f;
         (exists, err) = ipt_Exists (fw_ipt f) ''filter'' ''FORWARD'' jump s
     in if err then (Some ForwardJumpQuery, s)
        else if exists then (None, s)
        else let (err, s) = ipt_Insert (fw_ipt f) ''filter'' ''FORWARD'' 1 jump s
             in if err then (Some InsertForwardJump, s) else (None, s))"

definition buildRules :: "Compiled \<Rightarrow> string list list" where
  "buildRules c =
     concat (map (\<lambda>h. [[''-s'', Addr_String h, ''-j'', ''ACCEPT''], [''-d'', Addr_String h, ''-j'', ''ACCEPT'']]) (HubIPs c)) @
     map (\<lambda>r. [''-s'', Addr_String (Rule_Source r), ''-d'', Addr_String (Rule_Dest r), ''-j'', ''DROP'']) (Denies c) @
     map (\<lambda>r. [''-s'', Addr_String (Rule_Source r), ''-d'', Addr_String (Rule_Dest r), ''-j'', ''ACCEPT'']) (Allows c) @
     [[''-s'', Prefix_String (Overlay c), ''-d'', Prefix_String (Overlay c), ''-j'', ''DROP''], [''-j'', ''RETURN'']]"

fun appendRules :: "'s Firewall \<Rightarrow> string list list \<Rightarrow> 's \<Rightarrow> FirewallError option \<times> 's" where
  "appendRules f [] s = (None, s)"
| "appendRules f (r # rs) s =
    (let (err, s) = ipt_Append (fw_ipt f) ''filter'' firewallChain r s
     in if err then (Some (AppendFailed r), s) else appendRules f rs s)"

definition Reconcile :: "'s Firewall \<Rightarrow> Compiled \<Rightarrow> 's \<Rightarrow> FirewallError option \<times> 's" where
  "Reconcile f c s =
    (case ensureChain f s of
       (Some e, s) \<Rightarrow> (Some e, s)
     | (None, s) \<Rightarrow>
         (case ensureForwardJump f s of
            (Some e, s) \<Rightarrow> (Some e, s)
          | (None, s) \<Rightarrow>
              (let (err, s) = ipt_ClearChain (fw_ipt f) ''filter'' firewallChain s
               in if err then (Some ClearChainFailed, s) else appendRules f (buildRules c) s)))"

text \<open>Best effort: errors are logged only.\<close>

definition Teardown :: "'s Firewall \<Rightarrow> 's \<Rightarrow> 's" where
  "Teardown f s =
    (let jump = forwardJump f;
         s = (if fst (ipt_Exists (fw_ipt f) ''filter'' ''FORWARD'' jump s)
              then snd (ipt_Delete (fw_ipt f) ''filter'' ''FORWARD'' jump s) else s)
     in if fst (ipt_ChainExists (fw_ipt f) ''filter'' firewallChain s)
        then (let s = snd (ipt_ClearChain (fw_ipt f) ''filter'' firewallChain s)
              in snd (ipt_DeleteChain (fw_ipt f) ''filter'' firewallChain s))
        else s)"

section \<open>forwarding_linux.go\<close>

definition ipForwardPath :: string where "ipForwardPath = ''/proc/sys/net/ipv4/ip_forward''"

datatype ForwardingError = ForwardRead | ForwardWrite | ForwardUnsupported string

definition EnsureIPForwarding ::
    "(string \<Rightarrow> 'fs \<Rightarrow> string option) \<Rightarrow> (string \<Rightarrow> string \<Rightarrow> 'fs \<Rightarrow> bool \<times> 'fs) \<Rightarrow> 'fs \<Rightarrow> ForwardingError option \<times> 'fs" where
  "EnsureIPForwarding readFile writeFile fs =
    (case readFile ipForwardPath fs of
       None \<Rightarrow> (Some ForwardRead, fs)
     | Some current \<Rightarrow>
         if TrimSpace current = ''1'' then (None, fs)
         else let (ok, fs) = writeFile ipForwardPath (''1'' @ [CHR 0x0A]) fs
              in if ok then (None, fs) else (Some ForwardWrite, fs))"

section \<open>Other systems\<close>

definition NewFirewall_other :: "string \<Rightarrow> string \<Rightarrow> FirewallError + unit" where
  "NewFirewall_other goos ifaceName = Inl (UnsupportedOS goos)"

definition Reconcile_other :: "Compiled \<Rightarrow> FirewallError option" where
  "Reconcile_other c = Some NotInitialised"

definition EnsureIPForwarding_other :: "string \<Rightarrow> ForwardingError option" where
  "EnsureIPForwarding_other goos = Some (ForwardUnsupported goos)"

section \<open>What a packet meets in the chain\<close>

datatype Verdict = ACCEPT | DROP | RETURN

definition addr_matches :: "string \<Rightarrow> Addr \<Rightarrow> bool" where
  "addr_matches v a = (case ParsePrefix v of Some p \<Rightarrow> Contains p a | None \<Rightarrow> ParseAddr v = Some a)"

definition target_of :: "string \<Rightarrow> Verdict option" where
  "target_of t = (if t = ''ACCEPT'' then Some ACCEPT else if t = ''DROP'' then Some DROP
     else if t = ''RETURN'' then Some RETURN else None)"

text \<open>
  The target of a rule for a packet from \<open>s\<close> to \<open>x\<close>, \<open>None\<close> when it does not match; the first
  rule with a target decides.
\<close>

fun rule_target :: "string list \<Rightarrow> Addr \<Rightarrow> Addr \<Rightarrow> Verdict option" where
  "rule_target (k # v # rest) s x =
     (if k = ''-s'' then (if addr_matches v s then rule_target rest s x else None)
      else if k = ''-d'' then (if addr_matches v x then rule_target rest s x else None)
      else if k = ''-j'' then target_of v
      else None)"
| "rule_target _ s x = None"

fun chain_verdict :: "string list list \<Rightarrow> Addr \<Rightarrow> Addr \<Rightarrow> Verdict option" where
  "chain_verdict [] s x = None"
| "chain_verdict (r # rs) s x =
     (case rule_target r s x of Some v \<Rightarrow> Some v | None \<Rightarrow> chain_verdict rs s x)"

lemma chain_verdict_append:
  "chain_verdict (rs @ ts) s x = (case chain_verdict rs s x of Some v \<Rightarrow> Some v | None \<Rightarrow> chain_verdict ts s x)"
  by (induction rs) (auto split: option.splits)

lemma chain_verdict_take: "chain_verdict rs s x = None \<Longrightarrow> chain_verdict (take n rs) s x = None"
  by (induction rs arbitrary: n) (auto simp: take_Cons' split: option.splits)

lemma addr_matches_host: "Is4 a \<Longrightarrow> addr_matches (Addr_String a) b \<longleftrightarrow> b = a"
proof -
  assume "Is4 a"
  then obtain w where w: "a = Addr4 w" using Is4_cases by blast
  have "last_index_of (CHR ''/'') (string4 w) = None" using string4_no_slash by simp
  then have "ParsePrefix (string4 w) = None" by (simp only: ParsePrefix_def option.case)
  then show ?thesis by (auto simp: w addr_matches_def)
qed

lemma addr_matches_prefix: "ipv4_prefix p \<Longrightarrow> addr_matches (Prefix_String p) b \<longleftrightarrow> Contains p b"
  by (simp add: addr_matches_def ParsePrefix_String_ipv4)

lemma target_simps [simp]:
  "target_of ''ACCEPT'' = Some ACCEPT" "target_of ''DROP'' = Some DROP" "target_of ''RETURN'' = Some RETURN"
  by (simp_all add: target_of_def)

lemma hub_rules_verdict:
  "\<forall>h \<in> set hs. Is4 h \<Longrightarrow>
   chain_verdict (concat (map (\<lambda>h. [[''-s'', Addr_String h, ''-j'', ''ACCEPT''], [''-d'', Addr_String h, ''-j'', ''ACCEPT'']]) hs)) s x =
     (if s \<in> set hs \<or> x \<in> set hs then Some ACCEPT else None)"
  by (induction hs) (auto simp: addr_matches_host)

lemma pair_rules_verdict:
  "\<forall>r \<in> set rs. Is4 (Rule_Source r) \<and> Is4 (Rule_Dest r) \<Longrightarrow>
   chain_verdict (map (\<lambda>r. [''-s'', Addr_String (Rule_Source r), ''-d'', Addr_String (Rule_Dest r), ''-j'', t]) rs) s x =
     (if (s, x) \<in> rule_pair ` set rs then target_of t else None)"
  by (induction rs) (auto simp: addr_matches_host rule_pair_def split: option.splits)

definition ipv4_policy :: "Compiled \<Rightarrow> bool" where
  "ipv4_policy c \<longleftrightarrow> ipv4_prefix (Overlay c) \<and> (\<forall>h \<in> set (HubIPs c). Is4 h) \<and>
     (\<forall>r \<in> set (Allows c) \<union> set (Denies c). Is4 (Rule_Source r) \<and> Is4 (Rule_Dest r))"

lemma buildRules_verdict:
  assumes "ipv4_policy c"
  shows "chain_verdict (buildRules c) s x = Some
    (if s \<in> set (HubIPs c) \<or> x \<in> set (HubIPs c) then ACCEPT
     else if (s, x) \<in> rule_pair ` set (Denies c) then DROP
     else if (s, x) \<in> rule_pair ` set (Allows c) then ACCEPT
     else if Contains (Overlay c) s \<and> Contains (Overlay c) x then DROP
     else RETURN)"
  using assms
  by (simp add: buildRules_def chain_verdict_append ipv4_policy_def hub_rules_verdict pair_rules_verdict
      addr_matches_prefix)

text \<open>An accepted document with an IPv4 overlay has IPv4 addresses throughout.\<close>

lemma wf_ipv4_addr:
  assumes "wf_Document d" "ParsePrefix (CIDR (Document_Spec d)) = Some ov" "Is4 (pfx_ip ov)"
    and "ip \<in> set (node_ips d)" "ParseAddr ip = Some a"
  shows "Is4 a \<and> Contains ov a"
proof -
  have c: "Contains ov a" using wf_node_addr [OF assms(1,2,4)] assms(5) by auto
  then have "BitLen a = 32" using Contains_BitLen [OF c] Is4_cases [OF assms(3)] by auto
  then show ?thesis using c by (cases a) auto
qed

lemma in_groups_node: "in_groups d gs x \<Longrightarrow> \<exists>ip \<in> set (node_ips d). ParseAddr ip = Some x"
  by (auto simp: in_groups_def node_ips_def)

lemma wf_ipv4_policy:
  assumes wf: "wf_Document d" and c: "Compile (Some d) = Inr c" and v4: "Is4 (pfx_ip (Overlay c))"
  shows "ipv4_policy c"
proof -
  note C = Compile_Inr [OF c]
  note node = wf_ipv4_addr [OF wf C(1) v4]
  have grp: "Is4 x" if "in_groups d gs x" for gs x using in_groups_node [OF that] node by blast
  have "Is4 (Rule_Source r) \<and> Is4 (Rule_Dest r)" if "r \<in> set (Allows c) \<union> set (Denies c)" for r
  proof -
    have "spec_allows d (Rule_Source r) (Rule_Dest r) \<or> spec_denies d (Rule_Source r) (Rule_Dest r)"
      using that C(2,3) by (auto simp: rule_pair_def)
    then show ?thesis using grp by (auto simp: spec_allows_def spec_denies_def selects_def)
  qed
  moreover have "Is4 h" if "h \<in> set (HubIPs c)" for h
    using that C(9) node by (auto simp: node_ips_def)
  ultimately show ?thesis using ParsePrefix_ipv4 [OF C(1) v4] by (simp add: ipv4_policy_def)
qed

lemma policy_verdict:
  assumes wf: "wf_Document d" and c: "Compile (Some d) = Inr c" and v4: "Is4 (pfx_ip (Overlay c))"
    and s: "ips \<in> set (node_ips d)" "ParseAddr ips = Some s"
    and x: "ipx \<in> set (node_ips d)" "ParseAddr ipx = Some x"
  shows "chain_verdict (buildRules c) s x = Some
    (if s \<in> set (HubIPs c) \<or> x \<in> set (HubIPs c) then ACCEPT
     else if spec_denies d s x then DROP else if spec_allows d s x then ACCEPT else DROP)"
proof -
  note C = Compile_Inr [OF c]
  have "Contains (Overlay c) s" "Contains (Overlay c) x"
    using wf_ipv4_addr [OF wf C(1) v4] s x by blast+
  then show ?thesis
    unfolding buildRules_verdict [OF wf_ipv4_policy [OF wf c v4]] C(2,3) by auto
qed


section \<open>What Reconcile leaves in the table\<close>

text \<open>
  The documented behaviour of go-iptables on the filter table: \<open>view\<close> gives the rules of each
  chain. A query without error answers for the view; a command without error has its effect;
  a command that fails leaves the table alone. \<^verbatim>\<open>ClearChain\<close> creates a missing chain.
\<close>

definition iptables_ok :: "'s iptables \<Rightarrow> ('s \<Rightarrow> string \<rightharpoonup> string list list) \<Rightarrow> bool" where
  "iptables_ok ipt view \<longleftrightarrow>
    (\<forall>c s b. ipt_ChainExists ipt ''filter'' c s = (b, False) \<longrightarrow> b = (view s c \<noteq> None)) \<and>
    (\<forall>c r s b rs. ipt_Exists ipt ''filter'' c r s = (b, False) \<longrightarrow> view s c = Some rs \<longrightarrow> b = (r \<in> set rs)) \<and>
    (\<forall>c s e s'. ipt_NewChain ipt ''filter'' c s = (e, s') \<longrightarrow>
       view s' = (if e then view s else (view s)(c \<mapsto> []))) \<and>
    (\<forall>c s e s'. ipt_ClearChain ipt ''filter'' c s = (e, s') \<longrightarrow>
       view s' = (if e then view s else (view s)(c \<mapsto> []))) \<and>
    (\<forall>c r s e s' rs. ipt_Insert ipt ''filter'' c 1 r s = (e, s') \<longrightarrow> view s c = Some rs \<longrightarrow>
       view s' = (if e then view s else (view s)(c \<mapsto> r # rs))) \<and>
    (\<forall>c r s e s' rs. ipt_Append ipt ''filter'' c r s = (e, s') \<longrightarrow> view s c = Some rs \<longrightarrow>
       view s' = (if e then view s else (view s)(c \<mapsto> rs @ [r]))) \<and>
    (\<forall>c r s e s' rs. ipt_Delete ipt ''filter'' c r s = (e, s') \<longrightarrow> view s c = Some rs \<longrightarrow> r \<in> set rs \<longrightarrow>
       view s' = (if e then view s else (view s)(c \<mapsto> remove1 r rs))) \<and>
    (\<forall>c s e s'. ipt_DeleteChain ipt ''filter'' c s = (e, s') \<longrightarrow>
       view s' = (if e then view s else (view s)(c := None)))"

text \<open>No operation fails.\<close>

definition iptables_up :: "'s iptables \<Rightarrow> bool" where
  "iptables_up ipt \<longleftrightarrow>
    (\<forall>t c s. \<not> snd (ipt_ChainExists ipt t c s)) \<and> (\<forall>t c r s. \<not> snd (ipt_Exists ipt t c r s)) \<and>
    (\<forall>t c s. \<not> fst (ipt_NewChain ipt t c s)) \<and> (\<forall>t c s. \<not> fst (ipt_ClearChain ipt t c s)) \<and>
    (\<forall>t c n r s. \<not> fst (ipt_Insert ipt t c n r s)) \<and> (\<forall>t c r s. \<not> fst (ipt_Append ipt t c r s)) \<and>
    (\<forall>t c r s. \<not> fst (ipt_Delete ipt t c r s)) \<and> (\<forall>t c s. \<not> fst (ipt_DeleteChain ipt t c s))"

lemma firewallChain_not_FORWARD [simp]: "firewallChain \<noteq> ''FORWARD''" "''FORWARD'' \<noteq> firewallChain"
  by (simp_all add: firewallChain_def)

lemma iptables_okD:
  assumes "iptables_ok ipt view"
  shows "ipt_ChainExists ipt ''filter'' c s = (b, False) \<Longrightarrow> b = (view s c \<noteq> None)"
    and "ipt_Exists ipt ''filter'' c r s = (b, False) \<Longrightarrow> view s c = Some rs \<Longrightarrow> b = (r \<in> set rs)"
    and "ipt_NewChain ipt ''filter'' c s = (e, s') \<Longrightarrow> view s' = (if e then view s else (view s)(c \<mapsto> []))"
    and "ipt_ClearChain ipt ''filter'' c s = (e, s') \<Longrightarrow> view s' = (if e then view s else (view s)(c \<mapsto> []))"
    and "ipt_Insert ipt ''filter'' c 1 r s = (e, s') \<Longrightarrow> view s c = Some rs \<Longrightarrow>
       view s' = (if e then view s else (view s)(c \<mapsto> r # rs))"
    and "ipt_Append ipt ''filter'' c r s = (e, s') \<Longrightarrow> view s c = Some rs \<Longrightarrow>
       view s' = (if e then view s else (view s)(c \<mapsto> rs @ [r]))"
    and "ipt_Delete ipt ''filter'' c r s = (e, s') \<Longrightarrow> view s c = Some rs \<Longrightarrow> r \<in> set rs \<Longrightarrow>
       view s' = (if e then view s else (view s)(c \<mapsto> remove1 r rs))"
    and "ipt_DeleteChain ipt ''filter'' c s = (e, s') \<Longrightarrow> view s' = (if e then view s else (view s)(c := None))"
  using assms unfolding iptables_ok_def by (elim conjE; simp; fail)+

lemma ensureChain_view:
  assumes ok: "iptables_ok (fw_ipt f) view" and run: "ensureChain f s = (e, s')"
  shows "view s' = (if e = None \<and> view s firewallChain = None then (view s)(firewallChain \<mapsto> []) else view s)"
proof -
  obtain b er where q: "ipt_ChainExists (fw_ipt f) ''filter'' firewallChain s = (b, er)" by fastforce
  obtain er2 s2 where n: "ipt_NewChain (fw_ipt f) ''filter'' firewallChain s = (er2, s2)" by fastforce
  have "\<not> er \<Longrightarrow> b = (view s firewallChain \<noteq> None)" using iptables_okD(1) [OF ok] q by simp
  then show ?thesis
    using run iptables_okD(3) [OF ok, OF n] by (auto simp: ensureChain_def q n split: if_splits)
qed

lemma ensureForwardJump_view:
  assumes ok: "iptables_ok (fw_ipt f) view" and fwd: "view s ''FORWARD'' = Some fwd"
    and run: "ensureForwardJump f s = (e, s')"
  shows "view s' = (if e = None \<and> forwardJump f \<notin> set fwd then (view s)(''FORWARD'' \<mapsto> forwardJump f # fwd) else view s)"
proof -
  obtain b er where q: "ipt_Exists (fw_ipt f) ''filter'' ''FORWARD'' (forwardJump f) s = (b, er)" by fastforce
  obtain er2 s2 where n: "ipt_Insert (fw_ipt f) ''filter'' ''FORWARD'' 1 (forwardJump f) s = (er2, s2)" by fastforce
  have "\<not> er \<Longrightarrow> b = (forwardJump f \<in> set fwd)" using iptables_okD(2) [OF ok, OF _ fwd] q by simp
  then show ?thesis
    using run n iptables_okD(5) [OF ok, OF n fwd] by (auto simp: ensureForwardJump_def Let_def q split: if_splits)
qed

lemma appendRules_view:
  assumes "iptables_ok (fw_ipt f) view" "view s firewallChain = Some rs" "appendRules f ts s = (e, s')"
  shows "\<exists>n \<le> length ts. view s' = (view s)(firewallChain \<mapsto> rs @ take n ts) \<and> (e = None \<longrightarrow> n = length ts) \<and>
    (e \<noteq> None \<longrightarrow> n < length ts \<and> e = Some (AppendFailed (ts ! n)))"
  using assms(2,3)
proof (induction ts arbitrary: s rs)
  case Nil
  then show ?case by (auto simp: fun_eq_iff)
next
  case (Cons r ts)
  obtain err s1 where a: "ipt_Append (fw_ipt f) ''filter'' firewallChain r s = (err, s1)" by fastforce
  then have v: "view s1 = (if err then view s else (view s)(firewallChain \<mapsto> rs @ [r]))"
    by (rule iptables_okD(6) [OF assms(1), OF _ Cons.prems(1)])
  show ?case
  proof (cases err)
    case True
    then show ?thesis using Cons.prems a v by (intro exI [of _ 0]) (auto simp: fun_eq_iff)
  next
    case False
    then have "view s1 firewallChain = Some (rs @ [r])" "appendRules f ts s1 = (e, s')"
      using v a Cons.prems by auto
    from Cons.IH [OF this] obtain n where "n \<le> length ts" "view s' = (view s1)(firewallChain \<mapsto> (rs @ [r]) @ take n ts)"
      "e = None \<longrightarrow> n = length ts" "e \<noteq> None \<longrightarrow> n < length ts \<and> e = Some (AppendFailed (ts ! n))" by blast
    then show ?thesis using v False by (intro exI [of _ "Suc n"]) auto
  qed
qed

lemma Reconcile_view:
  assumes ok: "iptables_ok (fw_ipt f) view" and fwd: "view s ''FORWARD'' = Some fwd"
    and run: "Reconcile f c s = (e, s')"
  shows "(e = None \<longrightarrow> view s' = (view s)(''FORWARD'' \<mapsto> (if forwardJump f \<in> set fwd then fwd else forwardJump f # fwd),
            firewallChain \<mapsto> buildRules c)) \<and>
    (e \<noteq> None \<longrightarrow> view s' firewallChain \<in> {view s firewallChain, Some []} \<or>
       (\<exists>n < length (buildRules c). view s' firewallChain = Some (take n (buildRules c)) \<and>
          e = Some (AppendFailed (buildRules c ! n))))"
proof -
  obtain e1 s1 where 1: "ensureChain f s = (e1, s1)" by fastforce
  obtain e2 s2 where 2: "ensureForwardJump f s1 = (e2, s2)" by fastforce
  obtain e3 s3 where 3: "ipt_ClearChain (fw_ipt f) ''filter'' firewallChain s2 = (e3, s3)" by fastforce
  note v1 = ensureChain_view [OF ok, OF 1]
  have f1: "view s1 ''FORWARD'' = Some fwd" using fwd by (simp add: v1)
  note v2 = ensureForwardJump_view [OF ok, OF f1 2]
  have v3: "view s3 = (if e3 then view s2 else (view s2)(firewallChain \<mapsto> []))"
    by (rule iptables_okD(4) [OF ok, OF 3])
  consider (a) err where "e1 = Some err" | (b) err where "e1 = None" "e2 = Some err" | (c) "e1 = None" "e2 = None" e3
    | (d) "e1 = None" "e2 = None" "\<not> e3" by fastforce
  then show ?thesis
  proof cases
    case a
    then show ?thesis using run 1 v1 by (auto simp: Reconcile_def)
  next
    case b
    then show ?thesis using run 1 2 v1 v2 by (auto simp: Reconcile_def)
  next
    case c
    then show ?thesis using run 1 2 3 v1 v2 v3 by (auto simp: Reconcile_def)
  next
    case d
    then have "appendRules f (buildRules c) s3 = (e, s')" "view s3 firewallChain = Some []"
      using run 1 2 3 v3 by (auto simp: Reconcile_def)
    from appendRules_view [OF ok, OF this(2,1)] obtain n where n: "n \<le> length (buildRules c)"
      "view s' = (view s3)(firewallChain \<mapsto> take n (buildRules c))" "e = None \<longrightarrow> n = length (buildRules c)"
      "e \<noteq> None \<longrightarrow> n < length (buildRules c) \<and> e = Some (AppendFailed (buildRules c ! n))" by auto
    have "view s3 = (view s)(''FORWARD'' \<mapsto> (if forwardJump f \<in> set fwd then fwd else forwardJump f # fwd), firewallChain \<mapsto> [])"
      using d v3 v2 v1 fwd by (auto simp: fun_eq_iff)
    then show ?thesis using n by auto
  qed
qed

text \<open>
  C24. A \<open>Reconcile\<close> that returns no error leaves exactly the compiled rules in the chain, in
  order, and one jump to it in FORWARD if there was none; every other chain, and the other
  rules of FORWARD, are untouched. Running it again changes nothing.
\<close>

theorem Reconcile_installs:
  assumes "iptables_ok (fw_ipt f) view" and "view s ''FORWARD'' = Some fwd"
    and "Reconcile f c s = (None, s')"
  shows "view s' = (view s)(''FORWARD'' \<mapsto> (if forwardJump f \<in> set fwd then fwd else forwardJump f # fwd),
      firewallChain \<mapsto> buildRules c) \<and>
    (\<forall>s''. Reconcile f c s' = (None, s'') \<longrightarrow> view s'' = view s')"
proof -
  let ?fwd = "if forwardJump f \<in> set fwd then fwd else forwardJump f # fwd"
  have v: "view s' = (view s)(''FORWARD'' \<mapsto> ?fwd, firewallChain \<mapsto> buildRules c)"
    using Reconcile_view [OF assms(1), OF assms(2,3)] by simp
  then have "view s' ''FORWARD'' = Some ?fwd" by simp
  from Reconcile_view [OF assms(1), OF this, of c None]
  have "view s'' = (view s')(''FORWARD'' \<mapsto> if forwardJump f \<in> set ?fwd then ?fwd else forwardJump f # ?fwd,
      firewallChain \<mapsto> buildRules c)" if "Reconcile f c s' = (None, s'')" for s''
    using that by blast
  moreover have "forwardJump f \<in> set ?fwd" by simp
  ultimately show ?thesis using v by (simp add: fun_upd_twist)
qed

text \<open>
  C38. When \<open>Reconcile\<close> fails, the chain holds what it held, nothing, or a proper initial part
  of the compiled rules up to the rule that could not be appended.
\<close>

theorem Reconcile_failure:
  assumes "iptables_ok (fw_ipt f) view" and "view s ''FORWARD'' = Some fwd"
    and "Reconcile f c s = (Some e, s')"
  shows "view s' firewallChain \<in> {view s firewallChain, Some []} \<or>
    (\<exists>n < length (buildRules c). view s' firewallChain = Some (take n (buildRules c)) \<and>
       e = AppendFailed (buildRules c ! n))"
  using Reconcile_view [OF assms(1), OF assms(2,3)] by auto

text \<open>
  C39. Such an initial part does not deny by default: as long as the chain holds rules for hubs
  only, a packet between two addresses that are not hubs' meets no verdict and falls through
  to the rest of FORWARD, whatever the policy says of it.
\<close>

theorem partial_chain_open:
  assumes "ipv4_policy c" and "n \<le> 2 * length (HubIPs c)"
    and "s \<notin> set (HubIPs c)" "x \<notin> set (HubIPs c)"
  shows "chain_verdict (take n (buildRules c)) s x = None"
proof -
  let ?hubs = "concat (map (\<lambda>h. [[''-s'', Addr_String h, ''-j'', ''ACCEPT''], [''-d'', Addr_String h, ''-j'', ''ACCEPT'']]) (HubIPs c))"
  have len: "length ?hubs = 2 * length (HubIPs c)" by (simp add: length_concat comp_def sum_list_triv)
  have "chain_verdict ?hubs s x = None"
    using hub_rules_verdict [of "HubIPs c" s x] assms by (auto simp: ipv4_policy_def)
  then have "chain_verdict (take n ?hubs) s x = None" by (rule chain_verdict_take)
  moreover have "take n (buildRules c) = take n ?hubs" using assms(2) len by (simp add: buildRules_def)
  ultimately show ?thesis by simp
qed

lemma appendRules_up: "iptables_up (fw_ipt f) \<Longrightarrow> fst (appendRules f rs s) = None"
  by (induction rs arbitrary: s) (simp_all add: iptables_up_def case_prod_beta)

lemma Reconcile_up: "iptables_up (fw_ipt f) \<Longrightarrow> fst (Reconcile f c s) = None"
proof -
  assume up: "iptables_up (fw_ipt f)"
  have "fst (ensureChain f s) = None" "fst (ensureForwardJump f s1) = None" for s1
    using up by (simp_all add: ensureChain_def ensureForwardJump_def Let_def iptables_up_def case_prod_beta)
  then obtain s1 s2 where 1: "ensureChain f s = (None, s1)" and 2: "ensureForwardJump f s1 = (None, s2)"
    by (metis prod.collapse)
  obtain s3 where 3: "ipt_ClearChain (fw_ipt f) ''filter'' firewallChain s2 = (False, s3)"
    using up unfolding iptables_up_def by (metis prod.collapse)
  show ?thesis using appendRules_up [OF up] by (simp add: Reconcile_def 1 2 3)
qed

lemma Teardown_view:
  assumes ok: "iptables_ok (fw_ipt f) view" and up: "iptables_up (fw_ipt f)" and fwd: "view s ''FORWARD'' = Some fwd"
  shows "view (Teardown f s) = (view s)(''FORWARD'' \<mapsto> remove1 (forwardJump f) fwd, firewallChain := None)"
proof -
  obtain b where q: "ipt_Exists (fw_ipt f) ''filter'' ''FORWARD'' (forwardJump f) s = (b, False)"
    using up unfolding iptables_up_def by (metis prod.collapse)
  obtain d where d: "ipt_Delete (fw_ipt f) ''filter'' ''FORWARD'' (forwardJump f) s = (False, d)"
    using up unfolding iptables_up_def by (metis prod.collapse)
  define s1 where "s1 = (if b then d else s)"
  have v1: "view s1 = (view s)(''FORWARD'' \<mapsto> remove1 (forwardJump f) fwd)"
    using iptables_okD(2) [OF ok, OF q fwd] iptables_okD(7) [OF ok, OF d fwd] fwd
    by (auto simp: s1_def remove1_idem fun_upd_idem)
  obtain b2 where q2: "ipt_ChainExists (fw_ipt f) ''filter'' firewallChain s1 = (b2, False)"
    using up unfolding iptables_up_def by (metis prod.collapse)
  obtain s2 where s2: "ipt_ClearChain (fw_ipt f) ''filter'' firewallChain s1 = (False, s2)"
    using up unfolding iptables_up_def by (metis prod.collapse)
  obtain s3 where s3: "ipt_DeleteChain (fw_ipt f) ''filter'' firewallChain s2 = (False, s3)"
    using up unfolding iptables_up_def by (metis prod.collapse)
  have "Teardown f s = (if b2 then s3 else s1)"
    using q2 s2 s3 by (cases b) (simp_all add: Teardown_def Let_def q d s1_def)
  then show ?thesis
    using iptables_okD(1) [OF ok, OF q2] iptables_okD(4) [OF ok, OF s2] iptables_okD(8) [OF ok, OF s3] v1
    by (auto simp: fun_eq_iff)
qed

text \<open>
  With a working iptables, \<open>Reconcile\<close> succeeds, and \<open>Teardown\<close> after it restores the
  table: on a host where neither the chain nor the jump existed, every chain is as before.
\<close>

theorem Reconcile_Teardown:
  assumes ok: "iptables_ok (fw_ipt f) view" and up: "iptables_up (fw_ipt f)"
    and fwd: "view s ''FORWARD'' = Some fwd" "forwardJump f \<notin> set fwd" "view s firewallChain = None"
  shows "\<exists>s'. Reconcile f c s = (None, s') \<and> view s' firewallChain = Some (buildRules c) \<and>
    view (Teardown f s') = view s"
proof -
  obtain s' where r: "Reconcile f c s = (None, s')"
    using Reconcile_up [OF up, of c s] by (metis prod.collapse)
  have v: "view s' = (view s)(''FORWARD'' \<mapsto> forwardJump f # fwd, firewallChain \<mapsto> buildRules c)"
    using Reconcile_view [OF ok, OF fwd(1) r] fwd(2) by simp
  then have "view (Teardown f s') = (view s')(''FORWARD'' \<mapsto> fwd, firewallChain := None)"
    using Teardown_view [OF ok up, of s' "forwardJump f # fwd"] by simp
  then show ?thesis using r v fwd by (auto simp: fun_eq_iff)
qed

section \<open>A filter table in memory\<close>

definition mem_iptables :: "(string \<rightharpoonup> string list list) iptables" where
  "mem_iptables =
    \<lparr>ipt_ChainExists = (\<lambda>t c s. (s c \<noteq> None, False)),
     ipt_Exists = (\<lambda>t c r s. (case s c of None \<Rightarrow> False | Some rs \<Rightarrow> r \<in> set rs, False)),
     ipt_NewChain = (\<lambda>t c s. (False, s(c \<mapsto> []))),
     ipt_ClearChain = (\<lambda>t c s. (False, s(c \<mapsto> []))),
     ipt_DeleteChain = (\<lambda>t c s. (False, s(c := None))),
     ipt_Insert = (\<lambda>t c n r s. (False, case s c of None \<Rightarrow> s | Some rs \<Rightarrow> s(c \<mapsto> r # rs))),
     ipt_Append = (\<lambda>t c r s. (False, case s c of None \<Rightarrow> s | Some rs \<Rightarrow> s(c \<mapsto> rs @ [r]))),
     ipt_Delete = (\<lambda>t c r s. (False, case s c of None \<Rightarrow> s | Some rs \<Rightarrow> s(c \<mapsto> remove1 r rs)))\<rparr>"

definition mem_firewall :: "(string \<rightharpoonup> string list list) Firewall" where
  "mem_firewall = \<lparr>fw_ipt = mem_iptables, fw_iface = ''seine0''\<rparr>"

text \<open>The same table where appending fails.\<close>

definition broken_firewall :: "(string \<rightharpoonup> string list list) Firewall" where
  "broken_firewall = \<lparr>fw_ipt = mem_iptables\<lparr>ipt_Append := (\<lambda>t c r s. (True, s))\<rparr>, fw_iface = ''seine0''\<rparr>"

lemma mem_iptables_ok: "iptables_ok (fw_ipt mem_firewall) id" "iptables_up (fw_ipt mem_firewall)"
  "iptables_ok (fw_ipt broken_firewall) id"
  by (simp_all add: iptables_ok_def iptables_up_def mem_firewall_def broken_firewall_def mem_iptables_def)

definition small_policy :: Compiled where
  "small_policy = \<lparr>Allows = [], Denies = [\<lparr>Rule_Source = Addr4 1, Rule_Dest = Addr4 2, Rule_Allow = False\<rparr>],
     HubIPs = [Addr4 9], Overlay = Prefix (Addr4 0) 25\<rparr>"

theorem Reconcile_Teardown_witness:
  "\<exists>s'. Reconcile mem_firewall small_policy [''FORWARD'' \<mapsto> []] = (None, s') \<and>
    s' firewallChain = Some (buildRules small_policy) \<and> Teardown mem_firewall s' = [''FORWARD'' \<mapsto> []]"
  using Reconcile_Teardown [OF mem_iptables_ok(1,2), of "[''FORWARD'' \<mapsto> []]" "[]" small_policy] by simp

theorem Reconcile_installs_witness:
  "\<exists>s'. Reconcile mem_firewall small_policy [''FORWARD'' \<mapsto> []] = (None, s') \<and>
    s' firewallChain = Some (buildRules small_policy)"
proof -
  obtain s' where r: "Reconcile mem_firewall small_policy [''FORWARD'' \<mapsto> []] = (None, s')"
    using Reconcile_up [OF mem_iptables_ok(2)] by (metis prod.collapse)
  show ?thesis using Reconcile_installs [OF mem_iptables_ok(1), OF _ r, of "[]"] r by simp
qed

theorem Reconcile_failure_witness:
  "\<exists>e s'. Reconcile broken_firewall small_policy [''FORWARD'' \<mapsto> []] = (Some e, s') \<and>
    (s' firewallChain \<in> {None, Some []} \<or>
      (\<exists>n < length (buildRules small_policy). s' firewallChain = Some (take n (buildRules small_policy)) \<and>
         e = AppendFailed (buildRules small_policy ! n)))"
proof -
  have r: "Reconcile broken_firewall small_policy [''FORWARD'' \<mapsto> []] =
      (Some (AppendFailed (hd (buildRules small_policy))),
       [''FORWARD'' \<mapsto> [forwardJump broken_firewall], firewallChain \<mapsto> []])"
    by (simp add: Reconcile_def ensureChain_def ensureForwardJump_def broken_firewall_def mem_iptables_def
        buildRules_def small_policy_def forwardJump_def fun_upd_twist)
  show ?thesis
    using Reconcile_failure [OF mem_iptables_ok(3), OF _ r, of "[]"] r by (auto simp: firewallChain_def)
qed

theorem partial_chain_open_witness: "chain_verdict (take 2 (buildRules small_policy)) (Addr4 1) (Addr4 2) = None"
  by (rule partial_chain_open) (simp_all add: small_policy_def ipv4_policy_def ipv4_prefix_def)


end
