(* ===== verification/Agentcore.thy ===== *)
theory Agentcore
  imports Specsource Wg_Iface Firewall Buildinfo_Logging
begin

text \<open>
  Package \<^verbatim>\<open>internal/agentcore\<close> (\<^verbatim>\<open>agent.go\<close>): the life of an agent, from the key and token files
  over registration and the interface to the reconciliation loop and the deferred teardown. The
  world is the state of the kernel, of iptables, of the file system and of the network together
  with the watcher; what the package calls outside the repository, and the packages of the
  repository it calls, are in a record of dependencies. A wait of a loop is an event: what happened
  to the world meanwhile and which case of the select fired. A loop returns \<open>None\<close> when the events
  are used up and it is still running. Logging and metrics are left out.
\<close>

section \<open>Data\<close>

definition ModeSpoke :: string where "ModeSpoke = ''spoke''"
definition ModeHub :: string where "ModeHub = ''hub''"

text \<open>\<open>AC_Spec\<close> says whether the watcher is given (not nil).\<close>

record AgentConfig =
  AC_Name :: string
  AC_Mode :: string
  AC_Spec :: bool
  AC_ControlPlaneAddr :: string
  AC_BootstrapToken :: string
  AC_AdvertisedEndpoint :: string
  AC_InterfaceName :: string
  AC_StateDir :: string
  AC_ReconcileInterval :: int
  AC_SpecFirstLoadTimeout :: int
  AC_RegisterRetryInterval :: int

datatype ClientCode = GrpcCode Code | OtherCode string
datatype RpcError = RpcError ClientCode string

datatype AgentError =
    NameRequired | InvalidMode string | SpecRequired | ControlPlaneAddrRequired
  | MeterCounter string | MeterHistogram string
  | StateDirFailed | KeyFailed KeyError | DialFailed string
  | ReadToken | NoTokenNoBootstrap | RegisterRpc RpcError | EmptyAuthToken | PersistToken
  | ContextCancelled | SpecTimeout int | SpecUnavailable WatchError
  | SelfFailed TopologyError | RoleMismatch string Role
  | WgInterface IfaceError | IfaceUp IfaceError | SpecForBringUp WatchError | ParseOverlay
  | ForwardingFailed ForwardingError | FirewallInit FirewallError
  | ReRegister AgentError | HeartbeatFailedRpc RpcError | SpecFailed WatchError
  | ComputePeers TopologyError | ApplyFailed IfaceError | CompileACL NetpolicyError | ApplyACL FirewallError
  | NilDocumentPanic | NilInterfacePanic

record ('s, 'i, 'f, 'n) World =
  wd_kernel :: 's
  wd_ipt :: 'i
  wd_fs :: 'f
  wd_net :: 'n
  wd_watcher :: Watcher

record ('s, 'a, 'i, 'f, 'n) Deps =
  dep_files :: "'f key_env"
  dep_wgctrl :: "('s, 'a) kernel option"
  dep_iptables :: "'i iptables option"
  dep_LookupIP :: "string \<Rightarrow> IP list option"
  dep_iter :: "Key set \<Rightarrow> Key list"
  dep_NewClient :: "string \<Rightarrow> 'n \<Rightarrow> string option \<times> 'n"
  dep_ConnClose :: "'n \<Rightarrow> 'n"
  dep_Register :: "RegisterRequest \<Rightarrow> 'n \<Rightarrow> (RpcError + RegisterResponse) \<times> 'n"
  dep_Heartbeat :: "string \<Rightarrow> HeartbeatRequest \<Rightarrow> 'n \<Rightarrow> (RpcError + HeartbeatResponse) \<times> 'n"
  dep_Version :: string
  dep_Commit :: string

record ('s, 'a, 'i) AgentState =
  Ag_cfg :: AgentConfig
  Ag_keypair :: Keypair
  Ag_authToken :: string
  Ag_iface :: "('s, 'a) linuxIface option"
  Ag_self :: Self
  Ag_firewall :: "'i Firewall option"
  Ag_keyPath :: string
  Ag_tokenPath :: string

section \<open>Construction\<close>

definition applyDefaults :: "AgentConfig \<Rightarrow> AgentConfig" where
  "applyDefaults c =
     (let c = (if AC_InterfaceName c = [] then c\<lparr>AC_InterfaceName := ''seine0''\<rparr> else c);
          c = (if AC_StateDir c = [] then c\<lparr>AC_StateDir := Join2 ''/var/lib/seine'' (AC_Name c)\<rparr> else c);
          c = (if AC_ReconcileInterval c \<le> 0 then c\<lparr>AC_ReconcileInterval := 30 * int Second\<rparr> else c);
          c = (if AC_SpecFirstLoadTimeout c \<le> 0 then c\<lparr>AC_SpecFirstLoadTimeout := 60 * int Second\<rparr> else c)
      in if AC_RegisterRetryInterval c \<le> 0 then c\<lparr>AC_RegisterRetryInterval := 5 * int Second\<rparr> else c)"

text \<open>\<open>counter\<close> and \<open>histogram\<close> are the errors of creating the two instruments.\<close>

definition Agent_New ::
    "string option \<Rightarrow> string option \<Rightarrow> AgentConfig \<Rightarrow> AgentError + ('s, 'a, 'i) AgentState" where
  "Agent_New counter histogram cfg =
     (if AC_Name cfg = [] then Inl NameRequired
      else if AC_Mode cfg \<noteq> ModeSpoke \<and> AC_Mode cfg \<noteq> ModeHub then Inl (InvalidMode (AC_Mode cfg))
      else if \<not> AC_Spec cfg then Inl SpecRequired
      else if AC_ControlPlaneAddr cfg = [] then Inl ControlPlaneAddrRequired
      else
        let cfg = applyDefaults cfg;
            a = \<lparr>Ag_cfg = cfg, Ag_keypair = \<lparr>Private = 0, Public = 0\<rparr>, Ag_authToken = [], Ag_iface = None,
                 Ag_self = \<lparr>Self_Name = [], Self_Role = ROLE_UNSPECIFIED, Self_TunnelIP = ZeroAddr, Self_HubName = []\<rparr>,
                 Ag_firewall = None, Ag_keyPath = Join2 (AC_StateDir cfg) ''private.key'',
                 Ag_tokenPath = Join2 (AC_StateDir cfg) ''auth.token''\<rparr>
        in case counter of
             Some e \<Rightarrow> Inl (MeterCounter e)
           | None \<Rightarrow> (case histogram of Some e \<Rightarrow> Inl (MeterHistogram e) | None \<Rightarrow> Inr a))"

section \<open>Registration\<close>

definition register ::
    "('s, 'a, 'i, 'f, 'n) Deps \<Rightarrow> ('s, 'a, 'i) AgentState \<Rightarrow> ('s, 'i, 'f, 'n) World \<Rightarrow>
     AgentError option \<times> ('s, 'a, 'i) AgentState \<times> ('s, 'i, 'f, 'n) World" where
  "register D a w =
     (case dep_Register D
             \<lparr>Reg_Name = AC_Name (Ag_cfg a), Reg_BootstrapToken = AC_BootstrapToken (Ag_cfg a),
              Reg_PublicKey = env_KeyString (dep_files D) (Public (Ag_keypair a)),
              Reg_Endpoint = AC_AdvertisedEndpoint (Ag_cfg a),
              Reg_AgentVersion = Short (dep_Version D) (dep_Commit D)\<rparr> (wd_net w) of
        (Inl e, n) \<Rightarrow> (Some (RegisterRpc e), a, w\<lparr>wd_net := n\<rparr>)
      | (Inr resp, n) \<Rightarrow>
          let w = w\<lparr>wd_net := n\<rparr> in
          if Resp_AuthToken resp = [] then (Some EmptyAuthToken, a, w)
          else let a = a\<lparr>Ag_authToken := Resp_AuthToken resp\<rparr>;
                   (ok, fs) = env_WriteFile (dep_files D) (Ag_tokenPath a) (Ag_authToken a) 384 (wd_fs w);
                   w = w\<lparr>wd_fs := fs\<rparr>
               in (if ok then None else Some PersistToken, a, w))"

text \<open>\<^verbatim>\<open>status.Code\<close> of an error that carries no status is \<^verbatim>\<open>Unknown\<close>, which is retried.\<close>

fun permanent :: "AgentError \<Rightarrow> bool" where
  "permanent (RegisterRpc (RpcError (GrpcCode c) m)) \<longleftrightarrow> c = PermissionDenied \<or> c = Unauthenticated \<or> c = InvalidArgument"
| "permanent e \<longleftrightarrow> False"

record 'w Wait =
  wait_world :: "'w \<Rightarrow> 'w"
  wait_cancelled :: bool

fun registerWithRetry ::
    "('s, 'a, 'i, 'f, 'n) Deps \<Rightarrow> ('s, 'i, 'f, 'n) World Wait list \<Rightarrow> ('s, 'a, 'i) AgentState \<Rightarrow> ('s, 'i, 'f, 'n) World \<Rightarrow>
     (AgentError option \<times> ('s, 'a, 'i) AgentState \<times> ('s, 'i, 'f, 'n) World) option" where
  "registerWithRetry D [] a w =
     (case register D a w of
        (None, a', w') \<Rightarrow> Some (None, a', w')
      | (Some e, a', w') \<Rightarrow> if permanent e then Some (Some e, a', w') else None)"
| "registerWithRetry D (t # ts) a w =
     (case register D a w of
        (None, a', w') \<Rightarrow> Some (None, a', w')
      | (Some e, a', w') \<Rightarrow>
          if permanent e then Some (Some e, a', w')
          else if wait_cancelled t then Some (Some ContextCancelled, a', w')
          else registerWithRetry D ts a' (wait_world t w'))"

definition loadOrRegister ::
    "('s, 'a, 'i, 'f, 'n) Deps \<Rightarrow> ('s, 'i, 'f, 'n) World Wait list \<Rightarrow> ('s, 'a, 'i) AgentState \<Rightarrow> ('s, 'i, 'f, 'n) World \<Rightarrow>
     (AgentError option \<times> ('s, 'a, 'i) AgentState \<times> ('s, 'i, 'f, 'n) World) option" where
  "loadOrRegister D ts a w =
     (case env_ReadFile (dep_files D) (Ag_tokenPath a) (wd_fs w) of
        ReadOK data \<Rightarrow> Some (None, a\<lparr>Ag_authToken := data\<rparr>, w)
      | ReadError \<Rightarrow> Some (Some ReadToken, a, w)
      | ReadNotExist \<Rightarrow>
          if AC_BootstrapToken (Ag_cfg a) = [] then Some (Some NoTokenNoBootstrap, a, w)
          else registerWithRetry D ts a w)"

section \<open>The document and the interface\<close>

datatype 'w SpecWait = DeadlineDone | UpdateReceived "'w \<Rightarrow> 'w"

definition spec_ready :: "('s, 'i, 'f, 'n) World \<Rightarrow> bool" where
  "spec_ready w \<longleftrightarrow> snd (snd (Current (wd_watcher w))) = None"

text \<open>A receive is possible only when the slot is full; otherwise the select goes on waiting.\<close>

definition receive_update :: "('s, 'i, 'f, 'n) World \<Rightarrow> ('s, 'i, 'f, 'n) World option" where
  "receive_update w = map_option (\<lambda>v. w\<lparr>wd_watcher := v\<rparr>) (Updates (wd_watcher w))"

fun spec_wait_loop ::
    "int \<Rightarrow> ('s, 'i, 'f, 'n) World SpecWait list \<Rightarrow> ('s, 'i, 'f, 'n) World \<Rightarrow> (AgentError option \<times> ('s, 'i, 'f, 'n) World) option" where
  "spec_wait_loop timeout [] w = None"
| "spec_wait_loop timeout (DeadlineDone # es) w = Some (Some (SpecTimeout timeout), w)"
| "spec_wait_loop timeout (UpdateReceived f # es) w =
     (case receive_update (f w) of
        None \<Rightarrow> spec_wait_loop timeout es (f w)
      | Some w' \<Rightarrow> if spec_ready w' then Some (None, w') else spec_wait_loop timeout es w')"

definition waitForFirstSpec ::
    "('s, 'i, 'f, 'n) World SpecWait list \<Rightarrow> ('s, 'a, 'i) AgentState \<Rightarrow> ('s, 'i, 'f, 'n) World \<Rightarrow>
     (AgentError option \<times> ('s, 'i, 'f, 'n) World) option" where
  "waitForFirstSpec es a w =
     (if spec_ready w then Some (None, w)
      else spec_wait_loop (AC_SpecFirstLoadTimeout (Ag_cfg a)) es w)"

text \<open>\<open>Current\<close> with its error wrapped; a nil document with no error would be dereferenced.\<close>

definition current_doc :: "(WatchError \<Rightarrow> AgentError) \<Rightarrow> ('s, 'i, 'f, 'n) World \<Rightarrow> AgentError + Document \<times> string" where
  "current_doc wrap w =
     (case Current (wd_watcher w) of
        (_, _, Some e) \<Rightarrow> Inl (wrap e)
      | (Some d, commit, None) \<Rightarrow> Inr (d, commit)
      | (None, _, None) \<Rightarrow> Inl NilDocumentPanic)"

definition listenPort :: "AgentConfig \<Rightarrow> Document \<Rightarrow> int" where
  "listenPort cfg d =
     (if AC_Mode cfg = ModeHub
      then case FindHub d (AC_Name cfg) of
             None \<Rightarrow> HubListenPort (Network_WireGuard (Document_Spec d))
           | Some h \<Rightarrow>
               (case SplitHostPort (Hub_Endpoint h) of
                  None \<Rightarrow> HubListenPort (Network_WireGuard (Document_Spec d))
                | Some (_, port) \<Rightarrow>
                    (case Atoi port of
                       None \<Rightarrow> HubListenPort (Network_WireGuard (Document_Spec d))
                     | Some p \<Rightarrow> p))
      else 0)"

definition bringUp ::
    "('s, 'a, 'i) AgentState \<Rightarrow> ('s, 'i, 'f, 'n) World \<Rightarrow> AgentError option \<times> ('s, 'i, 'f, 'n) World" where
  "bringUp a w =
     (case current_doc SpecForBringUp w of
        Inl e \<Rightarrow> (Some e, w)
      | Inr (d, _) \<Rightarrow>
          (case ParsePrefix (CIDR (Document_Spec d)) of
             None \<Rightarrow> (Some ParseOverlay, w)
           | Some overlay \<Rightarrow>
               (case Ag_iface a of
                  None \<Rightarrow> (Some NilInterfacePanic, w)
                | Some l \<Rightarrow>
                    (case Up l \<lparr>Up_PrivateKey = Private (Ag_keypair a), Up_ListenPort = listenPort (Ag_cfg a) d,
                                Up_Address = PrefixFrom (Self_TunnelIP (Ag_self a)) (Prefix_Bits overlay),
                                Up_MTU = MTU (Network_WireGuard (Document_Spec d))\<rparr> (wd_kernel w) of
                       (err, s) \<Rightarrow> (map_option IfaceUp err, w\<lparr>wd_kernel := s\<rparr>)))))"

section \<open>Reconciliation\<close>

definition reconcileFirewall ::
    "('s, 'a, 'i) AgentState \<Rightarrow> Document \<Rightarrow> ('s, 'i, 'f, 'n) World \<Rightarrow> AgentError option \<times> ('s, 'i, 'f, 'n) World" where
  "reconcileFirewall a doc w =
     (case Ag_firewall a of
        None \<Rightarrow> (None, w)
      | Some f \<Rightarrow>
          (case Compile (Some doc) of
             Inl e \<Rightarrow> (Some (CompileACL e), w)
           | Inr compiled \<Rightarrow>
               (case Reconcile f compiled (wd_ipt w) of
                  (err, i) \<Rightarrow> (map_option ApplyACL err, w\<lparr>wd_ipt := i\<rparr>))))"

definition applyDesired ::
    "('s, 'a, 'i, 'f, 'n) Deps \<Rightarrow> ('s, 'a, 'i) AgentState \<Rightarrow> HeartbeatResponse \<Rightarrow> ('s, 'i, 'f, 'n) World \<Rightarrow>
     AgentError option \<times> ('s, 'i, 'f, 'n) World" where
  "applyDesired D a resp w =
     (case current_doc SpecFailed w of
        Inl e \<Rightarrow> (Some e, w)
      | Inr (doc, commit) \<Rightarrow>
          (case PeersFor (env_ParseKey (dep_files D)) (dep_LookupIP D) doc (Ag_self a) (HB_Peers resp)
                  (PersistentKeepalive (Network_WireGuard (Document_Spec doc))) of
             Inl e \<Rightarrow> (Some (ComputePeers e), w)
           | Inr desired \<Rightarrow>
               (case Ag_iface a of
                  None \<Rightarrow> (Some NilInterfacePanic, w)
                | Some l \<Rightarrow>
                    (case ApplyPeers (dep_iter D) l desired (wd_kernel w) of
                       ((_, Some e), s) \<Rightarrow> (Some (ApplyFailed e), w\<lparr>wd_kernel := s\<rparr>)
                     | ((_, None), s) \<Rightarrow> reconcileFirewall a doc (w\<lparr>wd_kernel := s\<rparr>)))))"

definition reconcileOnce ::
    "('s, 'a, 'i, 'f, 'n) Deps \<Rightarrow> ('s, 'a, 'i) AgentState \<Rightarrow> ('s, 'i, 'f, 'n) World \<Rightarrow>
     AgentError option \<times> ('s, 'a, 'i) AgentState \<times> ('s, 'i, 'f, 'n) World" where
  "reconcileOnce D a w =
     (case dep_Heartbeat D (''Bearer '' @ Ag_authToken a) \<lparr>HB_Endpoint = AC_AdvertisedEndpoint (Ag_cfg a)\<rparr> (wd_net w) of
        (Inl (RpcError code m), n) \<Rightarrow>
          let w = w\<lparr>wd_net := n\<rparr> in
          if code = GrpcCode Unauthenticated \<and> AC_BootstrapToken (Ag_cfg a) \<noteq> []
          then (case register D a w of (err, a', w') \<Rightarrow> (map_option ReRegister err, a', w'))
          else (Some (HeartbeatFailedRpc (RpcError code m)), a, w)
      | (Inr resp, n) \<Rightarrow>
          (case applyDesired D a resp (w\<lparr>wd_net := n\<rparr>) of (err, w') \<Rightarrow> (err, a, w')))"

datatype 'w LoopEvent = LoopDone | LoopTick "'w \<Rightarrow> 'w" | LoopUpdate "'w \<Rightarrow> 'w"

text \<open>The outcomes of the reconciliations and the final state.\<close>

fun reconcile_events ::
    "('s, 'a, 'i, 'f, 'n) Deps \<Rightarrow> ('s, 'i, 'f, 'n) World LoopEvent list \<Rightarrow> ('s, 'a, 'i) AgentState \<Rightarrow> ('s, 'i, 'f, 'n) World \<Rightarrow>
     (AgentError option list \<times> ('s, 'a, 'i) AgentState \<times> ('s, 'i, 'f, 'n) World) option" where
  "reconcile_events D [] a w = None"
| "reconcile_events D (LoopDone # es) a w = Some ([], a, w)"
| "reconcile_events D (LoopTick f # es) a w =
     (case reconcileOnce D a (f w) of
        (err, a', w') \<Rightarrow> map_option (apfst ((#) err)) (reconcile_events D es a' w'))"
| "reconcile_events D (LoopUpdate f # es) a w =
     (case receive_update (f w) of
        None \<Rightarrow> reconcile_events D es a (f w)
      | Some w1 \<Rightarrow>
          (case reconcileOnce D a w1 of
             (err, a', w') \<Rightarrow> map_option (apfst ((#) err)) (reconcile_events D es a' w')))"

definition reconcileLoop ::
    "('s, 'a, 'i, 'f, 'n) Deps \<Rightarrow> ('s, 'i, 'f, 'n) World LoopEvent list \<Rightarrow> ('s, 'a, 'i) AgentState \<Rightarrow> ('s, 'i, 'f, 'n) World \<Rightarrow>
     (AgentError option list \<times> ('s, 'a, 'i) AgentState \<times> ('s, 'i, 'f, 'n) World) option" where
  "reconcileLoop D es a w =
     (case reconcileOnce D a w of
        (err, a', w') \<Rightarrow> map_option (apfst ((#) err)) (reconcile_events D es a' w'))"

section \<open>The life of an agent\<close>

text \<open>What a phase returns: \<open>None\<close> while it is still running, else the error and the states.\<close>

type_synonym ('s, 'a, 'i, 'f, 'n) outcome =
  "(AgentError option \<times> ('s, 'a, 'i) AgentState \<times> ('s, 'i, 'f, 'n) World) option"

record ('s, 'i, 'f, 'n) Events =
  ev_gen :: "Key option"
  ev_register :: "('s, 'i, 'f, 'n) World Wait list"
  ev_spec :: "('s, 'i, 'f, 'n) World SpecWait list"
  ev_loop :: "('s, 'i, 'f, 'n) World LoopEvent list"

definition forwarding :: "('s, 'a, 'i, 'f, 'n) Deps \<Rightarrow> 'f \<Rightarrow> ForwardingError option \<times> 'f" where
  "forwarding D =
     EnsureIPForwarding
       (\<lambda>p fs. case env_ReadFile (dep_files D) p fs of ReadOK d \<Rightarrow> Some d | _ \<Rightarrow> None)
       (\<lambda>p d fs. env_WriteFile (dep_files D) p d 420 fs)"

definition runLoop ::
    "('s, 'a, 'i, 'f, 'n) Deps \<Rightarrow> ('s, 'i, 'f, 'n) Events \<Rightarrow> ('s, 'a, 'i) AgentState \<Rightarrow> ('s, 'i, 'f, 'n) World \<Rightarrow>
     ('s, 'a, 'i, 'f, 'n) outcome" where
  "runLoop D ev a w = map_option (\<lambda>(_, a', w'). (None, a', w')) (reconcileLoop D (ev_loop ev) a w)"

text \<open>After the interface is up: a hub's forwarding and firewall, whose teardown is deferred.\<close>

definition runHub ::
    "('s, 'a, 'i, 'f, 'n) Deps \<Rightarrow> ('s, 'i, 'f, 'n) Events \<Rightarrow> ('s, 'a, 'i) AgentState \<Rightarrow> ('s, 'i, 'f, 'n) World \<Rightarrow>
     ('s, 'a, 'i, 'f, 'n) outcome" where
  "runHub D ev a w =
     (if AC_Mode (Ag_cfg a) \<noteq> ModeHub then runLoop D ev a w
      else case forwarding D (wd_fs w) of
             (Some e, fs) \<Rightarrow> Some (Some (ForwardingFailed e), a, w\<lparr>wd_fs := fs\<rparr>)
           | (None, fs) \<Rightarrow>
               (let w = w\<lparr>wd_fs := fs\<rparr> in
                case NewFirewall (dep_iptables D) (AC_InterfaceName (Ag_cfg a)) of
                  Inl e \<Rightarrow> Some (Some (FirewallInit e), a, w)
                | Inr fw \<Rightarrow>
                    map_option (\<lambda>(err, a', w'). (err, a', w'\<lparr>wd_ipt := Teardown fw (wd_ipt w')\<rparr>))
                      (runLoop D ev (a\<lparr>Ag_firewall := Some fw\<rparr>) w)))"

text \<open>With an interface handle: bring it up; taking it down is deferred once it is up, closing it always.\<close>

definition runIface ::
    "('s, 'a, 'i, 'f, 'n) Deps \<Rightarrow> ('s, 'i, 'f, 'n) Events \<Rightarrow> ('s, 'a) linuxIface \<Rightarrow> ('s, 'a, 'i) AgentState \<Rightarrow> ('s, 'i, 'f, 'n) World \<Rightarrow>
     ('s, 'a, 'i, 'f, 'n) outcome" where
  "runIface D ev l a w =
     map_option (\<lambda>(err, a', w'). (err, a', w'\<lparr>wd_kernel := snd (Iface_Close l (wd_kernel w'))\<rparr>))
       (case bringUp (a\<lparr>Ag_iface := Some l\<rparr>) w of
          (Some e, w1) \<Rightarrow> Some (Some e, a\<lparr>Ag_iface := Some l\<rparr>, w1)
        | (None, w1) \<Rightarrow>
            map_option (\<lambda>(err, a', w'). (err, a', w'\<lparr>wd_kernel := snd (Down l (wd_kernel w'))\<rparr>))
              (runHub D ev (a\<lparr>Ag_iface := Some l\<rparr>) w1))"

definition runSelf ::
    "('s, 'a, 'i, 'f, 'n) Deps \<Rightarrow> ('s, 'i, 'f, 'n) Events \<Rightarrow> ('s, 'a, 'i) AgentState \<Rightarrow> ('s, 'i, 'f, 'n) World \<Rightarrow>
     ('s, 'a, 'i, 'f, 'n) outcome" where
  "runSelf D ev a w =
     (case current_doc SpecUnavailable w of
        Inl e \<Rightarrow> Some (Some e, a, w)
      | Inr (doc, _) \<Rightarrow>
          (case FindSelf doc (AC_Name (Ag_cfg a)) of
             Inl e \<Rightarrow> Some (Some (SelfFailed e), a, w)
           | Inr self \<Rightarrow>
               let a = a\<lparr>Ag_self := self\<rparr> in
               if (Self_Role self = ROLE_HUB) \<noteq> (AC_Mode (Ag_cfg a) = ModeHub)
               then Some (Some (RoleMismatch (AC_Mode (Ag_cfg a)) (Self_Role self)), a, w)
               else case New (dep_wgctrl D) (AC_InterfaceName (Ag_cfg a)) of
                      Inl e \<Rightarrow> Some (Some (WgInterface e), a, w)
                    | Inr l \<Rightarrow> runIface D ev l a w))"

definition runConn ::
    "('s, 'a, 'i, 'f, 'n) Deps \<Rightarrow> ('s, 'i, 'f, 'n) Events \<Rightarrow> ('s, 'a, 'i) AgentState \<Rightarrow> ('s, 'i, 'f, 'n) World \<Rightarrow>
     ('s, 'a, 'i, 'f, 'n) outcome" where
  "runConn D ev a w =
     map_option (\<lambda>(err, a', w'). (err, a', w'\<lparr>wd_net := dep_ConnClose D (wd_net w')\<rparr>))
       (case loadOrRegister D (ev_register ev) a w of
          None \<Rightarrow> None
        | Some (Some e, a1, w1) \<Rightarrow> Some (Some e, a1, w1)
        | Some (None, a1, w1) \<Rightarrow>
            (case waitForFirstSpec (ev_spec ev) a1 w1 of
               None \<Rightarrow> None
             | Some (Some e, w2) \<Rightarrow> Some (Some e, a1, w2)
             | Some (None, w2) \<Rightarrow> runSelf D ev a1 w2))"

definition Agent_Run ::
    "('s, 'a, 'i, 'f, 'n) Deps \<Rightarrow> ('s, 'i, 'f, 'n) Events \<Rightarrow> ('s, 'a, 'i) AgentState \<Rightarrow> ('s, 'i, 'f, 'n) World \<Rightarrow>
     ('s, 'a, 'i, 'f, 'n) outcome" where
  "Agent_Run D ev a w =
     (case env_MkdirAll (dep_files D) (AC_StateDir (Ag_cfg a)) 448 (wd_fs w) of
        (False, fs) \<Rightarrow> Some (Some StateDirFailed, a, w\<lparr>wd_fs := fs\<rparr>)
      | (True, fs) \<Rightarrow>
          (case LoadOrGenerate (dep_files D) (ev_gen ev) (Ag_keyPath a) fs of
             (Inl e, fs) \<Rightarrow> Some (Some (KeyFailed e), a, w\<lparr>wd_fs := fs\<rparr>)
           | (Inr kp, fs) \<Rightarrow>
               (let a = a\<lparr>Ag_keypair := kp\<rparr> in
                case dep_NewClient D (AC_ControlPlaneAddr (Ag_cfg a)) (wd_net w) of
                  (Some e, n) \<Rightarrow> Some (Some (DialFailed e), a, w\<lparr>wd_fs := fs, wd_net := n\<rparr>)
                | (None, n) \<Rightarrow> runConn D ev a (w\<lparr>wd_fs := fs, wd_net := n\<rparr>))))"

section \<open>Registration and the token file\<close>

lemma register_keeps:
  "register D a w = (err, a', w') \<Longrightarrow> wd_kernel w' = wd_kernel w \<and> wd_ipt w' = wd_ipt w \<and> wd_watcher w' = wd_watcher w \<and>
     Ag_cfg a' = Ag_cfg a \<and> Ag_tokenPath a' = Ag_tokenPath a \<and> Ag_keypair a' = Ag_keypair a \<and>
     Ag_iface a' = Ag_iface a \<and> Ag_firewall a' = Ag_firewall a \<and> Ag_self a' = Ag_self a"
  by (auto simp: register_def Let_def split: prod.splits sum.splits if_splits)

lemma register_ok:
  assumes "register D a w = (None, a', w')"
  shows "Ag_authToken a' \<noteq> [] \<and>
    (\<exists>fs. env_WriteFile (dep_files D) (Ag_tokenPath a) (Ag_authToken a') 384 fs = (True, wd_fs w'))"
  using assms by (auto simp: register_def Let_def split: prod.splits sum.splits if_splits)

lemma registerWithRetry_outcome:
  "registerWithRetry D ts a w = Some (err, a', w') \<Longrightarrow>
     Ag_tokenPath a' = Ag_tokenPath a \<and> Ag_cfg a' = Ag_cfg a \<and>
     (case err of
        None \<Rightarrow> \<exists>a0 w0. Ag_tokenPath a0 = Ag_tokenPath a \<and> register D a0 w0 = (None, a', w')
      | Some e \<Rightarrow> permanent e \<or> e = ContextCancelled \<and> list_ex wait_cancelled ts)"
proof (induction D ts a w rule: registerWithRetry.induct)
  case (1 D a w)
  obtain e a1 w1 where r: "register D a w = (e, a1, w1)" by (metis prod_cases3)
  then show ?case using 1 register_keeps [OF r] by (cases e) (auto split: if_splits)
next
  case (2 D t ts a w)
  obtain e a1 w1 where r: "register D a w = (e, a1, w1)" by (metis prod_cases3)
  note keeps = register_keeps [OF r]
  show ?case
  proof (cases e)
    case None
    then show ?thesis using 2(2) r keeps by auto
  next
    case (Some e')
    consider "permanent e'" | "\<not> permanent e'" "wait_cancelled t" | "\<not> permanent e'" "\<not> wait_cancelled t" by blast
    then show ?thesis
    proof cases
      case 3
      then have "registerWithRetry D ts a1 (wait_world t w1) = Some (err, a', w')" using 2(2) r Some by simp
      then show ?thesis using 2(1) [OF r [symmetric] Some refl 3] keeps by (auto split: option.splits)
    qed (use 2(2) r Some keeps in auto)
  qed
qed

text \<open>
  C23. A registration survives a restart. When \<open>loadOrRegister\<close> has succeeded, with the token read from
  the file or obtained from the server after any number of failed attempts, the token is in memory,
  and the next start reads that same token from the file without contacting the server.
\<close>

theorem token_survives_restart:
  assumes "key_env_ok (dep_files D)" "loadOrRegister D ts a w = Some (None, a', w')"
    and "Ag_tokenPath b = Ag_tokenPath a" "wd_fs v = wd_fs w'"
  shows "loadOrRegister D ts' b v = Some (None, b\<lparr>Ag_authToken := Ag_authToken a'\<rparr>, v)"
proof -
  have "env_ReadFile (dep_files D) (Ag_tokenPath a) (wd_fs w') = ReadOK (Ag_authToken a')"
  proof (cases "env_ReadFile (dep_files D) (Ag_tokenPath a) (wd_fs w)")
    case (ReadOK data)
    then show ?thesis using assms(2) by (auto simp: loadOrRegister_def)
  next
    case ReadNotExist
    then have "registerWithRetry D ts a w = Some (None, a', w')"
      using assms(2) by (simp add: loadOrRegister_def split: if_splits)
    then obtain a0 w0 where "Ag_tokenPath a0 = Ag_tokenPath a" "register D a0 w0 = (None, a', w')"
      using registerWithRetry_outcome by fastforce
    then obtain fs where "env_WriteFile (dep_files D) (Ag_tokenPath a) (Ag_authToken a') 384 fs = (True, wd_fs w')"
      using register_ok by fastforce
    then show ?thesis using assms(1) unfolding key_env_ok_def by blast
  qed (use assms(2) in \<open>simp add: loadOrRegister_def\<close>)
  then show ?thesis using assms(3,4) by (simp add: loadOrRegister_def)
qed

text \<open>
  C32. Registration gives up only where retrying cannot help: an error is returned when the server
  refused the request as permission denied, unauthenticated or invalid, or when the context was
  cancelled during a wait; every other failure is retried.
\<close>

theorem register_retries_transient:
  assumes "registerWithRetry D ts a w = Some (Some e, a', w')"
  shows "(\<exists>c m. e = RegisterRpc (RpcError (GrpcCode c) m) \<and> c \<in> {PermissionDenied, Unauthenticated, InvalidArgument}) \<or>
    e = ContextCancelled \<and> list_ex wait_cancelled ts"
proof -
  have "permanent e \<or> e = ContextCancelled \<and> list_ex wait_cancelled ts" using registerWithRetry_outcome [OF assms] by simp
  moreover have "\<exists>c m. e = RegisterRpc (RpcError (GrpcCode c) m) \<and> c \<in> {PermissionDenied, Unauthenticated, InvalidArgument}" if "permanent e"
    using that by (cases e rule: permanent.cases) auto
  ultimately show ?thesis by blast
qed

section \<open>Reconciliation\<close>

lemma reconcile_events_returns:
  "(\<exists>r. reconcile_events D es a w = Some r) \<longleftrightarrow> LoopDone \<in> set es"
proof (induction es arbitrary: a w)
  case (Cons e es)
  have step: "(\<exists>r. map_option (apfst ((#) err)) (reconcile_events D es a' w') = Some r) \<longleftrightarrow> LoopDone \<in> set es" for err a' w'
    using Cons.IH [of a' w'] by auto
  show ?case
  proof (cases e)
    case (LoopTick f)
    then show ?thesis using step by (cases "reconcileOnce D a (f w)") auto
  next
    case (LoopUpdate f)
    show ?thesis
    proof (cases "receive_update (f w)")
      case (Some w1)
      then show ?thesis using step LoopUpdate by (cases "reconcileOnce D a w1") auto
    qed (use Cons.IH LoopUpdate in simp)
  qed simp
qed simp

text \<open>
  C29. The reconciliation loop ends exactly when its context is cancelled: no failed heartbeat, document,
  peer computation, kernel or firewall call stops it.
\<close>

theorem reconcileLoop_returns_iff_cancelled:
  "(\<exists>errs a' w'. reconcileLoop D es a w = Some (errs, a', w')) \<longleftrightarrow> LoopDone \<in> set es"
proof -
  obtain e a1 w1 where "reconcileOnce D a w = (e, a1, w1)" by (metis prod_cases3)
  then show ?thesis using reconcile_events_returns [of D es a1 w1] by (auto simp: reconcileLoop_def)
qed

lemma reconcileFirewall_keeps: "reconcileFirewall a doc w = (err, w') \<Longrightarrow> wd_kernel w' = wd_kernel w"
  by (auto simp: reconcileFirewall_def split: option.splits sum.splits prod.splits)

lemma applyDesired_untouched:
  assumes "applyDesired D a resp w = (err, w')" "wd_kernel w' \<noteq> wd_kernel w \<or> wd_ipt w' \<noteq> wd_ipt w"
  shows "\<exists>doc commit desired l. Current (wd_watcher w) = (Some doc, commit, None) \<and> Ag_iface a = Some l \<and>
    PeersFor (env_ParseKey (dep_files D)) (dep_LookupIP D) doc (Ag_self a) (HB_Peers resp)
      (PersistentKeepalive (Network_WireGuard (Document_Spec doc))) = Inr desired \<and>
    wd_kernel w' = snd (ApplyPeers (dep_iter D) l desired (wd_kernel w))"
proof -
  obtain doc commit where d: "Current (wd_watcher w) = (Some doc, commit, None)" "current_doc SpecFailed w = Inr (doc, commit)"
    using assms by (auto simp: applyDesired_def current_doc_def split: prod.splits option.splits sum.splits)
  obtain desired l where p: "PeersFor (env_ParseKey (dep_files D)) (dep_LookupIP D) doc (Ag_self a) (HB_Peers resp)
      (PersistentKeepalive (Network_WireGuard (Document_Spec doc))) = Inr desired" "Ag_iface a = Some l"
    using assms d(2) by (auto simp: applyDesired_def split: option.splits sum.splits)
  obtain diff e s where a: "ApplyPeers (dep_iter D) l desired (wd_kernel w) = ((diff, e), s)" by (metis prod.exhaust)
  have "wd_kernel w' = s"
  proof (cases e)
    case None
    then have "reconcileFirewall a doc (w\<lparr>wd_kernel := s\<rparr>) = (err, w')" using assms(1) d(2) p a by (simp add: applyDesired_def)
    then show ?thesis using reconcileFirewall_keeps by fastforce
  next
    case (Some e')
    then have "(Some (ApplyFailed e'), w\<lparr>wd_kernel := s\<rparr>) = (err, w')" using assms(1) d(2) p a by (simp add: applyDesired_def)
    then show ?thesis by auto
  qed
  then have "wd_kernel w' = snd (ApplyPeers (dep_iter D) l desired (wd_kernel w))" using a by simp
  then show ?thesis using d(1) p by blast
qed

text \<open>
  C8. The data plane changes only on an answered heartbeat and a loaded document: if a reconciliation
  touches the kernel or iptables, the server answered, the watcher has a document, the peers of this
  node were computed from the two, and the kernel was given exactly these peers. On every other
  path, the refused heartbeat that leads to a new registration among them, both stay as they are.
\<close>

theorem dataplane_changes_need_agreement:
  assumes "reconcileOnce D a w = (err, a', w')" "wd_kernel w' \<noteq> wd_kernel w \<or> wd_ipt w' \<noteq> wd_ipt w"
  shows "\<exists>resp n doc commit desired l.
    dep_Heartbeat D (''Bearer '' @ Ag_authToken a) \<lparr>HB_Endpoint = AC_AdvertisedEndpoint (Ag_cfg a)\<rparr> (wd_net w) = (Inr resp, n) \<and>
    Current (wd_watcher w) = (Some doc, commit, None) \<and> Ag_iface a = Some l \<and>
    PeersFor (env_ParseKey (dep_files D)) (dep_LookupIP D) doc (Ag_self a) (HB_Peers resp)
      (PersistentKeepalive (Network_WireGuard (Document_Spec doc))) = Inr desired \<and>
    wd_kernel w' = snd (ApplyPeers (dep_iter D) l desired (wd_kernel w))"
proof -
  obtain r n where h: "dep_Heartbeat D (''Bearer '' @ Ag_authToken a) \<lparr>HB_Endpoint = AC_AdvertisedEndpoint (Ag_cfg a)\<rparr> (wd_net w) = (r, n)"
    by fastforce
  show ?thesis
  proof (cases r)
    case (Inl e)
    obtain code m where "e = RpcError code m" by (cases e)
    then have "wd_kernel w' = wd_kernel w \<and> wd_ipt w' = wd_ipt w"
      using assms(1) h Inl by (auto simp: reconcileOnce_def Let_def dest: register_keeps split: if_splits prod.splits)
    then show ?thesis using assms(2) by simp
  next
    case (Inr resp)
    then have "applyDesired D a resp (w\<lparr>wd_net := n\<rparr>) = (err, w')"
      using assms(1) h by (auto simp: reconcileOnce_def split: prod.splits)
    from applyDesired_untouched [OF this] show ?thesis using assms(2) h Inr by auto
  qed
qed

lemma applyDesired_firewall:
  assumes "applyDesired D a resp w = (None, w')" "Current (wd_watcher w) = (Some doc, commit, None)" "Ag_firewall a = Some f"
  shows "\<exists>c. Compile (Some doc) = Inr c \<and> Reconcile f c (wd_ipt w) = (None, wd_ipt w')"
proof -
  have d: "current_doc SpecFailed w = Inr (doc, commit)" using assms(2) by (simp add: current_doc_def)
  then obtain s where "reconcileFirewall a doc (w\<lparr>wd_kernel := s\<rparr>) = (None, w')"
    using assms(1) by (auto simp: applyDesired_def split: sum.splits option.splits prod.splits)
  then show ?thesis using assms(3) by (auto simp: reconcileFirewall_def split: sum.splits prod.splits)
qed


section \<open>A hub of the reference network\<close>

definition sample_deps :: "(WgPeer list, unit, string \<rightharpoonup> string list list, string \<rightharpoonup> string, unit) Deps" where
  "sample_deps =
     \<lparr>dep_files = example_key_env\<lparr>env_ParseKey := example_ParseKey\<rparr>, dep_wgctrl = Some mem_kernel, dep_iptables = Some mem_iptables,
      dep_LookupIP = example_LookupIP, dep_iter = (\<lambda>_. []), dep_NewClient = (\<lambda>addr n. (None, n)), dep_ConnClose = (\<lambda>n. n),
      dep_Register = (\<lambda>req n. (if Reg_BootstrapToken req = ''boot'' then Inr \<lparr>Resp_AuthToken = ''tok''\<rparr>
        else Inl (RpcError (GrpcCode Unauthenticated) []), n)),
      dep_Heartbeat = (\<lambda>auth req n. (Inr \<lparr>HB_SpecCommit = [], HB_Peers = example_registry\<rparr>, n)),
      dep_Version = ''dev'', dep_Commit = ''unknown''\<rparr>"

definition sample_config :: "string \<Rightarrow> AgentConfig" where
  "sample_config boot =
     \<lparr>AC_Name = ''hub-eu'', AC_Mode = ModeHub, AC_Spec = True, AC_ControlPlaneAddr = ''cp:8443'', AC_BootstrapToken = boot,
      AC_AdvertisedEndpoint = [], AC_InterfaceName = ''seine0'', AC_StateDir = ''/s'', AC_ReconcileInterval = 1,
      AC_SpecFirstLoadTimeout = 1, AC_RegisterRetryInterval = 1\<rparr>"

definition sample_agent_state :: "string \<Rightarrow> (WgPeer list, unit, string \<rightharpoonup> string list list) AgentState" where
  "sample_agent_state boot =
     \<lparr>Ag_cfg = sample_config boot, Ag_keypair = \<lparr>Private = 1, Public = 2\<rparr>, Ag_authToken = [], Ag_iface = Some mem_iface,
      Ag_self = \<lparr>Self_Name = ''hub-eu'', Self_Role = ROLE_HUB, Self_TunnelIP = Addr4 0x64400001, Self_HubName = []\<rparr>,
      Ag_firewall = Some mem_firewall, Ag_keyPath = ''/s/private.key'', Ag_tokenPath = ''/s/auth.token''\<rparr>"

definition sample_world :: "(WgPeer list, string \<rightharpoonup> string list list, string \<rightharpoonup> string, unit) World" where
  "sample_world = \<lparr>wd_kernel = [], wd_ipt = [''FORWARD'' \<mapsto> []], wd_fs = Map.empty, wd_net = (), wd_watcher = loaded_watcher\<rparr>"

lemma loaded_Current: "Current loaded_watcher = (Some example_doc, ''https://new#main'', None)"
  by (simp add: Current_def loaded_watcher_def)

lemma mem_ApplyPeers: "\<exists>d s. ApplyPeers iter mem_iface desired [] = ((d, None), s)"
  by (simp add: ApplyPeers_def mem_iface_def mem_kernel_def Let_def)

lemma sample_reconciles:
  "\<exists>w'. reconcileOnce sample_deps (sample_agent_state b) sample_world = (None, sample_agent_state b, w') \<and>
     (\<exists>c. Compile (Some example_doc) = Inr c \<and> Reconcile mem_firewall c [''FORWARD'' \<mapsto> []] = (None, wd_ipt w'))"
proof -
  obtain ps where ps: "PeersFor example_ParseKey example_LookupIP example_doc (Ag_self (sample_agent_state b)) example_registry 25000000000 = Inr ps"
    using hub_PeersFor [OF wf_example example_complete, of hub_eu "Ag_self (sample_agent_state b)" 25000000000]
    by (auto simp: sample_agent_state_def example_simps)
  obtain d s where ap: "ApplyPeers (\<lambda>_. []) mem_iface ps [] = ((d, None), s)" using mem_ApplyPeers by blast
  obtain c where c: "Compile (Some example_doc) = Inr c" using Compile_total [OF wf_example] by blast
  obtain i where i: "Reconcile mem_firewall c [''FORWARD'' \<mapsto> []] = (None, i)"
    using Reconcile_up [OF mem_iptables_ok(2)] by (metis prod.collapse)
  have ka: "PersistentKeepalive (Network_WireGuard (Document_Spec example_doc)) = 25000000000" by (simp add: example_doc_def)
  have "reconcileOnce sample_deps (sample_agent_state b) sample_world =
      (None, sample_agent_state b, sample_world\<lparr>wd_kernel := s, wd_ipt := i\<rparr>)"
    using ps ap c i
    by (simp add: reconcileOnce_def sample_deps_def applyDesired_def current_doc_def sample_world_def loaded_Current ka
        sample_agent_state_def reconcileFirewall_def)
  then show ?thesis using c i by auto
qed


theorem dataplane_changes_need_agreement_witness:
  "\<exists>desired. PeersFor example_ParseKey example_LookupIP example_doc (Ag_self (sample_agent_state [])) example_registry 25000000000 = Inr desired"
proof -
  obtain w' c where w': "reconcileOnce sample_deps (sample_agent_state []) sample_world = (None, sample_agent_state [], w')"
      "Reconcile mem_firewall c [''FORWARD'' \<mapsto> []] = (None, wd_ipt w')"
    using sample_reconciles by blast
  then have "wd_ipt w' firewallChain \<noteq> None"
    using Reconcile_view [OF mem_iptables_ok(1), of "[''FORWARD'' \<mapsto> []]" "[]" c None "wd_ipt w'"] by simp
  then have "wd_ipt w' \<noteq> wd_ipt sample_world" by (auto simp: sample_world_def firewallChain_def)
  then show ?thesis
    using dataplane_changes_need_agreement [OF w'(1)]
    by (auto simp: sample_deps_def sample_world_def loaded_Current example_doc_def)
qed

lemma sample_register:
  "register (sample_deps\<lparr>dep_files := example_key_env\<rparr>) (sample_agent_state ''boot'') sample_world =
     (None, (sample_agent_state ''boot'')\<lparr>Ag_authToken := ''tok''\<rparr>, sample_world\<lparr>wd_fs := [''/s/auth.token'' \<mapsto> ''tok'']\<rparr>)"
  by (simp add: register_def sample_deps_def sample_agent_state_def sample_config_def sample_world_def example_key_env_def)

theorem token_survives_restart_witness:
  "loadOrRegister (sample_deps\<lparr>dep_files := example_key_env\<rparr>) [] (sample_agent_state []) (sample_world\<lparr>wd_fs := [''/s/auth.token'' \<mapsto> ''tok'']\<rparr>) =
     Some (None, (sample_agent_state [])\<lparr>Ag_authToken := ''tok''\<rparr>, sample_world\<lparr>wd_fs := [''/s/auth.token'' \<mapsto> ''tok'']\<rparr>)"
proof -
  let ?D = "sample_deps\<lparr>dep_files := example_key_env\<rparr>"
  have "loadOrRegister ?D [] (sample_agent_state ''boot'') sample_world =
      Some (None, (sample_agent_state ''boot'')\<lparr>Ag_authToken := ''tok''\<rparr>, sample_world\<lparr>wd_fs := [''/s/auth.token'' \<mapsto> ''tok'']\<rparr>)"
    using sample_register
    by (simp add: loadOrRegister_def) (simp add: sample_world_def example_key_env_def sample_agent_state_def sample_config_def)
  from token_survives_restart [OF _ this, of "sample_agent_state []" "sample_world\<lparr>wd_fs := [''/s/auth.token'' \<mapsto> ''tok'']\<rparr>" "[]"]
  show ?thesis using example_key_env_ok by (simp add: sample_agent_state_def)
qed

theorem register_retries_transient_witness:
  "\<exists>a' w'. registerWithRetry sample_deps [] (sample_agent_state ''bad'') sample_world =
     Some (Some (RegisterRpc (RpcError (GrpcCode Unauthenticated) [])), a', w') \<and> Unauthenticated \<in> {PermissionDenied, Unauthenticated, InvalidArgument}"
proof -
  have r: "registerWithRetry sample_deps [] (sample_agent_state ''bad'') sample_world =
      Some (Some (RegisterRpc (RpcError (GrpcCode Unauthenticated) [])), sample_agent_state ''bad'', sample_world\<lparr>wd_net := ()\<rparr>)"
    by (simp add: register_def sample_deps_def sample_agent_state_def sample_config_def)
  then show ?thesis using register_retries_transient [OF r] by auto
qed

end
