(* ===== verification/Otel.thy ===== *)
theory Otel
  imports Prelude Go_Time
begin

text \<open>
  Package \<^verbatim>\<open>internal/otel\<close> (\<^verbatim>\<open>otel.go\<close>): the telemetry providers of the two binaries. The SDK and its
  exporters are third-party code and a parameter: a record of the calls the package makes, on a
  state of any type, with handles of any type. A shutdown function is a function on that state.
  \<open>otel_laws\<close> is the hypothesis on the SDK: which providers are running changes only when one is
  made or shut down. The theorem says that no path of \<open>Setup\<close> leaves a provider running that its
  caller cannot shut down, and that the shutdown it returns reaches all three.
\<close>

section \<open>Data\<close>

record OtelConfig =
  Otel_ServiceName :: string
  Otel_ServiceVersion :: string
  Otel_OTLPEndpoint :: string
  Otel_Insecure :: bool

datatype ExporterOption = WithEndpoint string | WithInsecure

datatype OtelError =
    ServiceNameRequired
  | BuildResource string
  | TraceExporter string
  | MetricExporter string
  | LogExporter string
  | ProviderShutdown string
  | Joined "OtelError list"

record ('h, 'o) otelsdk =
  resource_New :: "string \<Rightarrow> string \<Rightarrow> 'o \<Rightarrow> (string + 'h) \<times> 'o"
  otlptrace_New :: "ExporterOption list \<Rightarrow> 'o \<Rightarrow> (string + 'h) \<times> 'o"
  otlpmetric_New :: "ExporterOption list \<Rightarrow> 'o \<Rightarrow> (string + 'h) \<times> 'o"
  otlplog_New :: "ExporterOption list \<Rightarrow> 'o \<Rightarrow> (string + 'h) \<times> 'o"
  sdk_NewTracerProvider :: "'h \<Rightarrow> int \<Rightarrow> 'h \<Rightarrow> 'o \<Rightarrow> 'h \<times> 'o"
  sdk_NewMeterProvider :: "'h \<Rightarrow> int \<Rightarrow> 'h \<Rightarrow> 'o \<Rightarrow> 'h \<times> 'o"
  sdk_NewLoggerProvider :: "'h \<Rightarrow> 'h \<Rightarrow> 'o \<Rightarrow> 'h \<times> 'o"
  otel_SetTracerProvider :: "'h \<Rightarrow> 'o \<Rightarrow> 'o"
  otel_SetMeterProvider :: "'h \<Rightarrow> 'o \<Rightarrow> 'o"
  otel_SetLoggerProvider :: "'h \<Rightarrow> 'o \<Rightarrow> 'o"
  otel_SetTextMapPropagator :: "string list \<Rightarrow> 'o \<Rightarrow> 'o"
  provider_Shutdown :: "'h \<Rightarrow> 'o \<Rightarrow> string option \<times> 'o"

type_synonym 'o ShutdownFunc = "'o \<Rightarrow> OtelError option \<times> 'o"

section \<open>Operations\<close>

definition noopShutdown :: "'o ShutdownFunc" where
  "noopShutdown o' = (None, o')"

text \<open>The method value \<^verbatim>\<open>p.Shutdown\<close> of a provider.\<close>

definition shutdown_of :: "('h, 'o) otelsdk \<Rightarrow> 'h \<Rightarrow> 'o ShutdownFunc" where
  "shutdown_of K p o' = (case provider_Shutdown K p o' of (err, o1) \<Rightarrow> (map_option ProviderShutdown err, o1))"

text \<open>The three exporters take their options from the configuration in the same way.\<close>

definition exporter_options :: "OtelConfig \<Rightarrow> ExporterOption list" where
  "exporter_options cfg =
     (let opts = [WithEndpoint (Otel_OTLPEndpoint cfg)]
      in if Otel_Insecure cfg then opts @ [WithInsecure] else opts)"

definition otlpTraceClient :: "OtelConfig \<Rightarrow> ExporterOption list" where
  "otlpTraceClient cfg = exporter_options cfg"

definition setupTracer ::
    "('h, 'o) otelsdk \<Rightarrow> OtelConfig \<Rightarrow> 'h \<Rightarrow> 'o \<Rightarrow> ('o ShutdownFunc \<times> OtelError option) \<times> 'o" where
  "setupTracer K cfg res o' =
     (case otlptrace_New K (otlpTraceClient cfg) o' of
        (Inl e, o1) \<Rightarrow> ((noopShutdown, Some (TraceExporter e)), o1)
      | (Inr exp, o1) \<Rightarrow>
          (case sdk_NewTracerProvider K exp (2 * int Second) res o1 of
             (tp, o2) \<Rightarrow> ((shutdown_of K tp, None), otel_SetTracerProvider K tp o2)))"

definition setupMeter ::
    "('h, 'o) otelsdk \<Rightarrow> OtelConfig \<Rightarrow> 'h \<Rightarrow> 'o \<Rightarrow> ('o ShutdownFunc \<times> OtelError option) \<times> 'o" where
  "setupMeter K cfg res o' =
     (case otlpmetric_New K (exporter_options cfg) o' of
        (Inl e, o1) \<Rightarrow> ((noopShutdown, Some (MetricExporter e)), o1)
      | (Inr exp, o1) \<Rightarrow>
          (case sdk_NewMeterProvider K exp (15 * int Second) res o1 of
             (mp, o2) \<Rightarrow> ((shutdown_of K mp, None), otel_SetMeterProvider K mp o2)))"

definition setupLogger ::
    "('h, 'o) otelsdk \<Rightarrow> OtelConfig \<Rightarrow> 'h \<Rightarrow> 'o \<Rightarrow> ('o ShutdownFunc \<times> OtelError option) \<times> 'o" where
  "setupLogger K cfg res o' =
     (case otlplog_New K (exporter_options cfg) o' of
        (Inl e, o1) \<Rightarrow> ((noopShutdown, Some (LogExporter e)), o1)
      | (Inr exp, o1) \<Rightarrow>
          (case sdk_NewLoggerProvider K exp res o1 of
             (lp, o2) \<Rightarrow> ((shutdown_of K lp, None), otel_SetLoggerProvider K lp o2)))"

definition errors_Join :: "OtelError option list \<Rightarrow> OtelError option" where
  "errors_Join errs = (let es = map the (filter (\<lambda>e. e \<noteq> None) errs) in if es = [] then None else Some (Joined es))"

text \<open>The closure: the three shutdowns in order, whatever each returns.\<close>

definition shutdown_all :: "'o ShutdownFunc \<Rightarrow> 'o ShutdownFunc \<Rightarrow> 'o ShutdownFunc \<Rightarrow> 'o ShutdownFunc" where
  "shutdown_all traceShutdown meterShutdown logShutdown o' =
     (case traceShutdown o' of
        (e1, o1) \<Rightarrow>
          (case meterShutdown o1 of
             (e2, o2) \<Rightarrow>
               (case logShutdown o2 of (e3, o3) \<Rightarrow> (errors_Join [e1, e2, e3], o3))))"

definition Otel_Setup ::
    "('h, 'o) otelsdk \<Rightarrow> OtelConfig \<Rightarrow> 'o \<Rightarrow> ('o ShutdownFunc \<times> OtelError option) \<times> 'o" where
  "Otel_Setup K cfg o' =
     (if Otel_ServiceName cfg = [] then ((noopShutdown, Some ServiceNameRequired), o')
      else if Otel_OTLPEndpoint cfg = [] then ((noopShutdown, None), o')
      else
        case resource_New K (Otel_ServiceName cfg) (Otel_ServiceVersion cfg) o' of
          (Inl e, o1) \<Rightarrow> ((noopShutdown, Some (BuildResource e)), o1)
        | (Inr res, o1) \<Rightarrow>
            (case setupTracer K cfg res o1 of
               ((_, Some e), o2) \<Rightarrow> ((noopShutdown, Some e), o2)
             | ((traceShutdown, None), o2) \<Rightarrow>
                 (case setupMeter K cfg res o2 of
                    ((_, Some e), o3) \<Rightarrow> ((noopShutdown, Some e), snd (traceShutdown o3))
                  | ((meterShutdown, None), o3) \<Rightarrow>
                      (case setupLogger K cfg res o3 of
                         ((_, Some e), o4) \<Rightarrow> ((noopShutdown, Some e), snd (meterShutdown (snd (traceShutdown o4))))
                       | ((logShutdown, None), o4) \<Rightarrow>
                           ((shutdown_all traceShutdown meterShutdown logShutdown, None),
                            otel_SetTextMapPropagator K [''tracecontext'', ''baggage''] o4)))))"

section \<open>No provider is left running\<close>

text \<open>\<open>live\<close> is the set of the providers that are running.\<close>

definition otel_laws :: "('h, 'o) otelsdk \<Rightarrow> ('o \<Rightarrow> 'h set) \<Rightarrow> bool" where
  "otel_laws K live \<longleftrightarrow>
     (\<forall>n v o' r o1. resource_New K n v o' = (r, o1) \<longrightarrow> live o1 = live o') \<and>
     (\<forall>opts o' r o1. otlptrace_New K opts o' = (r, o1) \<or> otlpmetric_New K opts o' = (r, o1) \<or> otlplog_New K opts o' = (r, o1) \<longrightarrow>
        live o1 = live o') \<and>
     (\<forall>exp d res o' p o1. sdk_NewTracerProvider K exp d res o' = (p, o1) \<or> sdk_NewMeterProvider K exp d res o' = (p, o1) \<or>
        sdk_NewLoggerProvider K exp res o' = (p, o1) \<longrightarrow> p \<notin> live o' \<and> live o1 = insert p (live o')) \<and>
     (\<forall>p o'. live (otel_SetTracerProvider K p o') = live o' \<and> live (otel_SetMeterProvider K p o') = live o' \<and>
        live (otel_SetLoggerProvider K p o') = live o') \<and>
     (\<forall>ps o'. live (otel_SetTextMapPropagator K ps o') = live o') \<and>
     (\<forall>p o' err o1. provider_Shutdown K p o' = (err, o1) \<longrightarrow> live o1 = live o' - {p})"

text \<open>
  The contract of the three setup functions: on failure nothing new runs, on success one new
  provider does, and the function returned stops it.
\<close>

definition starts_one :: "('o \<Rightarrow> 'h set) \<Rightarrow> 'o \<Rightarrow> ('o ShutdownFunc \<times> OtelError option) \<times> 'o \<Rightarrow> bool" where
  "starts_one live o' r \<longleftrightarrow>
     (case r of
        ((_, Some _), o1) \<Rightarrow> live o1 = live o'
      | ((sd, None), o1) \<Rightarrow> \<exists>p. p \<notin> live o' \<and> live o1 = insert p (live o') \<and> (\<forall>x. live (snd (sd x)) = live x - {p}))"

lemma shutdown_of_live: "otel_laws K live \<Longrightarrow> live (snd (shutdown_of K p x)) = live x - {p}"
  unfolding otel_laws_def shutdown_of_def by (metis (no_types, lifting) case_prod_conv prod.collapse snd_conv)

lemma setup_starts_one:
  assumes L: "otel_laws K live"
  shows "starts_one live o' (setupTracer K cfg res o')" "starts_one live o' (setupMeter K cfg res o')"
    "starts_one live o' (setupLogger K cfg res o')"
  using L shutdown_of_live [OF L]
  unfolding starts_one_def setupTracer_def setupMeter_def setupLogger_def
  by (auto simp: otel_laws_def split: prod.splits sum.splits) (metis (no_types))+

lemma starts_one_cases:
  assumes "starts_one live o' r"
  obtains (failed) sd e o1 where "r = ((sd, Some e), o1)" "live o1 = live o'"
  | (started) sd o1 p where "r = ((sd, None), o1)" "p \<notin> live o'" "live o1 = insert p (live o')" "\<And>x. live (snd (sd x)) = live x - {p}"
proof -
  obtain sd err o1 where r: "r = ((sd, err), o1)" by (metis prod.collapse)
  show thesis
  proof (cases err)
    case None
    then show thesis using assms started r by (auto simp: starts_one_def)
  next
    case (Some e)
    then show thesis using assms failed r by (auto simp: starts_one_def)
  qed
qed

lemma shutdown_all_live:
  assumes "\<And>x. live (snd (f x)) = live x - {p}" "\<And>x. live (snd (g x)) = live x - {q}" "\<And>x. live (snd (h x)) = live x - {r}"
  shows "live (snd (shutdown_all f g h x)) = live x - {p, q, r}"
proof -
  obtain e1 o1 where 1: "f x = (e1, o1)" by fastforce
  obtain e2 o2 where 2: "g o1 = (e2, o2)" by fastforce
  obtain e3 o3 where 3: "h o2 = (e3, o3)" by fastforce
  have "live o3 = live o2 - {r}" "live o2 = live o1 - {q}" "live o1 = live x - {p}"
    using assms(1) [of x] assms(2) [of o1] assms(3) [of o2] by (simp_all add: 1 2 3)
  then show ?thesis by (auto simp: shutdown_all_def 1 2 3)
qed

lemma Otel_Setup_live:
  assumes L: "otel_laws K live" and "Otel_Setup K cfg o' = ((sd, err), o1)"
  shows "(err \<noteq> None \<longrightarrow> live o1 = live o') \<and> (\<exists>P. live o1 = live o' \<union> P \<and> live o' \<inter> P = {} \<and> (\<forall>x. live (snd (sd x)) = live x - P))"
proof (cases "Otel_ServiceName cfg = [] \<or> Otel_OTLPEndpoint cfg = []")
  case True
  then show ?thesis using assms(2) by (auto simp: Otel_Setup_def noopShutdown_def split: if_splits intro: exI [of _ "{}"])
next
  case False
  obtain rres oa where res: "resource_New K (Otel_ServiceName cfg) (Otel_ServiceVersion cfg) o' = (rres, oa)" by fastforce
  then have live_a: "live oa = live o'" using L unfolding otel_laws_def by metis
  have none: ?thesis if "sd = noopShutdown" "live o1 = live o'"
    using that by (auto simp: noopShutdown_def intro: exI [of _ "{}"])
  note run = assms(2) [unfolded Otel_Setup_def]
  show ?thesis
  proof (cases rres)
    case (Inl e)
    then show ?thesis using run res False live_a by (intro none) auto
  next
    case (Inr r)
    from setup_starts_one(1) [OF L, of oa cfg r] show ?thesis
    proof (cases rule: starts_one_cases)
      case (failed sd1 e ob)
      then show ?thesis using run res False Inr live_a by (intro none) auto
    next
      case (started sd1 ob p)
      note t = this
      from setup_starts_one(2) [OF L, of ob cfg r] show ?thesis
      proof (cases rule: starts_one_cases)
        case (failed sd2 e oc)
        then have "sd = noopShutdown" "o1 = snd (sd1 oc)" using run res False Inr t(1) by auto
        then show ?thesis using failed(2) t(2,3) live_a by (intro none) (simp_all add: t(4))
      next
        case (started sd2 oc q)
        note m = this
        from setup_starts_one(3) [OF L, of oc cfg r] show ?thesis
        proof (cases rule: starts_one_cases)
          case (failed sd3 e od)
          then have "sd = noopShutdown" "o1 = snd (sd2 (snd (sd1 od)))" using run res False Inr t(1) m(1) by auto
          moreover have "insert q (insert p (live oa)) - {p} - {q} = live oa" using t(2,3) m(2) by auto
          ultimately show ?thesis using failed(2) t(3) m(3) live_a by (intro none) (simp_all add: t(4) m(4))
        next
          case (started sd3 od s)
          have kept: "live (otel_SetTextMapPropagator K ps od) = live od" for ps using L unfolding otel_laws_def by metis
          have eqs: "sd = shutdown_all sd1 sd2 sd3" "err = None" "o1 = otel_SetTextMapPropagator K [''tracecontext'', ''baggage''] od"
            using run res False Inr t(1) m(1) started(1) by auto
          have live_eq: "live o1 = live od" using kept eqs(3) by simp
          have sets: "live o1 = live o' \<union> {p, q, s}" "live o' \<inter> {p, q, s} = {}"
            using t(2,3) m(2,3) started(2,3) live_a unfolding live_eq by auto
          show ?thesis
            unfolding eqs(1,2)
            by (intro conjI exI [of _ "{p, q, s}"] allI sets shutdown_all_live t(4) m(4) started(4)) simp
        qed
      qed
    qed
  qed
qed

text \<open>
  C40. Telemetry never leaks. When \<open>Setup\<close> fails, the providers it had started are shut down again,
  and the function it returns does nothing to those that run; when it succeeds, the function it
  returns shuts down exactly the providers that were started, also when some of them report errors.
\<close>

theorem Setup_no_leak:
  assumes "otel_laws K live" "Otel_Setup K cfg o' = ((sd, err), o1)"
  shows "(err \<noteq> None \<longrightarrow> live o1 = live o') \<and> live (snd (sd o1)) = live o'"
  using Otel_Setup_live [OF assms] by auto

section \<open>An SDK that counts\<close>

text \<open>The state is the number of handles made and the providers that run; the log exporter fails on demand.\<close>

definition mem_new :: "nat \<times> nat list \<Rightarrow> nat \<times> (nat \<times> nat list)" where
  "mem_new = (\<lambda>(n, ps). (n, (Suc n, n # ps)))"

definition mem_sdk :: "bool \<Rightarrow> (nat, nat \<times> nat list) otelsdk" where
  "mem_sdk logs_ok =
     \<lparr>resource_New = (\<lambda>n v o'. (Inr 0, o')),
      otlptrace_New = (\<lambda>opts o'. (Inr 0, o')),
      otlpmetric_New = (\<lambda>opts o'. (Inr 0, o')),
      otlplog_New = (\<lambda>opts o'. (if logs_ok then Inr 0 else Inl ''no collector'', o')),
      sdk_NewTracerProvider = (\<lambda>e d r o'. mem_new o'),
      sdk_NewMeterProvider = (\<lambda>e d r o'. mem_new o'),
      sdk_NewLoggerProvider = (\<lambda>e r o'. mem_new o'),
      otel_SetTracerProvider = (\<lambda>p o'. o'), otel_SetMeterProvider = (\<lambda>p o'. o'), otel_SetLoggerProvider = (\<lambda>p o'. o'),
      otel_SetTextMapPropagator = (\<lambda>ps o'. o'),
      provider_Shutdown = (\<lambda>p o'. (None, apsnd (removeAll p) o'))\<rparr>"

text \<open>Handles at or above the counter have not been given out; they count as not running.\<close>

definition mem_live :: "nat \<times> nat list \<Rightarrow> nat set" where
  "mem_live o' = {p \<in> set (snd o'). p < fst o'}"

lemma mem_sdk_laws: "otel_laws (mem_sdk b) mem_live"
  by (auto simp: otel_laws_def mem_sdk_def mem_live_def mem_new_def split: prod.splits)

theorem Setup_no_leak_witness:
  "mem_live (snd (Otel_Setup (mem_sdk False) \<lparr>Otel_ServiceName = ''s'', Otel_ServiceVersion = ''dev'', Otel_OTLPEndpoint = ''c:4317'', Otel_Insecure = True\<rparr> (0, []))) = {}"
  using Setup_no_leak [OF mem_sdk_laws [of False],
      where cfg = "\<lparr>Otel_ServiceName = ''s'', Otel_ServiceVersion = ''dev'', Otel_OTLPEndpoint = ''c:4317'', Otel_Insecure = True\<rparr>"
        and o' = "(0, [])" and sd = noopShutdown and err = "Some (LogExporter ''no collector'')" and ?o1.0 = "(2, [])"]
  by (simp add: Otel_Setup_def setupTracer_def setupMeter_def setupLogger_def mem_sdk_def mem_new_def shutdown_of_def mem_live_def
      otlpTraceClient_def exporter_options_def)

end
