(* ===== verification/Cmd.thy ===== *)
theory Cmd
  imports Go_Flag Agentcore Otel
begin

text \<open>
  The two commands, \<^verbatim>\<open>cmd/seine-server\<close> and \<^verbatim>\<open>cmd/seine-agent\<close>: their options with the defaults from
  the environment, the checks before anything is touched, the order in which the parts are built,
  and the deferred calls, each of which surrounds the phase it is deferred in. The goroutine of the
  watcher is not a step of its own: what it did appears as the state of the watcher at each request
  of the server and in the events of the agent, and as a change of the Git state. Serving is a value
  that says which requests were served until the gRPC server returned; without one it still runs.
  Log lines are left out, the default logger is part of the state.
\<close>

section \<open>Shared by the commands\<close>

definition envOr :: "(string \<rightharpoonup> string) \<Rightarrow> string \<Rightarrow> string \<Rightarrow> string" where
  "envOr env key fallback = (case env key of Some v \<Rightarrow> v | None \<Rightarrow> fallback)"

definition durationEnv :: "(string \<rightharpoonup> string) \<Rightarrow> string \<Rightarrow> int \<Rightarrow> int" where
  "durationEnv env key fallback =
     (case env key of
        None \<Rightarrow> fallback
      | Some v \<Rightarrow> (case ParseDuration v of Some d \<Rightarrow> d | None \<Rightarrow> fallback))"

text \<open>The token is chosen first, then the key file.\<close>

definition buildGitAuth :: "string \<Rightarrow> string \<Rightarrow> string \<Rightarrow> Auth" where
  "buildGitAuth gitToken gitUsername gitSSHKey =
     (if gitToken \<noteq> [] then TokenAuth gitUsername gitToken
      else if gitSSHKey \<noteq> [] then SSHKeyAuth ''git'' gitSSHKey []
      else NoAuth)"

datatype CmdError =
    LogFlag LogError
  | BootstrapTokenMissing
  | GitURLMissing
  | NameMissing
  | ControlPlaneMissing
  | BadMode string
  | AdvertiseEndpointMissing
  | OtelSetupFailed OtelError
  | OpenStore StoreError
  | SpecsourceFailed GitError
  | ControlplaneFailed string
  | ListenFailed string
  | GrpcServe string
  | AgentFailed AgentError

section \<open>Command seine-server\<close>

record ServerOptions =
  so_showVersion :: bool
  so_logLevel :: string
  so_logFormat :: string
  so_listenAddr :: string
  so_dbPath :: string
  so_bootstrapToken :: string
  so_gitURL :: string
  so_gitBranch :: string
  so_gitPath :: string
  so_gitWorkdir :: string
  so_gitInterval :: int
  so_gitToken :: string
  so_gitUsername :: string
  so_gitSSHKey :: string
  so_otlpEndpoint :: string
  so_otlpInsecure :: bool

definition server_defaults :: "(string \<rightharpoonup> string) \<Rightarrow> ServerOptions" where
  "server_defaults env =
     \<lparr>so_showVersion = False,
      so_logLevel = envOr env ''SEINE_LOG_LEVEL'' ''info'',
      so_logFormat = envOr env ''SEINE_LOG_FORMAT'' ''text'',
      so_listenAddr = envOr env ''SEINE_LISTEN'' '':8443'',
      so_dbPath = envOr env ''SEINE_DB'' ''seine.db'',
      so_bootstrapToken = Getenv env ''SEINE_BOOTSTRAP_TOKEN'',
      so_gitURL = Getenv env ''SEINE_GIT_URL'',
      so_gitBranch = envOr env ''SEINE_GIT_BRANCH'' ''main'',
      so_gitPath = envOr env ''SEINE_GIT_PATH'' ''network.yaml'',
      so_gitWorkdir = envOr env ''SEINE_GIT_WORKDIR'' [],
      so_gitInterval = durationEnv env ''SEINE_GIT_INTERVAL'' (30 * int Second),
      so_gitToken = Getenv env ''SEINE_GIT_TOKEN'',
      so_gitUsername = envOr env ''SEINE_GIT_USERNAME'' ''git'',
      so_gitSSHKey = Getenv env ''SEINE_GIT_SSH_KEY'',
      so_otlpEndpoint = Getenv env ''SEINE_OTLP_ENDPOINT'',
      so_otlpInsecure = (envOr env ''SEINE_OTLP_INSECURE'' ''true'' = ''true'')\<rparr>"

definition server_flags :: "(string \<times> ServerOptions FlagValue) list" where
  "server_flags =
     [(''version'', BoolVar (\<lambda>v o'. o'\<lparr>so_showVersion := v\<rparr>)),
      (''log-level'', StringVar (\<lambda>v o'. o'\<lparr>so_logLevel := v\<rparr>)),
      (''log-format'', StringVar (\<lambda>v o'. o'\<lparr>so_logFormat := v\<rparr>)),
      (''listen'', StringVar (\<lambda>v o'. o'\<lparr>so_listenAddr := v\<rparr>)),
      (''db'', StringVar (\<lambda>v o'. o'\<lparr>so_dbPath := v\<rparr>)),
      (''bootstrap-token'', StringVar (\<lambda>v o'. o'\<lparr>so_bootstrapToken := v\<rparr>)),
      (''git-url'', StringVar (\<lambda>v o'. o'\<lparr>so_gitURL := v\<rparr>)),
      (''git-branch'', StringVar (\<lambda>v o'. o'\<lparr>so_gitBranch := v\<rparr>)),
      (''git-path'', StringVar (\<lambda>v o'. o'\<lparr>so_gitPath := v\<rparr>)),
      (''git-workdir'', StringVar (\<lambda>v o'. o'\<lparr>so_gitWorkdir := v\<rparr>)),
      (''git-interval'', DurationVar (\<lambda>v o'. o'\<lparr>so_gitInterval := v\<rparr>)),
      (''git-token'', StringVar (\<lambda>v o'. o'\<lparr>so_gitToken := v\<rparr>)),
      (''git-username'', StringVar (\<lambda>v o'. o'\<lparr>so_gitUsername := v\<rparr>)),
      (''git-ssh-key'', StringVar (\<lambda>v o'. o'\<lparr>so_gitSSHKey := v\<rparr>)),
      (''otlp-endpoint'', StringVar (\<lambda>v o'. o'\<lparr>so_otlpEndpoint := v\<rparr>)),
      (''otlp-insecure'', BoolVar (\<lambda>v o'. o'\<lparr>so_otlpInsecure := v\<rparr>))]"

definition server_parseFlags :: "(string \<rightharpoonup> string) \<Rightarrow> string list \<Rightarrow> nat + ServerOptions" where
  "server_parseFlags env args = flag_Parse server_flags args (server_defaults env)"

record ('o, 'db, 'g, 'n) ServerWorld =
  sw_logger :: "Handler option"
  sw_otel :: 'o
  sw_db :: 'db
  sw_git :: 'g
  sw_net :: 'n

record ('h, 'o, 'db, 'g, 'n) ServerDeps =
  sd_otel :: "('h, 'o) otelsdk"
  sd_sql :: "'db sqldb"
  sd_git :: "'g gitlib"
  sd_Listen :: "string \<Rightarrow> 'n \<Rightarrow> string option \<times> 'n"
  sd_render :: "WatchError \<Rightarrow> string"
  sd_Version :: string
  sd_Commit :: string

record ('g, 'n) Serving =
  sv_calls :: "Watcher Call list"
  sv_git :: "'g \<Rightarrow> 'g"
  sv_net :: "'n \<Rightarrow> 'n"
  sv_err :: "string option"

text \<open>What a run returns: the error, the lines printed and the replies given.\<close>

type_synonym result = "CmdError option \<times> string list \<times> (RPCStatus + Reply) list"

definition failed :: "CmdError \<Rightarrow> result" where "failed e = (Some e, [], [])"

definition serverServe ::
    "('h, 'o, 'db, 'g, 'n) ServerDeps \<Rightarrow> ('g, 'n) Serving option \<Rightarrow> ServerOptions \<Rightarrow> ('o, 'db, 'g, 'n) ServerWorld \<Rightarrow>
     (result \<times> ('o, 'db, 'g, 'n) ServerWorld) option" where
  "serverServe D ev opts w =
     (case NewServer \<lparr>Config_Store = Some (sd_sql D), Config_Spec = Some (provide (sd_render D)),
                      Config_BootstrapToken = so_bootstrapToken opts\<rparr> of
        Inl e \<Rightarrow> Some (failed (ControlplaneFailed e), w)
      | Inr cps \<Rightarrow>
          (case sd_Listen D (so_listenAddr opts) (sw_net w) of
             (Some e, n) \<Rightarrow> Some (failed (ListenFailed e), w\<lparr>sw_net := n\<rparr>)
           | (None, n) \<Rightarrow>
               (case ev of
                  None \<Rightarrow> None
                | Some sv \<Rightarrow>
                    (case serve_all cps (sv_calls sv) (sw_db w) of
                       (rs, db) \<Rightarrow>
                         Some ((map_option GrpcServe (sv_err sv), [], rs),
                               w\<lparr>sw_db := db, sw_git := sv_git sv (sw_git w), sw_net := sv_net sv n\<rparr>)))))"

definition serverWatcher ::
    "('h, 'o, 'db, 'g, 'n) ServerDeps \<Rightarrow> ('g, 'n) Serving option \<Rightarrow> ServerOptions \<Rightarrow> ('o, 'db, 'g, 'n) ServerWorld \<Rightarrow>
     (result \<times> ('o, 'db, 'g, 'n) ServerWorld) option" where
  "serverWatcher D ev opts w =
     (let auth = buildGitAuth (so_gitToken opts) (so_gitUsername opts) (so_gitSSHKey opts) in
      case Watcher_New (sd_git D)
             \<lparr>WC_Source = \<lparr>Git_URL = so_gitURL opts, Git_Branch = so_gitBranch opts, Git_Path = so_gitPath opts,
                           Git_Workdir = so_gitWorkdir opts, Git_Auth = Some auth\<rparr>,
              WC_Interval = so_gitInterval opts, WC_MinBackoff = 0, WC_MaxBackoff = 0\<rparr> (sw_git w) of
        (Inl e, g) \<Rightarrow> Some (failed (SpecsourceFailed e), w\<lparr>sw_git := g\<rparr>)
      | (Inr watcher, g) \<Rightarrow>
          map_option (\<lambda>(r, w'). (r, w'\<lparr>sw_git := snd (snd (Watcher_Close (sd_git D) watcher (sw_git w')))\<rparr>))
            (serverServe D ev opts (w\<lparr>sw_git := g\<rparr>)))"

definition serverStore ::
    "('h, 'o, 'db, 'g, 'n) ServerDeps \<Rightarrow> ('g, 'n) Serving option \<Rightarrow> ServerOptions \<Rightarrow> ('o, 'db, 'g, 'n) ServerWorld \<Rightarrow>
     (result \<times> ('o, 'db, 'g, 'n) ServerWorld) option" where
  "serverStore D ev opts w =
     (case Open (sd_sql D) (so_dbPath opts) (sw_db w) of
        (Some e, db) \<Rightarrow> Some (failed (OpenStore e), w\<lparr>sw_db := db\<rparr>)
      | (None, db) \<Rightarrow>
          map_option (\<lambda>(r, w'). (r, w'\<lparr>sw_db := snd (Close (sd_sql D) (sw_db w'))\<rparr>))
            (serverWatcher D ev opts (w\<lparr>sw_db := db\<rparr>)))"

definition serverOtel ::
    "('h, 'o, 'db, 'g, 'n) ServerDeps \<Rightarrow> ('g, 'n) Serving option \<Rightarrow> ServerOptions \<Rightarrow> ('o, 'db, 'g, 'n) ServerWorld \<Rightarrow>
     (result \<times> ('o, 'db, 'g, 'n) ServerWorld) option" where
  "serverOtel D ev opts w =
     (case Otel_Setup (sd_otel D)
             \<lparr>Otel_ServiceName = ''seine-server'', Otel_ServiceVersion = sd_Version D,
              Otel_OTLPEndpoint = so_otlpEndpoint opts, Otel_Insecure = so_otlpInsecure opts\<rparr> (sw_otel w) of
        ((_, Some e), o1) \<Rightarrow> Some (failed (OtelSetupFailed e), w\<lparr>sw_otel := o1\<rparr>)
      | ((otelShutdown, None), o1) \<Rightarrow>
          map_option (\<lambda>(r, w'). (r, w'\<lparr>sw_otel := snd (otelShutdown (sw_otel w'))\<rparr>))
            (serverStore D ev opts (w\<lparr>sw_otel := o1\<rparr>)))"

definition server_run ::
    "('h, 'o, 'db, 'g, 'n) ServerDeps \<Rightarrow> ('g, 'n) Serving option \<Rightarrow> ServerOptions \<Rightarrow> ('o, 'db, 'g, 'n) ServerWorld \<Rightarrow>
     (result \<times> ('o, 'db, 'g, 'n) ServerWorld) option" where
  "server_run D ev opts w =
     (if so_showVersion opts then Some ((None, [''seine-server '' @ Short (sd_Version D) (sd_Commit D)], []), w)
      else case ParseLevel (so_logLevel opts) of
        Inl e \<Rightarrow> Some (failed (LogFlag e), w)
      | Inr level \<Rightarrow>
          (case ParseFormat (so_logFormat opts) of
             Inl e \<Rightarrow> Some (failed (LogFlag e), w)
           | Inr format \<Rightarrow>
               (let w = w\<lparr>sw_logger := Some (Logging_Setup \<lparr>Opt_Level = level, Opt_Format = format, Opt_Output = None\<rparr>)\<rparr> in
                if so_bootstrapToken opts = [] then Some (failed BootstrapTokenMissing, w)
                else if so_gitURL opts = [] then Some (failed GitURLMissing, w)
                else serverOtel D ev opts w)))"

text \<open>The exit status of the process, with what the run returned.\<close>

definition server_main ::
    "('h, 'o, 'db, 'g, 'n) ServerDeps \<Rightarrow> ('g, 'n) Serving option \<Rightarrow> (string \<rightharpoonup> string) \<Rightarrow> string list \<Rightarrow>
     ('o, 'db, 'g, 'n) ServerWorld \<Rightarrow> (nat \<times> result option \<times> ('o, 'db, 'g, 'n) ServerWorld) option" where
  "server_main D ev env args w =
     (case server_parseFlags env args of
        Inl code \<Rightarrow> Some (code, None, w)
      | Inr opts \<Rightarrow>
          map_option (\<lambda>(r, w'). (if fst r = None then 0 else 1, Some r, w')) (server_run D ev opts w))"

section \<open>Command seine-agent\<close>

record AgentOptions =
  ao_showVersion :: bool
  ao_logLevel :: string
  ao_logFormat :: string
  ao_name :: string
  ao_mode :: string
  ao_controlPlaneAddr :: string
  ao_bootstrapToken :: string
  ao_advertisedEndpoint :: string
  ao_interfaceName :: string
  ao_stateDir :: string
  ao_reconcileInterval :: int
  ao_gitURL :: string
  ao_gitBranch :: string
  ao_gitPath :: string
  ao_gitWorkdir :: string
  ao_gitInterval :: int
  ao_gitToken :: string
  ao_gitUsername :: string
  ao_gitSSHKey :: string
  ao_otlpEndpoint :: string
  ao_otlpInsecure :: bool

definition agent_defaults :: "(string \<rightharpoonup> string) \<Rightarrow> AgentOptions" where
  "agent_defaults env =
     \<lparr>ao_showVersion = False,
      ao_logLevel = envOr env ''SEINE_LOG_LEVEL'' ''info'',
      ao_logFormat = envOr env ''SEINE_LOG_FORMAT'' ''text'',
      ao_name = Getenv env ''SEINE_AGENT_NAME'',
      ao_mode = envOr env ''SEINE_MODE'' ''spoke'',
      ao_controlPlaneAddr = Getenv env ''SEINE_CONTROL_PLANE'',
      ao_bootstrapToken = Getenv env ''SEINE_BOOTSTRAP_TOKEN'',
      ao_advertisedEndpoint = Getenv env ''SEINE_ADVERTISE_ENDPOINT'',
      ao_interfaceName = envOr env ''SEINE_INTERFACE'' ''seine0'',
      ao_stateDir = Getenv env ''SEINE_STATE_DIR'',
      ao_reconcileInterval = durationEnv env ''SEINE_RECONCILE_INTERVAL'' (30 * int Second),
      ao_gitURL = Getenv env ''SEINE_GIT_URL'',
      ao_gitBranch = envOr env ''SEINE_GIT_BRANCH'' ''main'',
      ao_gitPath = envOr env ''SEINE_GIT_PATH'' ''network.yaml'',
      ao_gitWorkdir = Getenv env ''SEINE_GIT_WORKDIR'',
      ao_gitInterval = durationEnv env ''SEINE_GIT_INTERVAL'' (30 * int Second),
      ao_gitToken = Getenv env ''SEINE_GIT_TOKEN'',
      ao_gitUsername = envOr env ''SEINE_GIT_USERNAME'' ''git'',
      ao_gitSSHKey = Getenv env ''SEINE_GIT_SSH_KEY'',
      ao_otlpEndpoint = Getenv env ''SEINE_OTLP_ENDPOINT'',
      ao_otlpInsecure = (envOr env ''SEINE_OTLP_INSECURE'' ''true'' = ''true'')\<rparr>"

definition agent_flags :: "(string \<times> AgentOptions FlagValue) list" where
  "agent_flags =
     [(''version'', BoolVar (\<lambda>v o'. o'\<lparr>ao_showVersion := v\<rparr>)),
      (''log-level'', StringVar (\<lambda>v o'. o'\<lparr>ao_logLevel := v\<rparr>)),
      (''log-format'', StringVar (\<lambda>v o'. o'\<lparr>ao_logFormat := v\<rparr>)),
      (''name'', StringVar (\<lambda>v o'. o'\<lparr>ao_name := v\<rparr>)),
      (''mode'', StringVar (\<lambda>v o'. o'\<lparr>ao_mode := v\<rparr>)),
      (''control-plane'', StringVar (\<lambda>v o'. o'\<lparr>ao_controlPlaneAddr := v\<rparr>)),
      (''bootstrap-token'', StringVar (\<lambda>v o'. o'\<lparr>ao_bootstrapToken := v\<rparr>)),
      (''advertise-endpoint'', StringVar (\<lambda>v o'. o'\<lparr>ao_advertisedEndpoint := v\<rparr>)),
      (''interface'', StringVar (\<lambda>v o'. o'\<lparr>ao_interfaceName := v\<rparr>)),
      (''state-dir'', StringVar (\<lambda>v o'. o'\<lparr>ao_stateDir := v\<rparr>)),
      (''reconcile-interval'', DurationVar (\<lambda>v o'. o'\<lparr>ao_reconcileInterval := v\<rparr>)),
      (''git-url'', StringVar (\<lambda>v o'. o'\<lparr>ao_gitURL := v\<rparr>)),
      (''git-branch'', StringVar (\<lambda>v o'. o'\<lparr>ao_gitBranch := v\<rparr>)),
      (''git-path'', StringVar (\<lambda>v o'. o'\<lparr>ao_gitPath := v\<rparr>)),
      (''git-workdir'', StringVar (\<lambda>v o'. o'\<lparr>ao_gitWorkdir := v\<rparr>)),
      (''git-interval'', DurationVar (\<lambda>v o'. o'\<lparr>ao_gitInterval := v\<rparr>)),
      (''git-token'', StringVar (\<lambda>v o'. o'\<lparr>ao_gitToken := v\<rparr>)),
      (''git-username'', StringVar (\<lambda>v o'. o'\<lparr>ao_gitUsername := v\<rparr>)),
      (''git-ssh-key'', StringVar (\<lambda>v o'. o'\<lparr>ao_gitSSHKey := v\<rparr>)),
      (''otlp-endpoint'', StringVar (\<lambda>v o'. o'\<lparr>ao_otlpEndpoint := v\<rparr>)),
      (''otlp-insecure'', BoolVar (\<lambda>v o'. o'\<lparr>ao_otlpInsecure := v\<rparr>))]"

definition agent_parseFlags :: "(string \<rightharpoonup> string) \<Rightarrow> string list \<Rightarrow> nat + AgentOptions" where
  "agent_parseFlags env args = flag_Parse agent_flags args (agent_defaults env)"

record ('o, 'g, 's, 'i, 'f, 'n) AgentProcess =
  ap_logger :: "Handler option"
  ap_otel :: 'o
  ap_git :: 'g
  ap_world :: "('s, 'i, 'f, 'n) World"

record ('h, 'o, 'g, 's, 'a, 'i, 'f, 'n) AgentDeps =
  ad_otel :: "('h, 'o) otelsdk"
  ad_git :: "'g gitlib"
  ad_core :: "('s, 'a, 'i, 'f, 'n) Deps"
  ad_counter :: "string option"
  ad_histogram :: "string option"

record ('g, 's, 'i, 'f, 'n) AgentEvents =
  ae_run :: "('s, 'i, 'f, 'n) Events"
  ae_git :: "'g \<Rightarrow> 'g"

definition agentCore ::
    "('h, 'o, 'g, 's, 'a, 'i, 'f, 'n) AgentDeps \<Rightarrow> ('g, 's, 'i, 'f, 'n) AgentEvents \<Rightarrow> AgentConfig \<Rightarrow> Watcher \<Rightarrow>
     ('o, 'g, 's, 'i, 'f, 'n) AgentProcess \<Rightarrow> (result \<times> ('o, 'g, 's, 'i, 'f, 'n) AgentProcess) option" where
  "agentCore D ev cfg watcher p =
     (case Agent_New (ad_counter D) (ad_histogram D) cfg of
        Inl e \<Rightarrow> Some (failed (AgentFailed e), p)
      | Inr a \<Rightarrow>
          (case Agent_Run (ad_core D) (ae_run ev) a ((ap_world p)\<lparr>wd_watcher := watcher\<rparr>) of
             None \<Rightarrow> None
           | Some (err, _, w') \<Rightarrow>
               Some ((map_option AgentFailed err, [], []), p\<lparr>ap_world := w', ap_git := ae_git ev (ap_git p)\<rparr>)))"

definition agentWatcher ::
    "('h, 'o, 'g, 's, 'a, 'i, 'f, 'n) AgentDeps \<Rightarrow> ('g, 's, 'i, 'f, 'n) AgentEvents \<Rightarrow> AgentOptions \<Rightarrow> string \<Rightarrow>
     ('o, 'g, 's, 'i, 'f, 'n) AgentProcess \<Rightarrow> (result \<times> ('o, 'g, 's, 'i, 'f, 'n) AgentProcess) option" where
  "agentWatcher D ev opts stateDir p =
     (let auth = buildGitAuth (ao_gitToken opts) (ao_gitUsername opts) (ao_gitSSHKey opts) in
      case Watcher_New (ad_git D)
             \<lparr>WC_Source = \<lparr>Git_URL = ao_gitURL opts, Git_Branch = ao_gitBranch opts, Git_Path = ao_gitPath opts,
                           Git_Workdir = ao_gitWorkdir opts, Git_Auth = Some auth\<rparr>,
              WC_Interval = ao_gitInterval opts, WC_MinBackoff = 0, WC_MaxBackoff = 0\<rparr> (ap_git p) of
        (Inl e, g) \<Rightarrow> Some (failed (SpecsourceFailed e), p\<lparr>ap_git := g\<rparr>)
      | (Inr watcher, g) \<Rightarrow>
          map_option (\<lambda>(r, p'). (r, p'\<lparr>ap_git := snd (snd (Watcher_Close (ad_git D) watcher (ap_git p')))\<rparr>))
            (agentCore D ev
               \<lparr>AC_Name = ao_name opts, AC_Mode = ao_mode opts, AC_Spec = True,
                AC_ControlPlaneAddr = ao_controlPlaneAddr opts, AC_BootstrapToken = ao_bootstrapToken opts,
                AC_AdvertisedEndpoint = ao_advertisedEndpoint opts, AC_InterfaceName = ao_interfaceName opts,
                AC_StateDir = stateDir, AC_ReconcileInterval = ao_reconcileInterval opts,
                AC_SpecFirstLoadTimeout = 0, AC_RegisterRetryInterval = 0\<rparr> watcher (p\<lparr>ap_git := g\<rparr>)))"

definition agentOtel ::
    "('h, 'o, 'g, 's, 'a, 'i, 'f, 'n) AgentDeps \<Rightarrow> ('g, 's, 'i, 'f, 'n) AgentEvents \<Rightarrow> AgentOptions \<Rightarrow> string \<Rightarrow>
     ('o, 'g, 's, 'i, 'f, 'n) AgentProcess \<Rightarrow> (result \<times> ('o, 'g, 's, 'i, 'f, 'n) AgentProcess) option" where
  "agentOtel D ev opts stateDir p =
     (case Otel_Setup (ad_otel D)
             \<lparr>Otel_ServiceName = ''seine-agent'', Otel_ServiceVersion = dep_Version (ad_core D),
              Otel_OTLPEndpoint = ao_otlpEndpoint opts, Otel_Insecure = ao_otlpInsecure opts\<rparr> (ap_otel p) of
        ((_, Some e), o1) \<Rightarrow> Some (failed (OtelSetupFailed e), p\<lparr>ap_otel := o1\<rparr>)
      | ((otelShutdown, None), o1) \<Rightarrow>
          map_option (\<lambda>(r, p'). (r, p'\<lparr>ap_otel := snd (otelShutdown (ap_otel p'))\<rparr>))
            (agentWatcher D ev opts stateDir (p\<lparr>ap_otel := o1\<rparr>)))"

definition agent_run ::
    "('h, 'o, 'g, 's, 'a, 'i, 'f, 'n) AgentDeps \<Rightarrow> ('g, 's, 'i, 'f, 'n) AgentEvents \<Rightarrow> AgentOptions \<Rightarrow>
     ('o, 'g, 's, 'i, 'f, 'n) AgentProcess \<Rightarrow> (result \<times> ('o, 'g, 's, 'i, 'f, 'n) AgentProcess) option" where
  "agent_run D ev opts p =
     (if ao_showVersion opts
      then Some ((None, [''seine-agent '' @ Short (dep_Version (ad_core D)) (dep_Commit (ad_core D))], []), p)
      else case ParseLevel (ao_logLevel opts) of
        Inl e \<Rightarrow> Some (failed (LogFlag e), p)
      | Inr level \<Rightarrow>
          (case ParseFormat (ao_logFormat opts) of
             Inl e \<Rightarrow> Some (failed (LogFlag e), p)
           | Inr format \<Rightarrow>
               (let p = p\<lparr>ap_logger := Some (Logging_Setup \<lparr>Opt_Level = level, Opt_Format = format, Opt_Output = None\<rparr>)\<rparr> in
                if ao_name opts = [] then Some (failed NameMissing, p)
                else if ao_controlPlaneAddr opts = [] then Some (failed ControlPlaneMissing, p)
                else if ao_gitURL opts = [] then Some (failed GitURLMissing, p)
                else if ao_mode opts \<noteq> ModeSpoke \<and> ao_mode opts \<noteq> ModeHub then Some (failed (BadMode (ao_mode opts)), p)
                else if ao_mode opts = ModeHub \<and> ao_advertisedEndpoint opts = [] then Some (failed AdvertiseEndpointMissing, p)
                else let stateDir = (if ao_stateDir opts = [] then Join2 ''/var/lib/seine'' (ao_name opts) else ao_stateDir opts)
                     in agentOtel D ev opts stateDir p)))"

definition agent_main ::
    "('h, 'o, 'g, 's, 'a, 'i, 'f, 'n) AgentDeps \<Rightarrow> ('g, 's, 'i, 'f, 'n) AgentEvents \<Rightarrow> (string \<rightharpoonup> string) \<Rightarrow> string list \<Rightarrow>
     ('o, 'g, 's, 'i, 'f, 'n) AgentProcess \<Rightarrow> (nat \<times> result option \<times> ('o, 'g, 's, 'i, 'f, 'n) AgentProcess) option" where
  "agent_main D ev env args p =
     (case agent_parseFlags env args of
        Inl code \<Rightarrow> Some (code, None, p)
      | Inr opts \<Rightarrow>
          map_option (\<lambda>(r, p'). (if fst r = None then 0 else 1, Some r, p')) (agent_run D ev opts p))"

section \<open>Who the server admits\<close>

lemma reply_iff:
  "apfst (map_sum id g) p = (Inr x, y) \<longleftrightarrow> (\<exists>r. p = (Inr r, y) \<and> g r = x)"
  by (cases p; cases "fst p") auto

lemma serve_all_admits:
  "serve_all s cs db = (rs, db') \<Longrightarrow> (c, Inr (RegisterReply resp)) \<in> set (zip cs rs) \<Longrightarrow>
     \<exists>req. call_request c = RegisterCall req \<and> admissible s (call_world c) req"
proof (induction cs arbitrary: db rs)
  case (Cons x cs)
  obtain r db1 where r: "serve s x db = (r, db1)" by fastforce
  obtain rs1 where rs1: "serve_all s cs db1 = (rs1, db')" "rs = r # rs1"
    using Cons.prems(1) r by (cases "serve_all s cs db1") auto
  show ?case
  proof (cases "(c, Inr (RegisterReply resp)) \<in> set (zip cs rs1)")
    case True
    then show ?thesis by (rule Cons.IH [OF rs1(1)])
  next
    case False
    then have c: "x = c" "r = Inr (RegisterReply resp)" using Cons.prems(2) rs1(2) by auto
    then obtain req where req: "call_request c = RegisterCall req"
      using r by (cases "call_request c") (auto simp: serve_def reply_iff)
    then obtain resp' where "Register s (call_world c) (call_env c) \<lparr>Ctx_Metadata = call_metadata c, Ctx_Agent = None\<rparr> req db = (Inr resp', db1)"
      using r c by (auto simp: serve_def Register_Handler_eq reply_iff)
    then have "admissible s (call_world c) req" by (rule Register_ok)
    then show ?thesis using req by blast
  qed
qed simp

lemma serverServe_replies:
  assumes "serverServe D ev opts w = Some ((e, out, rs), w')" "rs \<noteq> []"
  obtains sv db db' where "ev = Some sv" "so_bootstrapToken opts \<noteq> []"
    "serve_all \<lparr>Server_Store = sd_sql D, Server_Spec = provide (sd_render D), Server_BootstrapToken = so_bootstrapToken opts\<rparr>
       (sv_calls sv) db = (rs, db')"
  using assms by (auto simp: serverServe_def NewServer_def failed_def split: if_splits prod.splits option.splits)

lemma server_run_serves:
  assumes "server_run D ev opts w = Some ((e, out, rs), w')" "rs \<noteq> []"
  shows "\<exists>w1 e1 out1 w2. serverServe D ev opts w1 = Some ((e1, out1, rs), w2)"
  using assms
  by (auto simp: server_run_def serverOtel_def serverStore_def serverWatcher_def Let_def failed_def
      split: if_splits prod.splits option.splits sum.splits)

text \<open>
  C15. A started server hands out tokens only for the configured secret: every registration it answers
  with a token came with the bootstrap token of its command line or environment, which is not empty,
  carried a key, and named a node declared by a document the watcher held at that moment.
\<close>

theorem server_admits_only_bootstrap:
  assumes "server_main D (Some sv) env args w = Some (code, Some (e, out, rs), w')"
    and "(c, Inr (RegisterReply resp)) \<in> set (zip (sv_calls sv) rs)"
  shows "\<exists>opts req doc commit. server_parseFlags env args = Inr opts \<and> call_request c = RegisterCall req \<and>
    Reg_BootstrapToken req = so_bootstrapToken opts \<and> so_bootstrapToken opts \<noteq> [] \<and> Reg_PublicKey req \<noteq> [] \<and>
    Current (call_world c) = (doc, commit, None) \<and> declared doc (Reg_Name req)"
proof -
  obtain opts where opts: "server_parseFlags env args = Inr opts" "server_run D (Some sv) opts w = Some ((e, out, rs), w')"
    using assms(1) by (auto simp: server_main_def split: sum.splits)
  have "rs \<noteq> []" using assms(2) by auto
  then obtain w1 e1 out1 w2 where "serverServe D (Some sv) opts w1 = Some ((e1, out1, rs), w2)"
    using server_run_serves [OF opts(2)] by blast
  then obtain db db' where tok: "so_bootstrapToken opts \<noteq> []"
    and serve: "serve_all \<lparr>Server_Store = sd_sql D, Server_Spec = provide (sd_render D), Server_BootstrapToken = so_bootstrapToken opts\<rparr>
       (sv_calls sv) db = (rs, db')"
    using \<open>rs \<noteq> []\<close> by (auto elim: serverServe_replies)
  obtain req where "call_request c = RegisterCall req" "Reg_PublicKey req \<noteq> []" "Reg_BootstrapToken req = so_bootstrapToken opts"
      "\<exists>doc commit. provide (sd_render D) (call_world c) = Inr (doc, commit) \<and> declared doc (Reg_Name req)"
    using serve_all_admits [OF serve assms(2)] by (auto simp: admissible_def)
  moreover have "\<exists>doc commit. Current (call_world c) = (doc, commit, None) \<and> declared doc (Reg_Name req)"
    using calculation(4) by (auto simp: provide_def split: prod.splits option.splits)
  ultimately show ?thesis using opts(1) tok by blast
qed

section \<open>What a run leaves behind\<close>

text \<open>
  Hypotheses on the third parties: closing a database closes its handle and a failed opening opens
  none; \<open>temps\<close> are the temporary directories, which making one adds and removing one removes.
\<close>

definition sql_handle_laws :: "'db sqldb \<Rightarrow> ('db \<Rightarrow> bool) \<Rightarrow> bool" where
  "sql_handle_laws D isopen \<longleftrightarrow>
     (\<forall>path db e db'. sql_Open D path db = (Some e, db') \<longrightarrow> isopen db' = isopen db) \<and>
     (\<forall>db err db'. sql_Close D db = (err, db') \<longrightarrow> \<not> isopen db')"

definition temp_laws :: "'g gitlib \<Rightarrow> ('g \<Rightarrow> string set) \<Rightarrow> bool" where
  "temp_laws G temps \<longleftrightarrow>
     (\<forall>p g e g'. os_MkdirTemp G p g = (Inl e, g') \<longrightarrow> temps g' = temps g) \<and>
     (\<forall>p g dir g'. os_MkdirTemp G p g = (Inr dir, g') \<longrightarrow> dir \<noteq> [] \<and> dir \<notin> temps g \<and> temps g' = insert dir (temps g)) \<and>
     (\<forall>dir g err g'. os_MkdirAll G dir g = (err, g') \<longrightarrow> temps g' = temps g) \<and>
     (\<forall>dir g err g'. os_RemoveAll G dir g = (err, g') \<longrightarrow> temps g' = temps g - {dir})"

lemma Watcher_New_failed:
  assumes "temp_laws G temps" "Watcher_New G cfg g = (Inl e, g')"
  shows "temps g' = temps g"
  using assms by (auto simp: temp_laws_def Watcher_New_def Source_Open_def Let_def split: if_splits prod.splits sum.splits option.splits)

lemma Watcher_New_Close:
  assumes L: "temp_laws G temps" and "Watcher_New G cfg g = (Inr w, g1)" "temps g2 = temps g1"
  shows "temps (snd (snd (Watcher_Close G w g2))) = temps g"
proof -
  obtain src where src: "Source_Open G (WC_Source (watcher_defaults cfg)) g = (Inr src, g1)" "W_src w = src"
    using assms(2) by (auto simp: Watcher_New_def Let_def split: prod.splits sum.splits)
  have removed: "temps (snd (os_RemoveAll G dir x)) = temps x - {dir}" for dir x
    using L unfolding temp_laws_def by (metis prod.collapse)
  consider (own) "Src_owned src" "Src_workdir src \<noteq> []" "Src_workdir src \<notin> temps g" "temps g1 = insert (Src_workdir src) (temps g)"
    | (given) "\<not> Src_owned src" "temps g1 = temps g"
    using src(1) L by (auto simp: temp_laws_def Source_Open_def split: if_splits prod.splits sum.splits option.splits)
  then show ?thesis
  proof cases
    case own
    have "temps (snd (snd (Watcher_Close G w g2))) = temps (snd (os_RemoveAll G (Src_workdir src) g2))"
      using own(1,2) by (simp add: Watcher_Close_def Source_Close_def src(2) split: prod.splits)
    then show ?thesis using own(3,4) assms(3) removed by simp
  next
    case given
    then show ?thesis using assms(3) by (simp add: Watcher_Close_def Source_Close_def src(2))
  qed
qed

lemma serverServe_keeps:
  "serverServe D ev opts w = Some (r, w') \<Longrightarrow> (\<And>sv g. ev = Some sv \<Longrightarrow> temps (sv_git sv g) = temps g) \<Longrightarrow>
     sw_otel w' = sw_otel w \<and> temps (sw_git w') = temps (sw_git w)"
  by (auto simp: serverServe_def split: sum.splits prod.splits option.splits)

lemma serverWatcher_releases:
  assumes "temp_laws (sd_git D) temps" "\<And>sv g. ev = Some sv \<Longrightarrow> temps (sv_git sv g) = temps g"
    and run: "serverWatcher D ev opts w = Some (r, w')"
  shows "sw_otel w' = sw_otel w \<and> temps (sw_git w') = temps (sw_git w)"
proof -
  let ?cfg = "\<lparr>WC_Source = \<lparr>Git_URL = so_gitURL opts, Git_Branch = so_gitBranch opts, Git_Path = so_gitPath opts,
      Git_Workdir = so_gitWorkdir opts, Git_Auth = Some (buildGitAuth (so_gitToken opts) (so_gitUsername opts) (so_gitSSHKey opts))\<rparr>,
    WC_Interval = so_gitInterval opts, WC_MinBackoff = 0, WC_MaxBackoff = 0\<rparr>"
  obtain x g where new: "Watcher_New (sd_git D) ?cfg (sw_git w) = (x, g)" by fastforce
  show ?thesis
  proof (cases x)
    case (Inl e)
    then have "w' = w\<lparr>sw_git := g\<rparr>" using run new by (simp add: serverWatcher_def Let_def)
    moreover have "temps g = temps (sw_git w)" by (rule Watcher_New_failed [OF assms(1) new [unfolded Inl]])
    ultimately show ?thesis by simp
  next
    case (Inr watcher)
    then obtain w1 where w1: "serverServe D ev opts (w\<lparr>sw_git := g\<rparr>) = Some (r, w1)"
        "w' = w1\<lparr>sw_git := snd (snd (Watcher_Close (sd_git D) watcher (sw_git w1)))\<rparr>"
      using run new by (auto simp: serverWatcher_def Let_def)
    then have "sw_otel w1 = sw_otel w" "temps (sw_git w1) = temps g"
      using serverServe_keeps [where temps = temps, OF w1(1) assms(2)] by auto
    then show ?thesis using Watcher_New_Close [OF assms(1) new [unfolded Inr]] w1(2) by simp
  qed
qed

lemma serverStore_releases:
  assumes "temp_laws (sd_git D) temps" "\<And>sv g. ev = Some sv \<Longrightarrow> temps (sv_git sv g) = temps g"
    and L: "sql_handle_laws (sd_sql D) isopen" and "\<not> isopen (sw_db w)" and run: "serverStore D ev opts w = Some (r, w')"
  shows "sw_otel w' = sw_otel w \<and> temps (sw_git w') = temps (sw_git w) \<and> \<not> isopen (sw_db w')"
proof -
  have closed: "\<not> isopen (snd (sql_Close (sd_sql D) db))" for db
    using L unfolding sql_handle_laws_def by (metis prod.collapse)
  obtain x db where op: "Open (sd_sql D) (so_dbPath opts) (sw_db w) = (x, db)" by fastforce
  show ?thesis
  proof (cases x)
    case (Some e)
    from op [unfolded Some] have "\<not> isopen db"
    proof (cases rule: Open_failed)
      case (not_opened c)
      then show ?thesis using L assms(4) unfolding sql_handle_laws_def by metis
    qed (simp add: closed)
    then show ?thesis using run op Some by (auto simp: serverStore_def)
  next
    case None
    then obtain w1 where w1: "serverWatcher D ev opts (w\<lparr>sw_db := db\<rparr>) = Some (r, w1)"
        "w' = w1\<lparr>sw_db := snd (Close (sd_sql D) (sw_db w1))\<rparr>"
      using run op by (auto simp: serverStore_def)
    show ?thesis using serverWatcher_releases [where temps = temps, OF assms(1,2) w1(1)] w1(2) closed by (simp add: Close_def)
  qed
qed

lemma serverOtel_releases:
  assumes "temp_laws (sd_git D) temps" "\<And>sv g. ev = Some sv \<Longrightarrow> temps (sv_git sv g) = temps g"
    and "sql_handle_laws (sd_sql D) isopen" "\<not> isopen (sw_db w)" "otel_laws (sd_otel D) live"
    and run: "serverOtel D ev opts w = Some (r, w')"
  shows "live (sw_otel w') = live (sw_otel w) \<and> temps (sw_git w') = temps (sw_git w) \<and> \<not> isopen (sw_db w')"
proof -
  let ?cfg = "\<lparr>Otel_ServiceName = ''seine-server'', Otel_ServiceVersion = sd_Version D,
    Otel_OTLPEndpoint = so_otlpEndpoint opts, Otel_Insecure = so_otlpInsecure opts\<rparr>"
  obtain sd err o1 where setup_eq: "Otel_Setup (sd_otel D) ?cfg (sw_otel w) = ((sd, err), o1)" by (metis prod.collapse)
  note live = Otel_Setup_live [OF assms(5) setup_eq]
  show ?thesis
  proof (cases err)
    case (Some e)
    then show ?thesis using run setup_eq live assms(4) by (auto simp: serverOtel_def)
  next
    case None
    then obtain w1 where w1: "serverStore D ev opts (w\<lparr>sw_otel := o1\<rparr>) = Some (r, w1)"
        "w' = w1\<lparr>sw_otel := snd (sd (sw_otel w1))\<rparr>"
      using run setup_eq by (auto simp: serverOtel_def)
    have "sw_otel w1 = o1 \<and> temps (sw_git w1) = temps (sw_git w) \<and> \<not> isopen (sw_db w1)"
      using serverStore_releases [where temps = temps, OF assms(1-3) _ w1(1)] assms(4) by simp
    moreover have "live (snd (sd o1)) = live (sw_otel w)" using live by auto
    ultimately show ?thesis using w1(2) by simp
  qed
qed

text \<open>
  C31. However a run of the server ends - a flag is missing, a part cannot be built, the listener is
  taken, serving fails or a signal stops it - it leaves nothing behind: the telemetry providers that
  run are those that ran before, the database handle is closed and no temporary directory of the
  Git cache remains, provided the file system removes what it is asked to.
\<close>

theorem server_releases:
  assumes "otel_laws (sd_otel D) live" "sql_handle_laws (sd_sql D) isopen" "temp_laws (sd_git D) temps"
    and "\<And>sv g. ev = Some sv \<Longrightarrow> temps (sv_git sv g) = temps g"
    and "\<not> isopen (sw_db w)" "server_main D ev env args w = Some (code, r, w')"
  shows "live (sw_otel w') = live (sw_otel w) \<and> temps (sw_git w') = temps (sw_git w) \<and> \<not> isopen (sw_db w')"
proof (cases "server_parseFlags env args")
  case (Inl c)
  then show ?thesis using assms(5,6) by (auto simp: server_main_def)
next
  case (Inr opts)
  then obtain r' where "server_run D ev opts w = Some (r', w')" using assms(6) by (auto simp: server_main_def)
  then consider (refused) "w' = w" | (early) l where "w' = w\<lparr>sw_logger := l\<rparr>" | (built) l where "serverOtel D ev opts (w\<lparr>sw_logger := l\<rparr>) = Some (r', w')"
    by (auto simp: server_run_def Let_def split: if_splits sum.splits)
  then show ?thesis
  proof cases
    case refused
    then show ?thesis using assms(5) by simp
  next
    case early
    then show ?thesis using assms(5) by simp
  next
    case built
    then show ?thesis using serverOtel_releases [where temps = temps, OF assms(3,4,2) _ assms(1) built] assms(5) by simp
  qed
qed

lemma agentCore_keeps:
  "agentCore D ev cfg watcher p = Some (r, p') \<Longrightarrow> (\<And>g. temps (ae_git ev g) = temps g) \<Longrightarrow>
     ap_otel p' = ap_otel p \<and> temps (ap_git p') = temps (ap_git p)"
  by (auto simp: agentCore_def split: sum.splits prod.splits option.splits)

lemma agentWatcher_releases:
  assumes "temp_laws (ad_git D) temps" "\<And>g. temps (ae_git ev g) = temps g" and run: "agentWatcher D ev opts dir p = Some (r, p')"
  shows "ap_otel p' = ap_otel p \<and> temps (ap_git p') = temps (ap_git p)"
proof -
  let ?cfg = "\<lparr>WC_Source = \<lparr>Git_URL = ao_gitURL opts, Git_Branch = ao_gitBranch opts, Git_Path = ao_gitPath opts,
      Git_Workdir = ao_gitWorkdir opts, Git_Auth = Some (buildGitAuth (ao_gitToken opts) (ao_gitUsername opts) (ao_gitSSHKey opts))\<rparr>,
    WC_Interval = ao_gitInterval opts, WC_MinBackoff = 0, WC_MaxBackoff = 0\<rparr>"
  obtain x g where new: "Watcher_New (ad_git D) ?cfg (ap_git p) = (x, g)" by fastforce
  show ?thesis
  proof (cases x)
    case (Inl e)
    then have "p' = p\<lparr>ap_git := g\<rparr>" using run new by (simp add: agentWatcher_def Let_def)
    moreover have "temps g = temps (ap_git p)" by (rule Watcher_New_failed [OF assms(1) new [unfolded Inl]])
    ultimately show ?thesis by simp
  next
    case (Inr watcher)
    then obtain cfg p1 where p1: "agentCore D ev cfg watcher (p\<lparr>ap_git := g\<rparr>) = Some (r, p1)"
        "p' = p1\<lparr>ap_git := snd (snd (Watcher_Close (ad_git D) watcher (ap_git p1)))\<rparr>"
      using run new by (auto simp: agentWatcher_def Let_def)
    have "ap_otel p1 = ap_otel p" "temps (ap_git p1) = temps g"
      using agentCore_keeps [where temps = temps, OF p1(1) assms(2)] by auto
    then show ?thesis using Watcher_New_Close [OF assms(1) new [unfolded Inr]] p1(2) by simp
  qed
qed

text \<open>The agent's command releases its telemetry and its Git cache in the same way.\<close>

lemma agentOtel_releases:
  assumes "temp_laws (ad_git D) temps" "\<And>g. temps (ae_git ev g) = temps g" "otel_laws (ad_otel D) live"
    and run: "agentOtel D ev opts dir p = Some (r, p')"
  shows "live (ap_otel p') = live (ap_otel p) \<and> temps (ap_git p') = temps (ap_git p)"
proof -
  let ?cfg = "\<lparr>Otel_ServiceName = ''seine-agent'', Otel_ServiceVersion = dep_Version (ad_core D),
    Otel_OTLPEndpoint = ao_otlpEndpoint opts, Otel_Insecure = ao_otlpInsecure opts\<rparr>"
  obtain sd err o1 where setup_eq: "Otel_Setup (ad_otel D) ?cfg (ap_otel p) = ((sd, err), o1)" by (metis prod.collapse)
  note live = Otel_Setup_live [OF assms(3) setup_eq]
  show ?thesis
  proof (cases err)
    case (Some e)
    then show ?thesis using run setup_eq live by (auto simp: agentOtel_def)
  next
    case None
    then obtain p1 where p1: "agentWatcher D ev opts dir (p\<lparr>ap_otel := o1\<rparr>) = Some (r, p1)"
        "p' = p1\<lparr>ap_otel := snd (sd (ap_otel p1))\<rparr>"
      using run setup_eq by (auto simp: agentOtel_def)
    have "ap_otel p1 = o1 \<and> temps (ap_git p1) = temps (ap_git p)"
      using agentWatcher_releases [where temps = temps, OF assms(1,2) p1(1)] by simp
    moreover have "live (snd (sd o1)) = live (ap_otel p)" using live by auto
    ultimately show ?thesis using p1(2) by simp
  qed
qed

section \<open>A server on the parts in memory\<close>

definition demo_deps :: "'db sqldb \<Rightarrow> 'g gitlib \<Rightarrow> (nat, nat \<times> nat list, 'db, 'g, unit) ServerDeps" where
  "demo_deps db git =
     \<lparr>sd_otel = mem_sdk True, sd_sql = db, sd_git = git, sd_Listen = (\<lambda>addr n. (None, n)), sd_render = (\<lambda>_. []),
      sd_Version = ''dev'', sd_Commit = ''unknown''\<rparr>"

definition demo_world :: "'db \<Rightarrow> 'g \<Rightarrow> (nat \<times> nat list, 'db, 'g, unit) ServerWorld" where
  "demo_world db g = \<lparr>sw_logger = None, sw_otel = (0, []), sw_db = db, sw_git = g, sw_net = ()\<rparr>"

definition demo_args :: "string list" where
  "demo_args = map setting [(''bootstrap-token'', ''boot''), (''git-url'', ''https://new'')]"

lemma demo_flags:
  "server_parseFlags Map.empty demo_args = Inr ((server_defaults Map.empty)\<lparr>so_bootstrapToken := ''boot'', so_gitURL := ''https://new''\<rparr>)"
proof -
  have "map_of server_flags ''bootstrap-token'' = Some (StringVar (\<lambda>v o'. o'\<lparr>so_bootstrapToken := v\<rparr>))"
    "map_of server_flags ''git-url'' = Some (StringVar (\<lambda>v o'. o'\<lparr>so_gitURL := v\<rparr>))"
    "plain_name ''bootstrap-token''" "plain_name ''git-url''"
    by (simp_all add: server_flags_def plain_name_def)
  then show ?thesis by (simp add: server_parseFlags_def flag_Parse_def demo_args_def classify_setting)
qed

lemma demo_levels: "ParseLevel ''info'' = Inr LevelInfo" "ParseFormat ''text'' = Inr FormatText"
  by code_simp+

text \<open>A hub registers with a server whose watcher has loaded the reference network.\<close>

definition demo_call :: "Watcher Call" where
  "demo_call = \<lparr>call_world = loaded_watcher, call_env = example_env 7, call_metadata = None, call_request = RegisterCall (example_request ''hub-eu'')\<rparr>"

definition demo_serving :: "('g, unit) Serving" where
  "demo_serving = \<lparr>sv_calls = [demo_call], sv_git = id, sv_net = id, sv_err = None\<rparr>"

lemma demo_serves:
  "\<exists>resp db'. serve_all \<lparr>Server_Store = mem_db, Server_Spec = provide (\<lambda>_. []), Server_BootstrapToken = ''boot''\<rparr> [demo_call] (Some []) =
     ([Inr (RegisterReply resp)], db')"
proof -
  let ?s = "\<lparr>Server_Store = mem_db, Server_Spec = provide (\<lambda>_. []), Server_BootstrapToken = ''boot''\<rparr>"
  have spec: "Server_Spec ?s loaded_watcher = Inr (Some example_doc, ''https://new#main'')"
    by (simp add: provide_def Current_def loaded_watcher_def)
  have adm: "admissible ?s loaded_watcher (example_request ''hub-eu'')"
    using spec example_admissible [of "''hub-eu''"] by (simp add: admissible_def example_server_def)
  have "sql_live mem_db (\<lambda>db. db)" by (rule mem_db_live)
  then obtain db' where "UpsertAgent mem_db (Env_StoreNow (example_env 7)) (reg_agent (Some example_doc) (example_env 7) (example_request ''hub-eu'')
      (hex_EncodeToString [7]) (RawURL_EncodeToString [7])) (Some []) = (None, db')"
    using UpsertAgent_live [of mem_db "\<lambda>db. db" "Some []" "[]"] by fastforce
  then show ?thesis
    using Register_admissible [OF adm spec, of "example_env 7" "[7]" "[7]" _ "Some []"]
    by (simp add: serve_def demo_call_def Register_Handler_eq example_env_sel Let_def del: RawURL_EncodeToString.simps)
qed

lemma demo_open: "Open mem_db path None = (None, Some [])"
  by (simp add: Open_def migrate_def mem_db_def)

lemma demo_serving_sel: "sv_calls demo_serving = [demo_call]" "sv_git demo_serving = id" "sv_net demo_serving = id" "sv_err demo_serving = None"
  by (simp_all add: demo_serving_def)

definition demo_opts :: ServerOptions where
  "demo_opts = (server_defaults Map.empty)\<lparr>so_bootstrapToken := ''boot'', so_gitURL := ''https://new''\<rparr>"

lemma demo_opts_sel:
  "so_showVersion demo_opts = False" "so_logLevel demo_opts = ''info''" "so_logFormat demo_opts = ''text''"
  "so_otlpEndpoint demo_opts = []" "so_gitBranch demo_opts = ''main''" "so_gitPath demo_opts = ''network.yaml''"
  "so_gitWorkdir demo_opts = []" "so_bootstrapToken demo_opts = ''boot''" "so_gitURL demo_opts = ''https://new''"
  "so_dbPath demo_opts = ''seine.db''"
  by (simp_all add: demo_opts_def server_defaults_def envOr_def Getenv_def)

text \<open>A run gets as far as serving when the database opens and a temporary directory can be made.\<close>

lemma demo_main:
  assumes serve: "\<And>w. sw_db w = db1 \<Longrightarrow> \<exists>w'. serverServe (demo_deps D G) ev demo_opts w = Some ((e, out, rs), w')"
    and op: "Open D ''seine.db'' db0 = (None, db1)" and tmp: "\<And>g. \<exists>dir g'. os_MkdirTemp G ''seine-git-'' g = (Inr dir, g')"
  shows "\<exists>w'. server_main (demo_deps D G) ev Map.empty demo_args (demo_world db0 g) = Some (if e = None then 0 else 1, Some (e, out, rs), w')"
proof -
  have sel: "sd_git (demo_deps D G) = G" "sd_sql (demo_deps D G) = D" by (simp_all add: demo_deps_def)
  have watcher: "\<exists>w'. serverWatcher (demo_deps D G) ev demo_opts w = Some ((e, out, rs), w')" if "sw_db w = db1" for w
  proof -
    obtain dir g' where t: "os_MkdirTemp G ''seine-git-'' (sw_git w) = (Inr dir, g')" using tmp by blast
    obtain w' where "serverServe (demo_deps D G) ev demo_opts (w\<lparr>sw_git := g'\<rparr>) = Some ((e, out, rs), w')"
      using serve [of "w\<lparr>sw_git := g'\<rparr>"] \<open>sw_db w = db1\<close> by auto
    then show ?thesis
      using t by (simp add: serverWatcher_def sel Watcher_New_def watcher_defaults_def Source_Open_def demo_opts_sel Let_def)
  qed
  have store: "\<exists>w'. serverStore (demo_deps D G) ev demo_opts w = Some ((e, out, rs), w')" if "sw_db w = db0" for w
    using watcher [of "w\<lparr>sw_db := db1\<rparr>"] op that by (auto simp: serverStore_def sel demo_opts_sel)
  have otel: "\<exists>w'. serverOtel (demo_deps D G) ev demo_opts w = Some ((e, out, rs), w')" if "sw_db w = db0" for w
    using store [of w] that by (auto simp: serverOtel_def Otel_Setup_def demo_opts_sel)
  obtain w' where "serverOtel (demo_deps D G) ev demo_opts
      ((demo_world db0 g)\<lparr>sw_logger := Some (Logging_Setup \<lparr>Opt_Level = LevelInfo, Opt_Format = FormatText, Opt_Output = None\<rparr>)\<rparr>) = Some ((e, out, rs), w')"
    using otel [of "(demo_world db0 g)\<lparr>sw_logger := Some (Logging_Setup \<lparr>Opt_Level = LevelInfo, Opt_Format = FormatText, Opt_Output = None\<rparr>)\<rparr>"]
    by (auto simp: demo_world_def)
  then have "server_run (demo_deps D G) ev demo_opts (demo_world db0 g) = Some ((e, out, rs), w')"
    by (simp add: server_run_def demo_opts_sel demo_levels)
  then show ?thesis by (simp add: server_main_def demo_flags demo_opts_def)
qed

lemma demo_runs:
  "\<exists>resp w'. server_main (demo_deps mem_db mem_git) (Some demo_serving) Map.empty demo_args (demo_world None None) =
     Some (0, Some (None, [], [Inr (RegisterReply resp)]), w')"
proof -
  obtain resp db' where s: "serve_all \<lparr>Server_Store = mem_db, Server_Spec = provide (\<lambda>_. []), Server_BootstrapToken = ''boot''\<rparr> [demo_call] (Some []) =
      ([Inr (RegisterReply resp)], db')" using demo_serves by blast
  have serve: "\<exists>w'. serverServe (demo_deps mem_db mem_git) (Some demo_serving) demo_opts w = Some ((None, [], [Inr (RegisterReply resp)]), w')"
    if "sw_db w = Some []" for w
    using s that by (simp add: serverServe_def NewServer_def demo_deps_def demo_serving_sel demo_opts_sel del: serve_all.simps)
  have tmp: "\<exists>dir g'. os_MkdirTemp mem_git p g = (Inr dir, g')" for p g by (simp add: mem_git_def)
  from demo_main [OF serve demo_open tmp, of None] show ?thesis unfolding simp_thms if_True by blast
qed

theorem server_admits_only_bootstrap_witness:
  "\<exists>e out rs w' resp. server_main (demo_deps mem_db mem_git) (Some demo_serving) Map.empty demo_args (demo_world None None) = Some (0, Some (e, out, rs), w') \<and>
     (demo_call, Inr (RegisterReply resp)) \<in> set (zip (sv_calls (demo_serving :: (string option, unit) Serving)) rs) \<and>
     (\<exists>opts req doc commit. server_parseFlags Map.empty demo_args = Inr opts \<and> call_request demo_call = RegisterCall req \<and>
        Reg_BootstrapToken req = so_bootstrapToken opts \<and> so_bootstrapToken opts \<noteq> [] \<and> Reg_PublicKey req \<noteq> [] \<and>
        Current (call_world demo_call) = (doc, commit, None) \<and> declared doc (Reg_Name req))"
proof -
  obtain resp w' where run: "server_main (demo_deps mem_db mem_git) (Some demo_serving) Map.empty demo_args (demo_world None None) =
     Some (0, Some (None, [], [Inr (RegisterReply resp)]), w')" using demo_runs by blast
  have mem: "(demo_call, Inr (RegisterReply resp)) \<in> set (zip (sv_calls (demo_serving :: (string option, unit) Serving)) [Inr (RegisterReply resp)])"
    by (simp add: demo_serving_sel)
  show ?thesis using run mem server_admits_only_bootstrap [OF run mem] by blast
qed

text \<open>Third parties that keep track: whether the database is open, and the temporary directories.\<close>

definition handle_db :: "bool sqldb" where
  "handle_db =
     \<lparr>sql_Open = (\<lambda>path db. (None, True)), sql_SetMaxOpenConns = (\<lambda>n db. db), sql_PingContext = (\<lambda>db. (None, db)),
      sql_Close = (\<lambda>db. (None, False)), sql_ExecContext = (\<lambda>s db. (None, db)), sql_QueryContext = (\<lambda>q db. (Inr ([], None), db))\<rparr>"

definition temp_git :: "string list gitlib" where
  "temp_git =
     \<lparr>os_MkdirTemp = (\<lambda>p g. (Inr (CHR ''t'' # concat g), (CHR ''t'' # concat g) # g)), os_MkdirAll = (\<lambda>p g. (None, g)),
      os_RemoveAll = (\<lambda>p g. (None, removeAll p g)), os_Stat = (\<lambda>p g. StatNotExist),
      ssh_NewPublicKeysFromFile = (\<lambda>u p ph g. Inr (PublicKeys u p ph)), git_NewBranchReferenceName = (\<lambda>b. b),
      git_NewRemoteReferenceName = (\<lambda>r b. b), git_PlainOpen = (\<lambda>d g. None), git_PlainClone = (\<lambda>d opts g. (None, g)),
      git_Fetch = (\<lambda>d opts g. (FetchOk, g)), git_Reference = (\<lambda>d r g. Inr r), git_CommitObject = (\<lambda>d h g. Inr h),
      git_Tree = (\<lambda>c g. Inr c), git_File = (\<lambda>t p g. Inr p), git_Contents = (\<lambda>f g. Inr f)\<rparr>"

lemma longer_not_in: "c # concat xs \<notin> set xs"
proof
  assume "c # concat xs \<in> set xs"
  then have "length (c # concat xs) \<in> set (map length xs)" unfolding set_map by (rule imageI)
  then show False using member_le_sum_list [of "length (c # concat xs)" "map length xs"] by (simp add: length_concat)
qed

lemma handle_db_laws: "sql_handle_laws handle_db id"
  by (simp add: sql_handle_laws_def handle_db_def)

lemma temp_git_laws: "temp_laws temp_git set"
  by (auto simp: temp_laws_def temp_git_def longer_not_in)

lemma demo_serves_handle:
  "\<exists>w'. server_main (demo_deps handle_db temp_git) (Some \<lparr>sv_calls = [], sv_git = id, sv_net = id, sv_err = Some ''accept''\<rparr>) Map.empty demo_args
      (demo_world False []) = Some (1, Some (Some (GrpcServe ''accept''), [], []), w')"
proof -
  have serve: "\<exists>w'. serverServe (demo_deps handle_db temp_git) (Some \<lparr>sv_calls = [], sv_git = id, sv_net = id, sv_err = Some ''accept''\<rparr>) demo_opts w =
      Some ((Some (GrpcServe ''accept''), [], []), w')" for w
    by (simp add: serverServe_def NewServer_def demo_deps_def demo_opts_sel)
  have op: "Open handle_db path False = (None, True)" for path by (simp add: Open_def migrate_def handle_db_def)
  have tmp: "\<exists>dir g'. os_MkdirTemp temp_git p g = (Inr dir, g')" for p g by (simp add: temp_git_def)
  from demo_main [OF serve op tmp, of "[]"] show ?thesis by (simp only: option.distinct if_False)
qed

theorem server_releases_witness:
  "\<exists>w'. server_main (demo_deps handle_db temp_git) (Some \<lparr>sv_calls = [], sv_git = id, sv_net = id, sv_err = Some ''accept''\<rparr>) Map.empty demo_args
      (demo_world False ([] :: string list)) = Some (1, Some (Some (GrpcServe ''accept''), [], []), w') \<and>
    mem_live (sw_otel w') = {} \<and> set (sw_git w') = {} \<and> \<not> sw_db w'"
proof -
  obtain w' where run: "server_main (demo_deps handle_db temp_git) (Some \<lparr>sv_calls = [], sv_git = id, sv_net = id, sv_err = Some ''accept''\<rparr>) Map.empty demo_args
      (demo_world False ([] :: string list)) = Some (1, Some (Some (GrpcServe ''accept''), [], []), w')" using demo_serves_handle by blast
  have "mem_live (sw_otel w') = mem_live (sw_otel (demo_world False ([] :: string list))) \<and> set (sw_git w') = set (sw_git (demo_world False ([] :: string list))) \<and> \<not> id (sw_db w')"
  proof (rule server_releases [where live = mem_live and temps = set and isopen = id])
    show "server_main (demo_deps handle_db temp_git) (Some \<lparr>sv_calls = [], sv_git = id, sv_net = id, sv_err = Some ''accept''\<rparr>) Map.empty demo_args
      (demo_world False ([] :: string list)) = Some (1, Some (Some (GrpcServe ''accept''), [], []), w')" by (rule run)
  qed (auto simp: demo_deps_def mem_sdk_laws handle_db_laws temp_git_laws demo_world_def)
  then show ?thesis using run by (simp add: demo_world_def mem_live_def)
qed

end
