(* ===== verification/Agent_Loop.thy ===== *)
theory Agent_Loop
  imports Agentcore
begin

text \<open>
  Invariants of the reconciliation loop (\<^verbatim>\<open>agent.go\<close>, \<open>reconcileLoop\<close>). The locale states what an
  invariant has to be kept by - a reconciliation, a wait, a receive on the update channel - and gives
  that it holds when the loop ends. It is interpreted on the states of a running agent, in which
  everything but the token is what the agent had when the loop began: who it is, in particular, is
  decided once, from the first document.
\<close>

section \<open>Invariants\<close>

locale loop_invariant =
  fixes D :: "('s, 'a, 'i, 'f, 'n) Deps"
    and calm :: "('s, 'i, 'f, 'n) World LoopEvent \<Rightarrow> bool"
    and inv :: "('s, 'a, 'i) AgentState \<Rightarrow> ('s, 'i, 'f, 'n) World \<Rightarrow> bool"
  assumes once: "inv a w \<Longrightarrow> reconcileOnce D a w = (e, a', w') \<Longrightarrow> inv a' w'"
    and tick: "calm (LoopTick f) \<Longrightarrow> inv a w \<Longrightarrow> inv a (f w)"
    and update: "calm (LoopUpdate f) \<Longrightarrow> inv a w \<Longrightarrow> inv a (f w)"
    and receive: "inv a w \<Longrightarrow> receive_update w = Some w' \<Longrightarrow> inv a w'"
begin

lemma cycle:
  assumes "inv a w" "(case reconcileOnce D a w of
      (err, a', w') \<Rightarrow> map_option (apfst ((#) err)) (reconcile_events D es a' w')) = Some (os, a', w')"
  obtains os2 a2 w2 where "inv a2 w2" "reconcile_events D es a2 w2 = Some (os2, a', w')"
proof -
  obtain e a2 w2 where o: "reconcileOnce D a w = (e, a2, w2)" by (metis prod_cases3)
  then obtain os2 where "reconcile_events D es a2 w2 = Some (os2, a', w')" using assms(2) by auto
  then show thesis using that once [OF assms(1) o] by blast
qed

lemma events:
  "list_all calm es \<Longrightarrow> inv a w \<Longrightarrow> reconcile_events D es a w = Some (os, a', w') \<Longrightarrow> inv a' w'"
proof (induction es arbitrary: a w os)
  case (Cons ev es)
  have rest: "list_all calm es" using Cons.prems(1) by simp
  show ?case
  proof (cases ev)
    case LoopDone
    then show ?thesis using Cons.prems by simp
  next
    case (LoopTick f)
    then have "inv a (f w)" using Cons.prems(1,2) tick by simp
    moreover have "(case reconcileOnce D a (f w) of
        (err, a', w') \<Rightarrow> map_option (apfst ((#) err)) (reconcile_events D es a' w')) = Some (os, a', w')"
      using Cons.prems(3) LoopTick by simp
    ultimately obtain os2 a2 w2 where "inv a2 w2" "reconcile_events D es a2 w2 = Some (os2, a', w')" by (rule cycle)
    then show ?thesis by (rule Cons.IH [OF rest])
  next
    case (LoopUpdate f)
    then have f: "inv a (f w)" using Cons.prems(1,2) update by simp
    show ?thesis
    proof (cases "receive_update (f w)")
      case None
      then show ?thesis using Cons.IH [OF rest f] Cons.prems(3) LoopUpdate by simp
    next
      case (Some w1)
      then have "(case reconcileOnce D a w1 of
          (err, a', w') \<Rightarrow> map_option (apfst ((#) err)) (reconcile_events D es a' w')) = Some (os, a', w')"
        using Cons.prems(3) LoopUpdate by simp
      with receive [OF f Some] obtain os2 a2 w2 where "inv a2 w2" "reconcile_events D es a2 w2 = Some (os2, a', w')" by (rule cycle)
      then show ?thesis by (rule Cons.IH [OF rest])
    qed
  qed
qed simp

lemma loop:
  assumes "list_all calm es" "inv a w" "reconcileLoop D es a w = Some (os, a', w')"
  shows "inv a' w'"
  using assms(2) assms(3) [unfolded reconcileLoop_def] by (rule cycle) (rule events [OF assms(1)])

lemma run_loop:
  assumes "list_all calm (ev_loop ev)" "inv a w" "runLoop D ev a w = Some (err, a', w')"
  shows "inv a' w'"
  using assms by (auto simp: runLoop_def dest: loop)

end

section \<open>A running agent\<close>

text \<open>
  The states in which an agent that began its loop as \<open>a0\<close> may reconcile: whatever happened to the
  world in the meantime, and after any number of reconciliations.
\<close>

inductive running ::
    "('s, 'a, 'i, 'f, 'n) Deps \<Rightarrow> ('s, 'a, 'i) AgentState \<Rightarrow> ('s, 'a, 'i) AgentState \<Rightarrow> ('s, 'i, 'f, 'n) World \<Rightarrow> bool"
  for D a0 where
  begin_loop: "running D a0 a0 w"
| cycle: "running D a0 a w \<Longrightarrow> reconcileOnce D a w = (e, a', w') \<Longrightarrow> running D a0 a' w''"

inductive_cases running_cycleE: "running D a0 a w"

lemma running_world: "running D a0 a w \<Longrightarrow> running D a0 a w'"
  by (erule running_cycleE) (blast intro: running.intros)+

interpretation agent_running: loop_invariant D "\<lambda>_. True" "running D a0" for D a0
proof
  fix a a' :: "('a, 'b, 'c) AgentState" and w w' :: "('a, 'c, 'd, 'e) World" and e
  show "running D a0 a w \<Longrightarrow> reconcileOnce D a w = (e, a', w') \<Longrightarrow> running D a0 a' w'" by (rule running.cycle)
qed (erule running_world)+

lemma reconcileOnce_agent:
  assumes "reconcileOnce D a w = (e, a', w')"
  shows "a' = a\<lparr>Ag_authToken := Ag_authToken a'\<rparr>"
proof -
  have reg: "b = a\<lparr>Ag_authToken := Ag_authToken b\<rparr>" if "register D a x = (err, b, y)" for x err b y
    using that by (auto simp: register_def Let_def split: prod.splits sum.splits if_splits)
  show ?thesis
    using assms by (auto simp: reconcileOnce_def Let_def split: prod.splits sum.splits RpcError.splits if_splits dest: reg)
qed

lemma running_agent:
  assumes "running D a0 a w"
  shows "a = a0\<lparr>Ag_authToken := Ag_authToken a\<rparr>"
  using assms
proof (induction rule: running.induct)
  case (cycle a w e a' w' w'')
  have "a' = (a0\<lparr>Ag_authToken := Ag_authToken a\<rparr>)\<lparr>Ag_authToken := Ag_authToken a'\<rparr>"
    using reconcileOnce_agent [OF cycle.hyps(2)] cycle.IH by metis
  then show ?case by simp
qed simp

lemma running_sel:
  assumes "running D a0 a w"
  shows "Ag_self a = Ag_self a0" "Ag_cfg a = Ag_cfg a0" "Ag_iface a = Ag_iface a0" "Ag_firewall a = Ag_firewall a0"
  using running_agent [OF assms] by (metis AgentState.select_convs AgentState.surjective AgentState.update_convs(3))+

lemma reconcileOnce_answered:
  assumes "reconcileOnce D a w = (None, a', w')"
    and "dep_Heartbeat D (''Bearer '' @ Ag_authToken a) \<lparr>HB_Endpoint = AC_AdvertisedEndpoint (Ag_cfg a)\<rparr> (wd_net w) = (Inr resp, n)"
  obtains doc commit desired l where "Current (wd_watcher w) = (Some doc, commit, None)" "Ag_iface a = Some l"
    "PeersFor (env_ParseKey (dep_files D)) (dep_LookupIP D) doc (Ag_self a) (HB_Peers resp)
       (PersistentKeepalive (Network_WireGuard (Document_Spec doc))) = Inr desired"
    "wd_kernel w' = snd (ApplyPeers (dep_iter D) l desired (wd_kernel w))"
proof -
  have app: "applyDesired D a resp (w\<lparr>wd_net := n\<rparr>) = (None, w')"
    using assms by (auto simp: reconcileOnce_def split: prod.splits)
  then obtain doc commit where d: "Current (wd_watcher w) = (Some doc, commit, None)" "current_doc SpecFailed (w\<lparr>wd_net := n\<rparr>) = Inr (doc, commit)"
    by (auto simp: applyDesired_def current_doc_def split: prod.splits option.splits sum.splits)
  obtain desired l where p: "PeersFor (env_ParseKey (dep_files D)) (dep_LookupIP D) doc (Ag_self a) (HB_Peers resp)
      (PersistentKeepalive (Network_WireGuard (Document_Spec doc))) = Inr desired" "Ag_iface a = Some l"
    using app d(2) by (auto simp: applyDesired_def split: option.splits sum.splits)
  obtain diff e s where k: "ApplyPeers (dep_iter D) l desired (wd_kernel w) = ((diff, e), s)" by (metis prod.exhaust)
  then have "reconcileFirewall a doc (w\<lparr>wd_net := n, wd_kernel := s\<rparr>) = (None, w')"
    using app d(2) p by (cases e) (auto simp: applyDesired_def)
  then have "wd_kernel w' = s" using reconcileFirewall_keeps by fastforce
  then show thesis using that d(1) p k by simp
qed

text \<open>
  C33. Who an agent is, is decided once. When the document moves a spoke to another hub while the agent
  runs, a reconciliation that reports success still gives the kernel a single peer, the hub of the
  first document, and not the hub the document now assigns; so it stays until the agent is restarted.
\<close>

theorem spoke_keeps_first_hub:
  assumes "running D a0 a w" "Self_Role (Ag_self a0) = ROLE_SPOKE"
    and "reconcileOnce D a w = (None, a', w')"
    and "dep_Heartbeat D (''Bearer '' @ Ag_authToken a) \<lparr>HB_Endpoint = AC_AdvertisedEndpoint (Ag_cfg a)\<rparr> (wd_net w) = (Inr resp, n)"
    and "Current (wd_watcher w) = (Some doc, commit, None)" "FindSelf doc (Self_Name (Ag_self a0)) = Inr self"
    and "Self_HubName self \<noteq> Self_HubName (Ag_self a0)"
  shows "\<exists>l p. Ag_iface a0 = Some l \<and> wd_kernel w' = snd (ApplyPeers (dep_iter D) l [p] (wd_kernel w)) \<and>
    Peer_Name p = Self_HubName (Ag_self a0) \<and> Peer_Name p \<noteq> Self_HubName self"
proof -
  note sel = running_sel [OF assms(1)]
  from assms(3,4) obtain desired l where p: "Ag_iface a0 = Some l"
      "PeersFor (env_ParseKey (dep_files D)) (dep_LookupIP D) doc (Ag_self a0) (HB_Peers resp)
         (PersistentKeepalive (Network_WireGuard (Document_Spec doc))) = Inr desired"
      "wd_kernel w' = snd (ApplyPeers (dep_iter D) l desired (wd_kernel w))"
    by (rule reconcileOnce_answered) (use assms(5) sel in auto)
  then obtain q where "desired = [q]" "Peer_Name q = Self_HubName (Ag_self a0)"
    using assms(2) by (auto simp: PeersFor_def spokePeers_def Let_def index_registry_name split: option.splits sum.splits)
  then show ?thesis using p assms(7) by auto
qed

section \<open>A spoke of the reference network, moved\<close>

definition moved_doc :: Document where
  "moved_doc = Document_Spec_update (Agents_update (map (\<lambda>a. if Agent_Name a = ''dev-laptop'' then a\<lparr>Agent_Hub := ''hub-us''\<rparr> else a))) example_doc"

definition laptop :: "(WgPeer list, unit, string \<rightharpoonup> string list list) AgentState" where
  "laptop = (sample_agent_state [])\<lparr>Ag_firewall := None,
     Ag_self := \<lparr>Self_Name = ''dev-laptop'', Self_Role = ROLE_SPOKE, Self_TunnelIP = Addr4 0x6440010A, Self_HubName = ''hub-eu''\<rparr>\<rparr>"

definition moved_world :: "(WgPeer list, string \<rightharpoonup> string list list, string \<rightharpoonup> string, unit) World" where
  "moved_world = sample_world\<lparr>wd_watcher := loaded_watcher\<lparr>W_state := Some \<lparr>SS_doc = moved_doc, SS_commit = ''moved'', SS_at = zero_Time\<rparr>\<rparr>\<rparr>"

lemma moved_self:
  "FindSelf moved_doc ''dev-laptop'' =
     Inr \<lparr>Self_Name = ''dev-laptop'', Self_Role = ROLE_SPOKE, Self_TunnelIP = Addr4 0x6440010A, Self_HubName = ''hub-us''\<rparr>"
  by (simp add: FindSelf_def FindHub_def FindAgent_def moved_doc_def example_simps)

lemma moved_peers:
  "\<exists>ps. PeersFor example_ParseKey example_LookupIP moved_doc (Ag_self laptop) example_registry ka = Inr ps"
proof -
  have "index_registry example_registry Map.empty ''hub-eu'' = example_info ''hub-eu'' ''hub-eu.example.com:51820''"
    by (simp add: example_registry_def example_info_def)
  moreover have "ParsePrefix (CIDR (Document_Spec moved_doc)) = Some (Prefix (Addr4 0x64400000) 11)"
    by (simp add: moved_doc_def example_simps)
  moreover have "Self_Role (Ag_self laptop) = ROLE_SPOKE" "Self_HubName (Ag_self laptop) = ''hub-eu''" by (simp_all add: laptop_def)
  ultimately show ?thesis
    by (simp add: PeersFor_def spokePeers_def example_info_def example_ParseKey_def example_resolve)
qed

lemma moved_Current: "Current (wd_watcher moved_world) = (Some moved_doc, ''moved'', None)"
  by (simp add: Current_def moved_world_def)

lemma moved_reconciles: "\<exists>w'. reconcileOnce sample_deps laptop moved_world = (None, laptop, w')"
proof -
  let ?ka = "PersistentKeepalive (Network_WireGuard (Document_Spec moved_doc))"
  obtain ps where ps: "PeersFor example_ParseKey example_LookupIP moved_doc (Ag_self laptop) example_registry ?ka = Inr ps"
    using moved_peers by blast
  obtain d s where ap: "ApplyPeers (\<lambda>_. []) mem_iface ps [] = ((d, None), s)" using mem_ApplyPeers by blast
  have fw: "Ag_firewall laptop = None" "Ag_iface laptop = Some mem_iface" by (simp_all add: laptop_def sample_agent_state_def)
  have kernel: "wd_kernel moved_world = []" by (simp add: moved_world_def sample_world_def)
  have "applyDesired sample_deps laptop \<lparr>HB_SpecCommit = [], HB_Peers = example_registry\<rparr> (moved_world\<lparr>wd_net := ()\<rparr>) =
      (None, moved_world\<lparr>wd_net := (), wd_kernel := s\<rparr>)"
    using ps ap fw kernel by (simp add: applyDesired_def current_doc_def moved_Current sample_deps_def reconcileFirewall_def)
  then show ?thesis by (simp add: reconcileOnce_def sample_deps_def)
qed

theorem spoke_keeps_first_hub_witness:
  "\<exists>w' p. reconcileOnce sample_deps laptop moved_world = (None, laptop, w') \<and>
     wd_kernel w' = snd (ApplyPeers (\<lambda>_. []) mem_iface [p] []) \<and> Peer_Name p = ''hub-eu''"
proof -
  obtain w' where w': "reconcileOnce sample_deps laptop moved_world = (None, laptop, w')" using moved_reconciles by blast
  have sel: "Ag_self laptop = \<lparr>Self_Name = ''dev-laptop'', Self_Role = ROLE_SPOKE, Self_TunnelIP = Addr4 0x6440010A, Self_HubName = ''hub-eu''\<rparr>"
    "Ag_iface laptop = Some mem_iface" by (simp_all add: laptop_def sample_agent_state_def)
  have "\<exists>l p. Ag_iface laptop = Some l \<and> wd_kernel w' = snd (ApplyPeers (dep_iter sample_deps) l [p] (wd_kernel moved_world)) \<and>
      Peer_Name p = Self_HubName (Ag_self laptop) \<and> Peer_Name p \<noteq> ''hub-us''"
    using spoke_keeps_first_hub [OF running.begin_loop _ w' _ moved_Current, where resp = "\<lparr>HB_SpecCommit = [], HB_Peers = example_registry\<rparr>"
        and n = "()" and self = "\<lparr>Self_Name = ''dev-laptop'', Self_Role = ROLE_SPOKE, Self_TunnelIP = Addr4 0x6440010A, Self_HubName = ''hub-us''\<rparr>"]
    by (simp add: sel(1) moved_self) (simp add: sample_deps_def)
  then show ?thesis using w' by (auto simp: sel sample_deps_def moved_world_def sample_world_def)
qed

end
