(* ===== verification/Agent_Teardown.thy ===== *)
theory Agent_Teardown
  imports Agent_Loop
begin

text \<open>
  What a run of an agent (\<^verbatim>\<open>agent.go\<close>, \<open>Run\<close>) leaves in the filter table and the kernel, and that it
  ends when cancelled. The run is followed through
  its phases, from the last one outwards: the reconciliation loop keeps the table in a state from
  which the deferred \<open>Teardown\<close> of a hub restores it, and no other phase touches it.
\<close>

section \<open>States Teardown restores\<close>

text \<open>The table is as it was, or has the jump in front of FORWARD and a chain of the agent's own.\<close>

definition restorable :: "('i \<Rightarrow> string \<rightharpoonup> string list list) \<Rightarrow> (string \<rightharpoonup> string list list) \<Rightarrow> 'i Firewall \<Rightarrow> 'i \<Rightarrow> bool" where
  "restorable view table f s \<longleftrightarrow>
     view s = table \<or>
     (\<exists>fwd rules. table ''FORWARD'' = Some fwd \<and> view s = table(''FORWARD'' \<mapsto> forwardJump f # fwd, firewallChain \<mapsto> rules))"

text \<open>A host the agent has not run on: FORWARD exists without the jump, and the chain does not.\<close>

definition clean_table :: "'i Firewall \<Rightarrow> (string \<rightharpoonup> string list list) \<Rightarrow> bool" where
  "clean_table f table \<longleftrightarrow>
     (\<exists>fwd. table ''FORWARD'' = Some fwd \<and> forwardJump f \<notin> set fwd) \<and> table firewallChain = None"

lemma Reconcile_restorable:
  assumes "iptables_ok (fw_ipt f) view" "iptables_up (fw_ipt f)" "clean_table f table" "restorable view table f s"
  shows "restorable view table f (snd (Reconcile f c s))"
proof -
  obtain fwd where fwd: "table ''FORWARD'' = Some fwd" "forwardJump f \<notin> set fwd" using assms(3) by (auto simp: clean_table_def)
  obtain s' where r: "Reconcile f c s = (None, s')" using Reconcile_up [OF assms(2), of c s] by (metis prod.collapse)
  from assms(4) consider "view s = table" | rules where "view s = table(''FORWARD'' \<mapsto> forwardJump f # fwd, firewallChain \<mapsto> rules)"
    using fwd(1) by (auto simp: restorable_def)
  then have "view s' = table(''FORWARD'' \<mapsto> forwardJump f # fwd, firewallChain \<mapsto> buildRules c)"
  proof cases
    case 1
    then show ?thesis using Reconcile_view [OF assms(1), of s fwd c None s'] r fwd by simp
  next
    case 2
    then have "view s ''FORWARD'' = Some (forwardJump f # fwd)" by simp
    then show ?thesis using Reconcile_view [OF assms(1), of s "forwardJump f # fwd" c None s'] r 2 by (auto simp: fun_eq_iff)
  qed
  then show ?thesis using r fwd(1) by (auto simp: restorable_def)
qed

lemma Teardown_restorable:
  assumes "iptables_ok (fw_ipt f) view" "iptables_up (fw_ipt f)" "clean_table f table" "restorable view table f s"
  shows "view (Teardown f s) = table"
proof -
  obtain fwd where fwd: "table ''FORWARD'' = Some fwd" "forwardJump f \<notin> set fwd" "table firewallChain = None"
    using assms(3) by (auto simp: clean_table_def)
  from assms(4) consider "view s = table" | rules where "view s = table(''FORWARD'' \<mapsto> forwardJump f # fwd, firewallChain \<mapsto> rules)"
    using fwd(1) by (auto simp: restorable_def)
  then show ?thesis
  proof cases
    case 1
    then show ?thesis
      using Teardown_view [OF assms(1,2), of s fwd] fwd by (auto simp: remove1_idem fun_eq_iff)
  next
    case 2
    then have "view s ''FORWARD'' = Some (forwardJump f # fwd)" by simp
    then show ?thesis using Teardown_view [OF assms(1,2), of s] 2 fwd by (auto simp: fun_eq_iff)
  qed
qed

section \<open>The phases of a run\<close>

text \<open>Nobody else changes the filter table while the agent waits.\<close>

definition quiet :: "('i \<Rightarrow> 'v) \<Rightarrow> ('s, 'i, 'f, 'n) Events \<Rightarrow> bool" where
  "quiet view ev \<longleftrightarrow>
     (\<forall>t \<in> set (ev_register ev). \<forall>w. view (wd_ipt (wait_world t w)) = view (wd_ipt w)) \<and>
     (\<forall>f w. UpdateReceived f \<in> set (ev_spec ev) \<longrightarrow> view (wd_ipt (f w)) = view (wd_ipt w)) \<and>
     (\<forall>f w. LoopTick f \<in> set (ev_loop ev) \<or> LoopUpdate f \<in> set (ev_loop ev) \<longrightarrow> view (wd_ipt (f w)) = view (wd_ipt w))"

lemma reconcileFirewall_ipt:
  "reconcileFirewall a doc w = (err, w') \<Longrightarrow>
     wd_ipt w' = wd_ipt w \<or> (\<exists>f c. Ag_firewall a = Some f \<and> wd_ipt w' = snd (Reconcile f c (wd_ipt w)))"
  by (auto simp: reconcileFirewall_def split: option.splits sum.splits prod.splits) (metis snd_conv)

lemma applyDesired_ipt:
  assumes "applyDesired D a resp w = (err, w')"
  shows "wd_ipt w' = wd_ipt w \<or> (\<exists>f c. Ag_firewall a = Some f \<and> wd_ipt w' = snd (Reconcile f c (wd_ipt w)))"
  using assms
  by (auto simp: applyDesired_def split: sum.splits option.splits prod.splits dest!: reconcileFirewall_ipt)

lemma reconcileOnce_ipt:
  assumes "reconcileOnce D a w = (err, a', w')"
  shows "Ag_firewall a' = Ag_firewall a \<and>
    (wd_ipt w' = wd_ipt w \<or> (\<exists>f c. Ag_firewall a = Some f \<and> wd_ipt w' = snd (Reconcile f c (wd_ipt w))))"
proof -
  obtain r n where h: "dep_Heartbeat D (''Bearer '' @ Ag_authToken a) \<lparr>HB_Endpoint = AC_AdvertisedEndpoint (Ag_cfg a)\<rparr> (wd_net w) = (r, n)"
    by fastforce
  show ?thesis
  proof (cases r)
    case (Inl e)
    obtain code m where "e = RpcError code m" by (cases e)
    then show ?thesis
      using assms h Inl by (auto simp: reconcileOnce_def Let_def dest: register_keeps split: if_splits prod.splits)
  next
    case (Inr resp)
    then have "a' = a" "applyDesired D a resp (w\<lparr>wd_net := n\<rparr>) = (err, w')"
      using assms h by (auto simp: reconcileOnce_def split: prod.splits)
    then show ?thesis using applyDesired_ipt by fastforce
  qed
qed

lemma receive_update_ipt: "receive_update w = Some w' \<Longrightarrow> wd_ipt w' = wd_ipt w"
  by (auto simp: receive_update_def)

text \<open>An invariant of the table that a reconciliation keeps and no wait disturbs is an invariant of the loop.\<close>

fun undisturbed :: "('i \<Rightarrow> bool) \<Rightarrow> ('s, 'i, 'f, 'n) World LoopEvent \<Rightarrow> bool" where
  "undisturbed P LoopDone \<longleftrightarrow> True"
| "undisturbed P (LoopTick f) \<longleftrightarrow> (\<forall>w. P (wd_ipt w) \<longrightarrow> P (wd_ipt (f w)))"
| "undisturbed P (LoopUpdate f) \<longleftrightarrow> (\<forall>w. P (wd_ipt w) \<longrightarrow> P (wd_ipt (f w)))"

lemma table_invariant:
  assumes "\<And>f c s. fw = Some f \<Longrightarrow> P s \<Longrightarrow> P (snd (Reconcile f c s))"
  shows "loop_invariant D (undisturbed P) (\<lambda>a w. Ag_firewall a = fw \<and> P (wd_ipt w))"
proof
  fix a w e a' w'
  assume "Ag_firewall a = fw \<and> P (wd_ipt w)" "reconcileOnce D a w = (e, a', w')"
  then show "Ag_firewall a' = fw \<and> P (wd_ipt w')" using reconcileOnce_ipt assms by fastforce
qed (auto dest: receive_update_ipt)

lemma quiet_undisturbed:
  assumes "quiet view ev" "\<And>s t. view s = view t \<Longrightarrow> P s \<Longrightarrow> P t"
  shows "list_all (undisturbed P) (ev_loop ev)"
proof -
  have same: "view (wd_ipt w) = view (wd_ipt (f w))" if "LoopTick f \<in> set (ev_loop ev) \<or> LoopUpdate f \<in> set (ev_loop ev)" for f w
    using assms(1) that unfolding quiet_def by metis
  have "undisturbed P e" if "e \<in> set (ev_loop ev)" for e
    by (cases e) (use that assms(2) [OF same] in auto)
  then show ?thesis by (simp add: list_all_iff)
qed

lemma runHub_restores:
  assumes ipt: "dep_iptables D = Some ipt" "iptables_ok ipt view" "iptables_up ipt"
    and clean: "clean_table \<lparr>fw_ipt = ipt, fw_iface = AC_InterfaceName (Ag_cfg a)\<rparr> (view (wd_ipt w))"
    and q: "quiet view ev" and fw: "Ag_firewall a = None" and run: "runHub D ev a w = Some (err, a', w')"
  shows "view (wd_ipt w') = view (wd_ipt w)"
proof -
  let ?f = "\<lparr>fw_ipt = ipt, fw_iface = AC_InterfaceName (Ag_cfg a)\<rparr>"
  let ?V = "view (wd_ipt w)"
  obtain e fs where fwd: "forwarding D (wd_fs w) = (e, fs)" by fastforce
  consider (spoke) "AC_Mode (Ag_cfg a) \<noteq> ModeHub" | (failed) e' where "AC_Mode (Ag_cfg a) = ModeHub" "e = Some e'"
    | (hub) "AC_Mode (Ag_cfg a) = ModeHub" "e = None" by fastforce
  then show ?thesis
  proof cases
    case spoke
    then have r: "runLoop D ev a w = Some (err, a', w')" using run by (simp add: runHub_def)
    have "loop_invariant D (undisturbed (\<lambda>s. view s = ?V)) (\<lambda>a w. Ag_firewall a = None \<and> view (wd_ipt w) = ?V)"
      by (rule table_invariant) simp
    from loop_invariant.run_loop [OF this _ _ r] show ?thesis using quiet_undisturbed [OF q] fw by metis
  next
    case failed
    then show ?thesis using run fwd by (auto simp: runHub_def)
  next
    case hub
    then obtain w1 where r: "runLoop D ev (a\<lparr>Ag_firewall := Some ?f\<rparr>) (w\<lparr>wd_fs := fs\<rparr>) = Some (err, a', w1)"
        "w' = w1\<lparr>wd_ipt := Teardown ?f (wd_ipt w1)\<rparr>"
      using run fwd ipt(1) by (auto simp: runHub_def NewFirewall_def Let_def)
    have ok: "iptables_ok (fw_ipt ?f) view" "iptables_up (fw_ipt ?f)" using ipt by simp_all
    have "loop_invariant D (undisturbed (restorable view ?V ?f)) (\<lambda>a w. Ag_firewall a = Some ?f \<and> restorable view ?V ?f (wd_ipt w))"
      by (rule table_invariant) (use Reconcile_restorable [OF ok clean] in simp)
    moreover have "list_all (undisturbed (restorable view ?V ?f)) (ev_loop ev)"
      by (rule quiet_undisturbed [OF q]) (simp add: restorable_def)
    ultimately have "restorable view ?V ?f (wd_ipt w1)"
      using loop_invariant.run_loop [OF _ _ _ r(1)] by (fastforce simp: restorable_def)
    then show ?thesis using Teardown_restorable [OF ok clean] r(2) by simp
  qed
qed

lemma bringUp_ipt: "bringUp a w = (err, w') \<Longrightarrow> wd_ipt w' = wd_ipt w"
  by (auto simp: bringUp_def split: sum.splits option.splits prod.splits)

lemma runIface_restores:
  assumes "dep_iptables D = Some ipt" "iptables_ok ipt view" "iptables_up ipt"
    and "clean_table \<lparr>fw_ipt = ipt, fw_iface = AC_InterfaceName (Ag_cfg a)\<rparr> (view (wd_ipt w))"
    and "quiet view ev" "Ag_firewall a = None" and run: "runIface D ev l a w = Some (err, a', w')"
  shows "view (wd_ipt w') = view (wd_ipt w)"
proof -
  let ?a = "a\<lparr>Ag_iface := Some l\<rparr>"
  obtain e w1 where b: "bringUp ?a w = (e, w1)" by fastforce
  note same = bringUp_ipt [OF b]
  show ?thesis
  proof (cases e)
    case (Some e')
    then show ?thesis using run b same by (auto simp: runIface_def)
  next
    case None
    then obtain w2 where "runHub D ev ?a w1 = Some (err, a', w2)" "wd_ipt w' = wd_ipt w2"
      using run b by (auto simp: runIface_def)
    then show ?thesis using runHub_restores [OF assms(1-3) _ assms(5), of ?a w1 err a' w2] assms(4,6) same by simp
  qed
qed

lemma runSelf_restores:
  assumes "dep_iptables D = Some ipt" "iptables_ok ipt view" "iptables_up ipt"
    and "clean_table \<lparr>fw_ipt = ipt, fw_iface = AC_InterfaceName (Ag_cfg a)\<rparr> (view (wd_ipt w))"
    and "quiet view ev" "Ag_firewall a = None" and run: "runSelf D ev a w = Some (err, a', w')"
  shows "view (wd_ipt w') = view (wd_ipt w)"
proof -
  consider "w' = w" | self l where "runIface D ev l (a\<lparr>Ag_self := self\<rparr>) w = Some (err, a', w')"
    using run by (auto simp: runSelf_def Let_def split: sum.splits prod.splits if_splits)
  then show ?thesis
  proof cases
    case 2
    then show ?thesis using runIface_restores [OF assms(1-3) _ assms(5), of "a\<lparr>Ag_self := self\<rparr>" w l err a' w'] assms(4,6) by simp
  qed simp
qed

lemma registerWithRetry_ipt:
  "(\<And>t w. t \<in> set ts \<Longrightarrow> view (wd_ipt (wait_world t w)) = view (wd_ipt w)) \<Longrightarrow> registerWithRetry D ts a w = Some (err, a', w') \<Longrightarrow>
     view (wd_ipt w') = view (wd_ipt w) \<and> Ag_firewall a' = Ag_firewall a \<and> Ag_cfg a' = Ag_cfg a"
proof (induction D ts a w rule: registerWithRetry.induct)
  case (1 D a w)
  obtain e a1 w1 where r: "register D a w = (e, a1, w1)" by (metis prod_cases3)
  then show ?case using 1 register_keeps [OF r] by (cases e) (auto split: if_splits)
next
  case (2 D t ts a w)
  obtain e a1 w1 where r: "register D a w = (e, a1, w1)" by (metis prod_cases3)
  note keeps = register_keeps [OF r]
  consider "e = None \<or> (\<exists>e'. e = Some e' \<and> (permanent e' \<or> wait_cancelled t))" | e' where "e = Some e'" "\<not> permanent e'" "\<not> wait_cancelled t"
    by (cases e) auto
  then show ?case
  proof cases
    case 1
    then show ?thesis using 2(3) r keeps by (auto split: if_splits)
  next
    case (2 e')
    then have "registerWithRetry D ts a1 (wait_world t w1) = Some (err, a', w')" using \<open>registerWithRetry D (t # ts) a w = _\<close> r by simp
    then have "view (wd_ipt w') = view (wd_ipt (wait_world t w1)) \<and> Ag_firewall a' = Ag_firewall a1 \<and> Ag_cfg a' = Ag_cfg a1"
      using "2.IH" [OF r [symmetric] 2(1) refl 2(2,3)] "2.prems"(1) by auto
    then show ?thesis using keeps "2.prems"(1) [of t w1] by simp
  qed
qed

lemma spec_wait_loop_ipt:
  "(\<And>f w. UpdateReceived f \<in> set es \<Longrightarrow> view (wd_ipt (f w)) = view (wd_ipt w)) \<Longrightarrow> spec_wait_loop timeout es w = Some (err, w') \<Longrightarrow>
     view (wd_ipt w') = view (wd_ipt w)"
proof (induction timeout es w rule: spec_wait_loop.induct)
  case (3 timeout f es w)
  have f: "view (wd_ipt (f w)) = view (wd_ipt w)" using "3.prems"(1) by simp
  show ?case
  proof (cases "receive_update (f w)")
    case None
    then show ?thesis using "3.IH"(1) [OF None] "3.prems" f by auto
  next
    case (Some w1)
    note same = receive_update_ipt [OF Some]
    show ?thesis
    proof (cases "spec_ready w1")
      case True
      then show ?thesis using "3.prems"(2) Some same f by auto
    next
      case False
      then show ?thesis using "3.IH"(2) [OF Some False] "3.prems" Some same f by auto
    qed
  qed
qed auto

text \<open>A connected agent fails to register, or fails to get a document, or goes on.\<close>

lemma runConn_phases:
  assumes "runConn D ev a w = Some (err, a', w')"
  obtains (registering) e a1 w1 where "loadOrRegister D (ev_register ev) a w = Some (Some e, a1, w1)" "err = Some e" "wd_ipt w' = wd_ipt w1"
  | (waiting) a1 w1 e w2 where "loadOrRegister D (ev_register ev) a w = Some (None, a1, w1)"
      "waitForFirstSpec (ev_spec ev) a1 w1 = Some (Some e, w2)" "err = Some e" "wd_ipt w' = wd_ipt w2"
  | (started) a1 w1 w2 w3 where "loadOrRegister D (ev_register ev) a w = Some (None, a1, w1)"
      "waitForFirstSpec (ev_spec ev) a1 w1 = Some (None, w2)" "runSelf D ev a1 w2 = Some (err, a', w3)"
      "w' = w3\<lparr>wd_net := dep_ConnClose D (wd_net w3)\<rparr>"
proof -
  obtain e a1 w1 where l: "loadOrRegister D (ev_register ev) a w = Some (e, a1, w1)"
    using assms by (auto simp: runConn_def split: option.splits prod.splits)
  show thesis
  proof (cases e)
    case (Some e1)
    then show thesis using registering [OF l [unfolded Some]] assms l by (auto simp: runConn_def)
  next
    case None
    then obtain e2 w2 where s: "waitForFirstSpec (ev_spec ev) a1 w1 = Some (e2, w2)"
      using assms l by (auto simp: runConn_def split: option.splits prod.splits)
    show thesis
    proof (cases e2)
      case (Some e')
      then show thesis using waiting [OF l [unfolded None] s [unfolded Some]] assms l s None by (auto simp: runConn_def)
    next
      case None
      then show thesis using started [OF l [unfolded \<open>e = None\<close>] s [unfolded None]] assms l s \<open>e = None\<close> by (auto simp: runConn_def)
    qed
  qed
qed

lemma loadOrRegister_ipt:
  assumes "quiet view ev" "loadOrRegister D (ev_register ev) a w = Some (e, a1, w1)"
  shows "view (wd_ipt w1) = view (wd_ipt w) \<and> Ag_firewall a1 = Ag_firewall a \<and> Ag_cfg a1 = Ag_cfg a"
proof -
  have reg: "view (wd_ipt (wait_world t x)) = view (wd_ipt x)" if "t \<in> set (ev_register ev)" for t x
    using assms(1) that by (simp add: quiet_def)
  consider "a1 = a\<lparr>Ag_authToken := Ag_authToken a1\<rparr>" "w1 = w" | "registerWithRetry D (ev_register ev) a w = Some (e, a1, w1)"
    using assms(2) by (auto simp: loadOrRegister_def split: ReadResult.splits if_splits)
  then show ?thesis
  proof cases
    case 1
    from arg_cong [OF 1(1), of Ag_firewall] arg_cong [OF 1(1), of Ag_cfg] show ?thesis using 1(2) by simp
  next
    case 2
    then show ?thesis using registerWithRetry_ipt [where view = view, OF reg 2] by simp
  qed
qed

lemma waitForFirstSpec_ipt:
  assumes "quiet view ev" "waitForFirstSpec (ev_spec ev) a w = Some (e, w1)"
  shows "view (wd_ipt w1) = view (wd_ipt w)"
proof (cases "spec_ready w")
  case True
  then show ?thesis using assms(2) by (simp add: waitForFirstSpec_def)
next
  case False
  then have "spec_wait_loop (AC_SpecFirstLoadTimeout (Ag_cfg a)) (ev_spec ev) w = Some (e, w1)"
    using assms(2) by (simp add: waitForFirstSpec_def)
  then show ?thesis by (rule spec_wait_loop_ipt [rotated]) (use assms(1) in \<open>simp add: quiet_def\<close>)
qed

lemma runConn_restores:
  assumes ipt: "dep_iptables D = Some ipt" "iptables_ok ipt view" "iptables_up ipt"
    and clean: "clean_table \<lparr>fw_ipt = ipt, fw_iface = AC_InterfaceName (Ag_cfg a)\<rparr> (view (wd_ipt w))"
    and q: "quiet view ev" and fw: "Ag_firewall a = None" and run: "runConn D ev a w = Some (err, a', w')"
  shows "view (wd_ipt w') = view (wd_ipt w)"
  using run
proof (cases rule: runConn_phases)
  case (registering e a1 w1)
  then show ?thesis using loadOrRegister_ipt [OF q] by metis
next
  case (waiting a1 w1 e w2)
  then show ?thesis using loadOrRegister_ipt [OF q] waitForFirstSpec_ipt [OF q] by metis
next
  case (started a1 w1 w2 w3)
  have one: "view (wd_ipt w2) = view (wd_ipt w)" "Ag_firewall a1 = None" "Ag_cfg a1 = Ag_cfg a"
    using loadOrRegister_ipt [OF q started(1)] waitForFirstSpec_ipt [OF q started(2)] fw by simp_all
  then show ?thesis using runSelf_restores [OF ipt _ q _ started(3)] clean started(4) by simp
qed

text \<open>
  However a run ends, it leaves the filter table as it found it, on a host where the agent's chain and
  jump did not exist and nobody else changes the table.
\<close>

lemma Agent_Run_restores:
  assumes "dep_iptables D = Some ipt" "iptables_ok ipt view" "iptables_up ipt"
    and "clean_table \<lparr>fw_ipt = ipt, fw_iface = AC_InterfaceName (Ag_cfg a)\<rparr> (view (wd_ipt w))"
    and "quiet view ev" "Ag_firewall a = None" "Agent_Run D ev a w = Some (err, a', w')"
  shows "view (wd_ipt w') = view (wd_ipt w)"
proof -
  consider "wd_ipt w' = wd_ipt w" | kp w1 where "runConn D ev (a\<lparr>Ag_keypair := kp\<rparr>) w1 = Some (err, a', w')" "wd_ipt w1 = wd_ipt w"
    using assms(7) by (auto simp: Agent_Run_def Let_def split: prod.splits bool.splits sum.splits option.splits)
  then show ?thesis
  proof cases
    case (2 kp w1)
    then show ?thesis using runConn_restores [OF assms(1-3) _ assms(5), of "a\<lparr>Ag_keypair := kp\<rparr>" w1 err a' w'] assms(4,6) by simp
  qed simp
qed

section \<open>The interface\<close>

text \<open>Netlink works for a name: lookups do not fail, a link that exists can be deleted and is gone then; closing wgctrl removes none.\<close>

definition link_laws :: "('s, 'a) kernel \<Rightarrow> string \<Rightarrow> bool" where
  "link_laws K name \<longleftrightarrow>
     (\<forall>s. k_LinkByName K name s \<noteq> LinkLookupError) \<and>
     (\<forall>s link err s'. k_LinkByName K name s = LinkFound link \<longrightarrow> k_LinkDel K link s = (err, s') \<longrightarrow>
        \<not> err \<and> k_LinkByName K name s' = LinkNotFound) \<and>
     (\<forall>s err s'. k_Close K s = (err, s') \<longrightarrow> k_LinkByName K name s' = k_LinkByName K name s)"

lemma Down_Close_removes:
  assumes "link_laws (iface_wg l) (iface_name l)"
  shows "k_LinkByName (iface_wg l) (iface_name l) (snd (Iface_Close l (snd (Down l s)))) = LinkNotFound"
proof -
  obtain err s1 where c: "k_Close (iface_wg l) (snd (Down l s)) = (err, s1)" by fastforce
  have "k_LinkByName (iface_wg l) (iface_name l) (snd (Down l s)) = LinkNotFound"
    using assms unfolding link_laws_def
    by (cases "k_LinkByName (iface_wg l) (iface_name l) s") (auto simp: Down_def split: prod.splits)
  then show ?thesis using assms c unfolding link_laws_def Iface_Close_def by simp
qed

text \<open>The outcomes of a run that are reached only once the interface is up.\<close>

fun after_up :: "AgentError option \<Rightarrow> bool" where
  "after_up None \<longleftrightarrow> True"
| "after_up (Some (ForwardingFailed e)) \<longleftrightarrow> True"
| "after_up (Some (FirewallInit e)) \<longleftrightarrow> True"
| "after_up (Some e) \<longleftrightarrow> False"

lemma bringUp_not_after: "bringUp a w = (Some e, w') \<Longrightarrow> \<not> after_up (Some e)"
  by (auto simp: bringUp_def current_doc_def split: sum.splits option.splits prod.splits)

lemma runIface_removes:
  assumes "link_laws (iface_wg l) (iface_name l)" "runIface D ev l a w = Some (err, a', w')" "after_up err"
  shows "k_LinkByName (iface_wg l) (iface_name l) (wd_kernel w') = LinkNotFound"
  using assms Down_Close_removes [OF assms(1)]
  by (auto simp: runIface_def split: prod.splits option.splits dest: bringUp_not_after)

lemma runSelf_removes:
  assumes K: "dep_wgctrl D = Some K" "link_laws K (AC_InterfaceName (Ag_cfg a))"
    and run: "runSelf D ev a w = Some (err, a', w')" "after_up err"
  shows "k_LinkByName K (AC_InterfaceName (Ag_cfg a)) (wd_kernel w') = LinkNotFound"
proof -
  let ?l = "\<lparr>iface_name = AC_InterfaceName (Ag_cfg a), iface_wg = K\<rparr>"
  obtain self where "runIface D ev ?l (a\<lparr>Ag_self := self\<rparr>) w = Some (err, a', w')"
    using run K(1) by (auto simp: runSelf_def Let_def New_def newPlatformInterface_def current_doc_def
        split: sum.splits prod.splits if_splits option.splits)
  from runIface_removes [OF _ this run(2)] show ?thesis using K(2) by simp
qed

lemma registerWithRetry_not_after: "registerWithRetry D ts a w = Some (Some e, a', w') \<Longrightarrow> \<not> after_up (Some e)"
  using registerWithRetry_outcome by (fastforce elim: permanent.elims)

lemma loadOrRegister_outcome:
  assumes "loadOrRegister D ts a w = Some (e, a', w')"
  shows "Ag_cfg a' = Ag_cfg a \<and> (e \<noteq> None \<longrightarrow> \<not> after_up e)"
  using assms registerWithRetry_outcome [of D ts a w e a' w']
  by (auto simp: loadOrRegister_def dest: registerWithRetry_not_after split: ReadResult.splits if_splits)

lemma waitForFirstSpec_not_after: "waitForFirstSpec es a w = Some (Some e, w') \<Longrightarrow> \<not> after_up (Some e)"
proof -
  have timeout: "spec_wait_loop timeout es w = Some (Some e, w') \<Longrightarrow> e = SpecTimeout timeout" for timeout
    by (induction timeout es w rule: spec_wait_loop.induct) (auto split: option.splits if_splits)
  show "waitForFirstSpec es a w = Some (Some e, w') \<Longrightarrow> \<not> after_up (Some e)"
    by (auto simp: waitForFirstSpec_def dest!: timeout split: if_splits)
qed

lemma runConn_removes:
  assumes K: "dep_wgctrl D = Some K" "link_laws K (AC_InterfaceName (Ag_cfg a))"
    and run: "runConn D ev a w = Some (err, a', w')" "after_up err"
  shows "k_LinkByName K (AC_InterfaceName (Ag_cfg a)) (wd_kernel w') = LinkNotFound"
  using run(1)
proof (cases rule: runConn_phases)
  case (registering e a1 w1)
  then show ?thesis using loadOrRegister_outcome [OF registering(1)] run(2) by simp
next
  case (waiting a1 w1 e w2)
  then show ?thesis using waitForFirstSpec_not_after [OF waiting(2)] run(2) by simp
next
  case (started a1 w1 w2 w3)
  have "Ag_cfg a1 = Ag_cfg a" using loadOrRegister_outcome [OF started(1)] by simp
  then show ?thesis using runSelf_removes [OF K(1) _ started(3) run(2)] K(2) started(4) by simp
qed

text \<open>Once a run that brought the interface up has returned, no link of the interface's name exists.\<close>

lemma Agent_Run_removes:
  assumes "dep_wgctrl D = Some K" "link_laws K (AC_InterfaceName (Ag_cfg a))"
    and "Agent_Run D ev a w = Some (err, a', w')" "after_up err"
  shows "k_LinkByName K (AC_InterfaceName (Ag_cfg a)) (wd_kernel w') = LinkNotFound"
proof -
  obtain kp w1 where "runConn D ev (a\<lparr>Ag_keypair := kp\<rparr>) w1 = Some (err, a', w')"
    using assms(3,4) by (auto simp: Agent_Run_def Let_def split: prod.splits bool.splits sum.splits option.splits)
  from runConn_removes [OF assms(1) _ this assms(4)] show ?thesis using assms(2) by simp
qed

section \<open>Cancellation\<close>

lemma registerWithRetry_returns: "list_ex wait_cancelled ts \<Longrightarrow> registerWithRetry D ts a w \<noteq> None"
  by (induction ts arbitrary: a w) (auto split: prod.splits option.splits)

lemma spec_wait_loop_returns: "DeadlineDone \<in> set es \<Longrightarrow> spec_wait_loop timeout es w \<noteq> None"
  by (induction timeout es w rule: spec_wait_loop.induct) (auto split: option.splits)

lemma runLoop_returns: "LoopDone \<in> set (ev_loop ev) \<Longrightarrow> runLoop D ev a w \<noteq> None"
  by (metis (no_types, lifting) reconcile_events_returns runLoop_def reconcileLoop_def option.distinct(1) option.map_disc_iff case_prod_beta)

lemma runSelf_returns:
  assumes "LoopDone \<in> set (ev_loop ev)"
  shows "runSelf D ev a w \<noteq> None"
proof -
  have "runHub D ev a w \<noteq> None" for a w
    using runLoop_returns [OF assms] by (auto simp: runHub_def Let_def split: prod.splits option.splits sum.splits)
  then have "runIface D ev l a w \<noteq> None" for l a w
    by (auto simp: runIface_def split: prod.splits option.splits)
  then show ?thesis by (auto simp: runSelf_def Let_def split: sum.splits prod.splits)
qed

lemma Agent_Run_returns:
  fixes a :: "('s, 'a, 'i) AgentState" and w :: "('s, 'i, 'f, 'n) World"
  assumes "list_ex wait_cancelled (ev_register ev)" "DeadlineDone \<in> set (ev_spec ev)" "LoopDone \<in> set (ev_loop ev)"
  shows "\<exists>err a' w'. Agent_Run D ev a w = Some (err, a', w')"
proof -
  have "runConn D ev b x \<noteq> None" for b :: "('s, 'a, 'i) AgentState" and x
  proof -
    have "loadOrRegister D (ev_register ev) b x \<noteq> None"
      using registerWithRetry_returns [OF assms(1)] by (auto simp: loadOrRegister_def split: ReadResult.splits)
    then obtain e b1 x1 where l: "loadOrRegister D (ev_register ev) b x = Some (e, b1, x1)" by auto
    have "waitForFirstSpec (ev_spec ev) b1 x1 \<noteq> None"
      using spec_wait_loop_returns [OF assms(2)] by (auto simp: waitForFirstSpec_def)
    then obtain e2 x2 where s: "waitForFirstSpec (ev_spec ev) b1 x1 = Some (e2, x2)" by auto
    have "runSelf D ev b1 x2 \<noteq> None" by (rule runSelf_returns [OF assms(3)])
    then show ?thesis using l s by (auto simp: runConn_def split: option.splits)
  qed
  then have "Agent_Run D ev a w \<noteq> None"
    by (auto simp: Agent_Run_def Let_def split: prod.splits bool.splits sum.splits option.splits)
  then show ?thesis by auto
qed

text \<open>
  C28. Cancelling the context ends a run in whatever phase it is: when a wait between registration
  attempts, the wait for the first document and the reconciliation loop each see the cancellation at
  some point, \<open>Run\<close> returns, whatever fails, however often and in whatever order.
\<close>

theorem run_ends_when_cancelled:
  assumes "list_ex wait_cancelled (ev_register ev)" "DeadlineDone \<in> set (ev_spec ev)" "LoopDone \<in> set (ev_loop ev)"
  shows "\<exists>err a' w'. Agent_Run D ev a w = Some (err, a', w')"
  using Agent_Run_returns [OF assms] .

section \<open>A hub of the reference network, started and stopped\<close>

definition sample_events :: "(WgPeer list, string \<rightharpoonup> string list list, string \<rightharpoonup> string, unit) Events" where
  "sample_events =
     \<lparr>ev_gen = Some 5, ev_register = [\<lparr>wait_world = id, wait_cancelled = True\<rparr>], ev_spec = [DeadlineDone],
      ev_loop = [LoopTick id, LoopDone]\<rparr>"

definition sample_hub :: "(WgPeer list, unit, string \<rightharpoonup> string list list) AgentState" where
  "sample_hub = (sample_agent_state ''boot'')\<lparr>Ag_iface := None, Ag_firewall := None\<rparr>"

theorem run_ends_when_cancelled_witness:
  "\<exists>err a' w'. Agent_Run sample_deps sample_events sample_hub sample_world = Some (err, a', w')"
  by (rule run_ends_when_cancelled) (simp_all add: sample_events_def)

text \<open>A kernel that knows only whether the link exists, and a server that does not answer.\<close>

definition link_kernel :: "(bool, unit) kernel" where
  "link_kernel =
    \<lparr>k_LinkByName = (\<lambda>n s. if s then LinkFound \<lparr>Link_Name = n, Link_MTU = 1420\<rparr> else LinkNotFound),
     k_LinkAdd = (\<lambda>l s. (False, True)), k_LinkSetMTU = (\<lambda>l m s. (False, s)), k_LinkSetUp = (\<lambda>l s. (False, s)),
     k_LinkDel = (\<lambda>l s. (False, False)), k_ParseAddr = (\<lambda>a. Some ()), k_AddrReplace = (\<lambda>l a s. (False, s)),
     k_Device = (\<lambda>n s. None), k_ConfigureDevice = (\<lambda>n cfg s. (False, s)), k_Close = (\<lambda>s. (False, s))\<rparr>"

definition lonely_deps :: "(bool, unit, string \<rightharpoonup> string list list, string \<rightharpoonup> string, unit) Deps" where
  "lonely_deps =
     \<lparr>dep_files = example_key_env, dep_wgctrl = Some link_kernel, dep_iptables = Some mem_iptables,
      dep_LookupIP = example_LookupIP, dep_iter = (\<lambda>_. []), dep_NewClient = (\<lambda>addr n. (None, n)), dep_ConnClose = (\<lambda>n. n),
      dep_Register = (\<lambda>req n. (Inr \<lparr>Resp_AuthToken = ''tok''\<rparr>, n)),
      dep_Heartbeat = (\<lambda>auth req n. (Inl (RpcError (OtherCode ''Unavailable'') []), n)),
      dep_Version = ''dev'', dep_Commit = ''unknown''\<rparr>"

definition stopping :: "(bool, string \<rightharpoonup> string list list, string \<rightharpoonup> string, unit) World SpecWait list \<Rightarrow>
    (bool, string \<rightharpoonup> string list list, string \<rightharpoonup> string, unit) Events" where
  "stopping es = \<lparr>ev_gen = Some 5, ev_register = [], ev_spec = es, ev_loop = [LoopDone]\<rparr>"

lemma link_kernel_laws: "link_laws link_kernel name"
  by (simp add: link_laws_def link_kernel_def)

lemma link_kernel_up: "Up \<lparr>iface_name = n, iface_wg = link_kernel\<rparr> opts s = (None, True)"
  by (cases s) (simp_all add: Up_def ensureLink_def upAddress_def netlinkAddrFromPrefix_def link_kernel_def Let_def)

lemma lonely_loop: "\<exists>w'. runLoop lonely_deps (stopping es) a w = Some (None, a, w')"
  by (simp add: runLoop_def reconcileLoop_def reconcileOnce_def lonely_deps_def stopping_def Let_def)

lemma lonely_iface:
  assumes "Current (wd_watcher w) = (Some example_doc, c, None)" "AC_Mode (Ag_cfg a) = ModeSpoke"
  shows "\<exists>a' w'. runIface lonely_deps (stopping es) \<lparr>iface_name = n, iface_wg = link_kernel\<rparr> a w = Some (None, a', w')"
proof -
  let ?l = "\<lparr>iface_name = n, iface_wg = link_kernel\<rparr>"
  have cidr: "ParsePrefix (CIDR (Document_Spec example_doc)) = Some (Prefix (Addr4 0x64400000) 11)" by (simp add: example_simps)
  have "\<exists>w1. bringUp (a\<lparr>Ag_iface := Some ?l\<rparr>) w = (None, w1)"
    by (simp add: bringUp_def current_doc_def assms(1) cidr link_kernel_up)
  then obtain w1 where "bringUp (a\<lparr>Ag_iface := Some ?l\<rparr>) w = (None, w1)" by blast
  moreover obtain w2 where "runHub lonely_deps (stopping es) (a\<lparr>Ag_iface := Some ?l\<rparr>) w1 = Some (None, a\<lparr>Ag_iface := Some ?l\<rparr>, w2)"
    using lonely_loop assms(2) by (fastforce simp: runHub_def ModeHub_def ModeSpoke_def)
  ultimately show ?thesis by (simp add: runIface_def)
qed

lemma lonely_self:
  assumes "Current (wd_watcher w) = (Some example_doc, c, None)" "AC_Name (Ag_cfg a) = ''dev-laptop''" "AC_Mode (Ag_cfg a) = ModeSpoke"
  shows "\<exists>a' w'. runSelf lonely_deps (stopping es) a w = Some (None, a', w')"
proof -
  have k: "dep_wgctrl lonely_deps = Some link_kernel" by (simp add: lonely_deps_def)
  show ?thesis
    using assms example_self(2) lonely_iface [OF assms(1)]
    by (simp add: runSelf_def current_doc_def k New_def newPlatformInterface_def ModeHub_def ModeSpoke_def)
qed

text \<open>An agent that starts with no files, gets a document while it waits and is then stopped ends without error.\<close>

lemma lonely_runs:
  assumes cfg: "AC_Name (Ag_cfg a) = ''dev-laptop''" "AC_Mode (Ag_cfg a) = ModeSpoke" "AC_BootstrapToken (Ag_cfg a) \<noteq> []"
    and fs: "wd_fs w = Map.empty" "Ag_keyPath a \<noteq> Ag_tokenPath a"
    and spec: "\<And>(b :: (bool, unit, string \<rightharpoonup> string list list) AgentState) v. Ag_cfg b = Ag_cfg a \<Longrightarrow> wd_watcher v = wd_watcher w \<Longrightarrow>
      \<exists>v'. waitForFirstSpec es b v = Some (None, v') \<and> Current (wd_watcher v') = (Some example_doc, c, None)"
  shows "\<exists>a' w'. Agent_Run lonely_deps (stopping es) a w = Some (None, a', w')"
proof -
  have sel: "dep_files lonely_deps = example_key_env" "ev_gen (stopping es) = Some 5" "ev_spec (stopping es) = es" "ev_register (stopping es) = []"
    by (simp_all add: lonely_deps_def stopping_def)
  let ?kp = "\<lparr>Private = 5, Public = 6\<rparr>" and ?fs = "[Ag_keyPath a \<mapsto> dec 5 @ [CHR 0x0A]]"
  let ?a = "a\<lparr>Ag_keypair := ?kp\<rparr>" and ?w = "w\<lparr>wd_fs := ?fs, wd_net := wd_net w\<rparr>"
  let ?a1 = "?a\<lparr>Ag_authToken := ''tok''\<rparr>" and ?w1 = "?w\<lparr>wd_fs := ?fs(Ag_tokenPath a \<mapsto> ''tok'')\<rparr>"
  have env: "env_MkdirAll example_key_env dir m f = (True, f)" "dep_NewClient lonely_deps addr n = (None, n)" for dir m f addr n
    by (simp_all add: example_key_env_def lonely_deps_def)
  have key: "LoadOrGenerate example_key_env (Some 5) (Ag_keyPath a) Map.empty = (Inr ?kp, ?fs)"
    by (simp add: LoadOrGenerate_def GenerateKeypair_def example_key_env_def)
  have run: "Agent_Run lonely_deps (stopping es) a w = runConn lonely_deps (stopping es) ?a ?w"
    by (simp add: Agent_Run_def sel env key fs(1))
  have "register lonely_deps ?a ?w = (None, ?a1, ?w1)" by (simp add: register_def lonely_deps_def example_key_env_def)
  moreover have "env_ReadFile (dep_files lonely_deps) (Ag_tokenPath a) ?fs = ReadNotExist"
    using fs(2) by (simp add: sel example_key_env_def)
  ultimately have "loadOrRegister lonely_deps (ev_register (stopping es)) ?a ?w = Some (None, ?a1, ?w1)"
    using cfg(3) by (simp add: loadOrRegister_def sel)
  moreover obtain v where v: "waitForFirstSpec es ?a1 ?w1 = Some (None, v)" "Current (wd_watcher v) = (Some example_doc, c, None)"
    using spec [of ?a1 ?w1] by auto
  moreover obtain a' w' where "runSelf lonely_deps (stopping es) ?a1 v = Some (None, a', w')" using lonely_self [OF v(2), of ?a1 es] cfg by auto
  ultimately show ?thesis unfolding run by (simp add: runConn_def sel)
qed

end
