(* ===== verification/Cmd_Agent.thy ===== *)
theory Cmd_Agent
  imports Cmd Agent_Teardown
begin

text \<open>
  What a run of the command \<^verbatim>\<open>seine-agent\<close> leaves on its host: the deferred calls of \<^verbatim>\<open>main.go\<close> and those
  of the agent together give back the telemetry providers, the temporary directory, the filter table
  and the interface.
\<close>

section \<open>From the process to the run of the agent\<close>

text \<open>Before the agent runs, and after it has, the command does not touch the world of the agent.\<close>

lemma agentOtel_world:
  fixes D :: "('h, 'o, 'g, 's, 'a, 'i, 'f, 'n) AgentDeps"
  assumes "agentOtel D ev opts dir p = Some (r, p')"
  obtains (unstarted) "fst r \<noteq> None" "ap_world p' = ap_world p"
  | (ran) a watcher err a' where "Ag_firewall a = None"
      "AC_InterfaceName (Ag_cfg a) = (if ao_interfaceName opts = [] then ''seine0'' else ao_interfaceName opts)"
      "Agent_Run (ad_core D) (ae_run ev) a ((ap_world p)\<lparr>wd_watcher := watcher\<rparr>) = Some (err, a', ap_world p')"
      "fst r = map_option AgentFailed err"
proof -
  have core: thesis if run: "agentCore D ev cfg watcher q = Some (r, q')" and "ap_world q = ap_world p" "ap_world q' = ap_world p'"
      "AC_InterfaceName cfg = ao_interfaceName opts" for cfg watcher q q'
  proof (cases "Agent_New (ad_counter D) (ad_histogram D) cfg :: AgentError + ('s, 'a, 'i) AgentState")
    case (Inl e)
    then show thesis using unstarted that by (auto simp: agentCore_def failed_def)
  next
    case (Inr a)
    then have "Ag_firewall a = None" "AC_InterfaceName (Ag_cfg a) = (if ao_interfaceName opts = [] then ''seine0'' else ao_interfaceName opts)"
      using that(4) by (auto simp: Agent_New_def applyDefaults_def Let_def split: if_splits option.splits)
    then show thesis using ran that(1-3) Inr by (auto simp: agentCore_def split: option.splits prod.splits)
  qed
  from assms show thesis
    using unstarted core
    by (fastforce simp: agentOtel_def agentWatcher_def failed_def Let_def split: prod.splits option.splits sum.splits)
qed

lemma agent_main_cases:
  assumes "agent_main D ev env args p = Some (code, r, p')"
  obtains (stopped) l where "p' = p\<lparr>ap_logger := l\<rparr>" "code \<noteq> 0 \<or> (\<exists>c. agent_parseFlags env args = Inl c) \<or>
      (\<exists>opts. agent_parseFlags env args = Inr opts \<and> ao_showVersion opts)"
  | (built) opts dir l r' where "agent_parseFlags env args = Inr opts"
      "agentOtel D ev opts dir (p\<lparr>ap_logger := l\<rparr>) = Some (r', p')" "code = 0 \<longleftrightarrow> fst r' = None"
proof (cases "agent_parseFlags env args")
  case (Inl c)
  then show thesis using assms stopped [of "ap_logger p"] by (simp add: agent_main_def)
next
  case (Inr opts)
  then obtain r' where r: "agent_run D ev opts p = Some (r', p')" "code = (if fst r' = None then 0 else 1)"
    using assms by (auto simp: agent_main_def)
  show thesis
  proof (cases "\<exists>l dir. agentOtel D ev opts dir (p\<lparr>ap_logger := l\<rparr>) = Some (r', p')")
    case True
    then obtain l dir where "agentOtel D ev opts dir (p\<lparr>ap_logger := l\<rparr>) = Some (r', p')" by blast
    then show thesis by (rule built [OF Inr]) (simp add: r(2))
  next
    case False
    then have "(\<exists>l. p' = p\<lparr>ap_logger := l\<rparr>) \<and> (ao_showVersion opts \<or> fst r' \<noteq> None)"
      using r(1) by (auto simp: agent_run_def failed_def Let_def split: if_splits sum.splits intro: exI [of _ "ap_logger p"])
    then show thesis using stopped Inr r(2) by auto
  qed
qed


section \<open>A spoke, started and stopped\<close>

definition laptop_env :: "string \<rightharpoonup> string" where
  "laptop_env =
     [''SEINE_AGENT_NAME'' \<mapsto> ''dev-laptop'', ''SEINE_CONTROL_PLANE'' \<mapsto> ''cp:8443'', ''SEINE_BOOTSTRAP_TOKEN'' \<mapsto> ''boot'',
      ''SEINE_GIT_URL'' \<mapsto> ''https://new'', ''SEINE_STATE_DIR'' \<mapsto> ''/s'']"

definition laptop_deps :: "(nat, nat \<times> nat list, string list, bool, unit, string \<rightharpoonup> string list list, string \<rightharpoonup> string, unit) AgentDeps" where
  "laptop_deps = \<lparr>ad_otel = mem_sdk True, ad_git = temp_git, ad_core = lonely_deps, ad_counter = None, ad_histogram = None\<rparr>"

definition laptop_process :: "(nat \<times> nat list, string list, bool, string \<rightharpoonup> string list list, string \<rightharpoonup> string, unit) AgentProcess" where
  "laptop_process = \<lparr>ap_logger = None, ap_otel = (0, []), ap_git = [],
     ap_world = \<lparr>wd_kernel = False, wd_ipt = [''FORWARD'' \<mapsto> []], wd_fs = Map.empty, wd_net = (), wd_watcher = loaded_watcher\<rparr>\<rparr>"

text \<open>The document arrives while the agent waits for it; then the process is stopped.\<close>

definition laptop_events :: "(string list, bool, string \<rightharpoonup> string list list, string \<rightharpoonup> string, unit) AgentEvents" where
  "laptop_events = \<lparr>ae_run = stopping [UpdateReceived (\<lambda>w. w\<lparr>wd_watcher := loaded_watcher\<rparr>)], ae_git = id\<rparr>"

lemma laptop_flags: "agent_parseFlags laptop_env [] = Inr (agent_defaults laptop_env)"
  by (simp add: agent_parseFlags_def flag_Parse_def)

lemma laptop_options:
  "ao_showVersion (agent_defaults laptop_env) = False" "ao_logLevel (agent_defaults laptop_env) = ''info''"
  "ao_logFormat (agent_defaults laptop_env) = ''text''" "ao_name (agent_defaults laptop_env) = ''dev-laptop''"
  "ao_mode (agent_defaults laptop_env) = ''spoke''" "ao_controlPlaneAddr (agent_defaults laptop_env) = ''cp:8443''"
  "ao_bootstrapToken (agent_defaults laptop_env) = ''boot''" "ao_interfaceName (agent_defaults laptop_env) = ''seine0''"
  "ao_stateDir (agent_defaults laptop_env) = ''/s''" "ao_gitURL (agent_defaults laptop_env) = ''https://new''"
  "ao_gitBranch (agent_defaults laptop_env) = ''main''" "ao_gitPath (agent_defaults laptop_env) = ''network.yaml''"
  "ao_gitWorkdir (agent_defaults laptop_env) = []" "ao_otlpEndpoint (agent_defaults laptop_env) = []"
  by (simp_all add: agent_defaults_def laptop_env_def envOr_def Getenv_def)

lemma laptop_core:
  assumes "AC_Name cfg = ''dev-laptop''" "AC_Mode cfg = ''spoke''" "AC_Spec cfg" "AC_ControlPlaneAddr cfg = ''cp:8443''"
    "AC_BootstrapToken cfg = ''boot''" "AC_StateDir cfg = ''/s''" "wd_fs (ap_world p) = Map.empty" "W_state watcher = None" "W_last watcher \<noteq> None"
  shows "\<exists>p'. agentCore laptop_deps laptop_events cfg watcher p = Some ((None, [], []), p')"
proof -
  obtain a :: "(bool, unit, string \<rightharpoonup> string list list) AgentState" where a: "Agent_New None None cfg = Inr a"
      "Ag_cfg a = applyDefaults cfg" "Ag_keyPath a = Join2 ''/s'' ''private.key''" "Ag_tokenPath a = Join2 ''/s'' ''auth.token''"
    using assms(1-6) by (simp add: Agent_New_def ModeSpoke_def ModeHub_def applyDefaults_def Let_def)
  have cfg: "AC_Name (Ag_cfg a) = ''dev-laptop''" "AC_Mode (Ag_cfg a) = ModeSpoke" "AC_BootstrapToken (Ag_cfg a) \<noteq> []"
    using assms(1,2,5,6) by (simp_all add: a(2) applyDefaults_def ModeSpoke_def Let_def)
  have paths: "Ag_keyPath a \<noteq> Ag_tokenPath a" unfolding a(3,4) by code_simp
  have spec: "\<exists>v'. waitForFirstSpec [UpdateReceived (\<lambda>w. w\<lparr>wd_watcher := loaded_watcher\<rparr>)] b v = Some (None, v') \<and>
      Current (wd_watcher v') = (Some example_doc, ''https://new#main'', None)" if "wd_watcher v = watcher"
    for b :: "(bool, unit, string \<rightharpoonup> string list list) AgentState" and v :: "(bool, string \<rightharpoonup> string list list, string \<rightharpoonup> string, unit) World"
    using that assms(8,9) by (simp add: waitForFirstSpec_def spec_ready_def receive_update_def Updates_def Current_def loaded_watcher_def)
  have "\<exists>a' w'. Agent_Run lonely_deps (stopping [UpdateReceived (\<lambda>w. w\<lparr>wd_watcher := loaded_watcher\<rparr>)]) a
      ((ap_world p)\<lparr>wd_watcher := watcher\<rparr>) = Some (None, a', w')"
    by (rule lonely_runs [OF cfg _ paths]) (use assms(7) spec in auto)
  then show ?thesis using a(1) by (auto simp: agentCore_def laptop_deps_def laptop_events_def)
qed

lemma laptop_runs: "\<exists>r p'. agent_main laptop_deps laptop_events laptop_env [] laptop_process = Some (0, r, p')"
proof -
  let ?opts = "agent_defaults laptop_env"
  have watcher: "\<exists>p'. agentWatcher laptop_deps laptop_events ?opts ''/s'' p = Some ((None, [], []), p')" if "wd_fs (ap_world p) = Map.empty" for p
  proof -
    have git: "ad_git laptop_deps = temp_git" by (simp add: laptop_deps_def)
    let ?cfg = "\<lparr>WC_Source = \<lparr>Git_URL = ao_gitURL ?opts, Git_Branch = ao_gitBranch ?opts, Git_Path = ao_gitPath ?opts, Git_Workdir = ao_gitWorkdir ?opts,
           Git_Auth = Some (buildGitAuth (ao_gitToken ?opts) (ao_gitUsername ?opts) (ao_gitSSHKey ?opts))\<rparr>,
         WC_Interval = ao_gitInterval ?opts, WC_MinBackoff = 0, WC_MaxBackoff = 0\<rparr>"
    have "WC_Source (watcher_defaults ?cfg) = WC_Source ?cfg" by (simp add: watcher_defaults_def Let_def)
    moreover obtain src g where "Source_Open temp_git (WC_Source ?cfg) (ap_git p) = (Inr src, g)"
      by (simp add: Source_Open_def laptop_options temp_git_def)
    ultimately obtain wt where new: "Watcher_New temp_git ?cfg (ap_git p) = (Inr wt, g)" by (simp add: Watcher_New_def Let_def)
    have fresh: "W_state wt = None" "W_last wt \<noteq> None" using New_fresh [OF new] by simp_all
    show ?thesis
      using laptop_core [OF _ _ _ _ _ _ _ fresh, of _ "p\<lparr>ap_git := g\<rparr>"] new that
      by (fastforce simp: agentWatcher_def git laptop_options Let_def)
  qed
  have otel: "\<exists>p'. agentOtel laptop_deps laptop_events ?opts ''/s'' p = Some ((None, [], []), p')" if "wd_fs (ap_world p) = Map.empty" for p
    using watcher that by (fastforce simp: agentOtel_def Otel_Setup_def laptop_options)
  have "\<exists>p'. agent_run laptop_deps laptop_events ?opts laptop_process = Some ((None, [], []), p')"
    using otel by (simp add: agent_run_def laptop_options demo_levels ModeSpoke_def ModeHub_def laptop_process_def Let_def)
  then show ?thesis by (auto simp: agent_main_def laptop_flags)
qed


end
