(* ===== verification/Spec2Isabelle.thy ===== *)
theory Spec2Isabelle
  imports Spec_Parse Rpc Server_System Cmd_Agent
begin

text \<open>
  A verification development of seine, a manager of WireGuard overlay networks written in Go. An
  operator commits one document that declares hubs, agents and access rules. The management server
  follows the document in Git, registers agents and tells each the registered nodes; an agent follows
  the same document, keeps its WireGuard peers and, on a hub, its firewall in line with both.

  \<^bold>\<open>The program and its theories.\<close> Each theory models the package it names; definitions keep the names
  of the Go functions, with a prefix where two packages share one.

  \<^item> \<open>Prelude\<close>: results as sums with \<open>bind_res\<close>, loops that stop at an error, lists, the collections
    of simplification rules. \<open>Go_Strings\<close>, \<open>Go_Netip\<close>, \<open>Go_Time\<close>, \<open>Go_Crypto\<close>, \<open>Go_Flag\<close>: the parts
    of Go's standard library the program calls, at the level of bytes, 32- and 128-bit words, 64-bit
    durations with wrap-around, and rounded floats.
  \<^item> \<open>Spec_Types\<close>, \<open>Spec_Validate\<close>, \<open>Spec_Parse\<close> (\<^verbatim>\<open>internal/spec\<close>): the document, its lookups and
    defaults, every check of \<open>Validate\<close>, parsing and printing. \<open>Validate\<close> is proved to decide an
    independent definition of well-formedness, \<open>wf_Document\<close>, on which all later theories rely; a
    parsed document has it, and survives printing and parsing. \<open>Example_Network\<close> is the reference
    network of the repository, on which theorems with hypotheses are applied.
  \<^item> \<open>Api\<close>, \<open>Grpc\<close>, \<open>Rpc\<close> (\<^verbatim>\<open>api/proto\<close>): the messages of the protocol, the generated stubs, handlers and
    service description, and the two ends together: a stub's call returns what the handler returns.
  \<^item> \<open>Topology\<close> (\<^verbatim>\<open>internal/topology\<close>): who a node is and the peers it should have. The peer sets
    connect every node to every other in at most three hops; the allowed IPs of a hub do not overlap;
    the server's answer supplies keys and endpoints and cannot change a route.
  \<^item> \<open>Wg\<close>, \<open>Wg_Iface\<close> (\<^verbatim>\<open>internal/wg\<close>): peers, their difference, the key file, and the kernel
    interface over netlink and wgctrl. The difference is the least change; applying it gives the
    desired peers.
  \<^item> \<open>Netpolicy\<close>, \<open>Firewall\<close> (\<^verbatim>\<open>internal/netpolicy\<close>): access rules expanded into flows, rendered as an
    iptables chain, installed and removed. The verdict of the chain is the policy of the document;
    what a failure leaves behind is stated too.
  \<^item> \<open>Store\<close> (\<^verbatim>\<open>internal/store\<close>): the registry in SQL. It refines an abstract registry indexed by
    name, given as the step relation \<open>reg_step\<close>, whichever statements fail.
  \<^item> \<open>Controlplane\<close> (\<^verbatim>\<open>internal/controlplane\<close>): authentication, \<open>Register\<close>, \<open>Heartbeat\<close>, and a server
    that handles a sequence of requests. Who is admitted, whose heartbeat is answered and with what is
    characterised over all sequences of requests. \<open>Server_System\<close> lets requests interleave with the
    watcher's pulls (the inductive predicate \<open>serving\<close>): every answer agrees with a commit that parses
    and with the last registrations.
  \<^item> \<open>Gitsource\<close>, \<open>Specsource\<close> (\<^verbatim>\<open>internal/gitsource\<close>, \<^verbatim>\<open>internal/specsource\<close>): pulling a file at the
    tip of a branch, and the watcher that polls it and caches the last good document. Its reachable
    states are the inductive predicate \<open>watching\<close>; its delays are bounded; its loop ends only when
    cancelled.
  \<^item> \<open>Agentcore\<close> (\<^verbatim>\<open>internal/agentcore\<close>): the life of an agent, with retries, the reconciliation loop
    and the deferred teardown: the token survives a restart, the data plane changes only on an answered
    heartbeat, a hub enforces the rules of its document. \<open>Agent_Loop\<close> has the invariants of the loop
    and what follows from deciding once who the agent is; \<open>Agent_Teardown\<close> follows a whole run, which
    ends when cancelled, to what it leaves in the filter table and the kernel. \<open>Buildinfo_Logging\<close>,
    \<open>Otel\<close>: the support packages; telemetry never leaks a provider.
  \<^item> \<open>Cmd\<close> (\<^verbatim>\<open>cmd/seine-server\<close>, \<^verbatim>\<open>cmd/seine-agent\<close>): options, construction, release and exit status of
    the two binaries. \<open>Cmd_Agent\<close> composes the agent's command with the run it starts: the process
    leaves the host as it found it.
  \<^item> This theory: what server and agent give together - a heartbeat's answer connects the overlay, and an
    agent the server forgot recovers by itself.

  \<^bold>\<open>Interfaces.\<close> Locales state what one part relies on in another and are interpreted on the model:
  \<open>named_lookup\<close> (lookups by name; for hubs and for agents), \<open>name_index\<close> (a table indexed by name; for
  the rows of the store), \<open>spec_provider\<close> (a source of well-formed documents; for the watcher),
  \<open>loop_invariant\<close> (what the steps of the reconciliation loop keep, the loop keeps; for the states
  of a running agent).

  \<^bold>\<open>Third parties.\<close> Code outside the repository is a parameter: a record of the calls that are made,
  on a state of any type. What is relied on is a named hypothesis: \<open>sql_laws\<close> and \<open>sql_live\<close> for the SQL
  driver, \<open>git_laws\<close> for go-git, \<open>otel_laws\<close> for the OpenTelemetry SDK, \<open>temp_laws\<close> and
  \<open>sql_handle_laws\<close> for files and handles, \<open>codec_laws\<close>, \<open>routes\<close> and \<open>invokes\<close> for protobuf and gRPC, and those of \<open>Firewall\<close>, \<open>Wg\<close> and \<open>Wg_Iface\<close> for iptables,
  key files, wgctrl and netlink, with \<open>link_laws\<close> for the links. Each is met by an instance in memory that the witnesses use. Random
  bytes and the clock are inputs; the YAML library is a decoder given as an argument.

  \<^bold>\<open>Loops and concurrency.\<close> A loop of the program that waits takes a list of events, one for each wait:
  what happened meanwhile and which case of the select fired. It returns \<open>None\<close> when the list is used
  up and it would go on. No fuel is chosen: the theorems hold for every list, and say for which lists
  the loop returns. The server's mutex, the capped connection pool and gRPC's independent calls make a
  request one step; requests, pulls and ticks interleave in any order.

  \<^bold>\<open>Not modelled.\<close> Log lines and metrics, which no behaviour depends on; the text of error messages where
  a value tells the same; timeouts of single calls, which appear as their errors; the getters,
  reflection and serialisation of the generated protobuf code, which is the codec of \<open>Grpc\<close>; the bridge \<^verbatim>\<open>otel.SlogHandler\<close>, which is one
  library call; deployment files and documentation.
\<close>

section \<open>From the control plane to the overlay\<close>


text \<open>The five nodes of the reference network register.\<close>

definition enrolment :: "(string \<times> byte) list" where
  "enrolment = [(''hub-eu'', 1), (''hub-us'', 2), (''dev-laptop'', 3), (''dev-server'', 4), (''prod-server'', 5)]"

lemma enrolled:
  "serve_all example_server (map (\<lambda>(n, b). register_call n b) enrolment) (Some []) =
     (map (\<lambda>(n, b). Inr (RegisterReply \<lparr>Resp_AuthToken = example_token b\<rparr>)) enrolment,
      Some (map (\<lambda>(n, b). example_row n b) enrolment))"
  by (simp add: enrolment_def serve_register)


section \<open>An agent and its server\<close>

text \<open>
  The agent's calls reach the server: a refused call gives the client the code of its status, with
  a rendered message, and the header the agent sends is the authorization metadata of the request.
\<close>

definition bearer_ctx :: "string \<Rightarrow> Ctx" where
  "bearer_ctx hdr = incoming_ctx [(''authorization'', hdr)]"

lemma bearer_ctx_metadata: "Ctx_Metadata (bearer_ctx hdr) = Some (\<lambda>k. if k = ''authorization'' then [hdr] else [])"
  by (auto simp: bearer_ctx_def incoming_ctx_def)

definition client :: "(RPCStatus \<Rightarrow> string) \<Rightarrow> (RPCStatus + 'r) \<times> 'db \<Rightarrow> (RpcError + 'r) \<times> 'db" where
  "client render = apfst (map_sum (\<lambda>st. RpcError (GrpcCode (status_code st)) (render st)) id)"

definition over_wire ::
    "(RPCStatus \<Rightarrow> string) \<Rightarrow> ('db, 'w) Server \<Rightarrow> 'w \<Rightarrow> Env \<Rightarrow> ('s, 'a, 'i, 'f, 'db) Deps \<Rightarrow> bool" where
  "over_wire render s wd env D \<longleftrightarrow>
     dep_Register D = (\<lambda>req db. client render (Register_Handler s wd env \<lparr>Ctx_Metadata = None, Ctx_Agent = None\<rparr> req db)) \<and>
     dep_Heartbeat D = (\<lambda>hdr req db. client render (Heartbeat_Handler s wd env (bearer_ctx hdr) req db))"

text \<open>
  C9. An agent whose token the server no longer knows recovers by itself: if its name is declared, its
  bootstrap token right and its token file writable, the reconciliation in which the heartbeat is
  refused registers it again, and from then on its heartbeats are answered.
\<close>

theorem agent_self_heals:
  fixes a :: "('s, 'a, 'i) AgentState" and w :: "('s, 'i, 'f, 'db) World"
  assumes wire: "over_wire render s wd env D"
    and L: "sql_laws (Server_Store s) tbl" "sql_live (Server_Store s) tbl"
    and t: "tbl (wd_net w) = Some t" "table_ok t"
    and doc: "Server_Spec s wd = Inr (doc, commit)" "declared doc (AC_Name (Ag_cfg a))" "AC_Name (Ag_cfg a) \<noteq> []"
    and boot: "AC_BootstrapToken (Ag_cfg a) = Server_BootstrapToken s" "AC_BootstrapToken (Ag_cfg a) \<noteq> []"
    and files: "key_env_ok (dep_files D)" "\<And>path data mode fs. fst (env_WriteFile (dep_files D) path data mode fs)"
    and rnd: "Env_RandID env = Inr ib" "hex_EncodeToString ib \<notin> row_id ` set t" "Env_RandToken env = Inr tb" "tb \<noteq> []"
    and lost: "\<And>token r. tokenFromMetadata (bearer_ctx (''Bearer '' @ Ag_authToken a)) = Inr token \<Longrightarrow> r \<in> set t \<Longrightarrow>
        row_auth_token_hash r \<noteq> HashToken token"
  shows "\<exists>a1 w1. reconcileOnce D a w = (None, a1, w1) \<and> Ag_authToken a1 = RawURL_EncodeToString tb \<and>
    (\<forall>hb. is_ok (fst (dep_Heartbeat D (''Bearer '' @ Ag_authToken a1) hb (wd_net w1))))"
proof -
  let ?tok = "RawURL_EncodeToString tb"
  let ?req = "\<lparr>Reg_Name = AC_Name (Ag_cfg a), Reg_BootstrapToken = AC_BootstrapToken (Ag_cfg a),
     Reg_PublicKey = env_KeyString (dep_files D) (Public (Ag_keypair a)), Reg_Endpoint = AC_AdvertisedEndpoint (Ag_cfg a),
     Reg_AgentVersion = Short (dep_Version D) (dep_Commit D)\<rparr>"
  obtain m db1 where h: "Heartbeat_Handler s wd env (bearer_ctx (''Bearer '' @ Ag_authToken a))
      \<lparr>HB_Endpoint = AC_AdvertisedEndpoint (Ag_cfg a)\<rparr> (wd_net w) = (Inl (StatusErr Unauthenticated m), db1)" "tbl db1 = Some t"
    using Heartbeat_Handler_refused [OF L t lost] by blast
  have tok: "?tok \<noteq> []" using rnd(4) by (cases tb rule: RawURL_EncodeToString.cases) (simp_all add: Let_def)
  have adm: "admissible s wd ?req" using doc boot(1) files(1) by (auto simp: admissible_def key_env_ok_def)
  let ?ag = "reg_agent doc env ?req (hex_EncodeToString ib) ?tok"
  have "row_id x \<noteq> SA_ID ?ag" if "x \<in> set t" for x
    using rnd(2) imageI [OF that, of row_id] by (auto simp: reg_agent_def)
  then obtain db2 where up: "UpsertAgent (Server_Store s) (Env_StoreNow env) ?ag db1 = (None, db2)"
    using UpsertAgent_live [OF L(2) h(2)] by blast
  then obtain t2 where t2: "tbl db2 = Some t2" "table_ok t2" "row_of t2 (AC_Name (Ag_cfg a)) =
      Some (keep_created (row_of t (AC_Name (Ag_cfg a))) (created_row (Env_StoreNow env) ?ag))"
    using upsert_refines [OF L(1) h(2) t(2)] by (fastforce simp: reg_step_upsert reg_agent_def)
  have reg: "dep_Register D ?req db1 = (Inr \<lparr>Resp_AuthToken = ?tok\<rparr>, db2)"
    using wire up by (simp add: over_wire_def client_def Register_Handler_eq Register_admissible [OF adm doc(1) rnd(1,3)] Let_def)
  obtain fs where fs: "env_WriteFile (dep_files D) (Ag_tokenPath a) ?tok 384 (wd_fs w) = (True, fs)"
    using files(2) by (metis prod.collapse)
  let ?a1 = "a\<lparr>Ag_authToken := ?tok\<rparr>" and ?w1 = "w\<lparr>wd_net := db2, wd_fs := fs\<rparr>"
  have "register D a (w\<lparr>wd_net := db1\<rparr>) = (None, ?a1, ?w1)" using reg fs tok by (simp add: register_def Let_def)
  then have once: "reconcileOnce D a w = (None, ?a1, ?w1)"
    using wire h boot(2) by (simp add: reconcileOnce_def over_wire_def client_def Let_def)
  have bearer: "tokenFromMetadata (bearer_ctx (''Bearer '' @ ?tok)) = Inr ?tok"
  proof (rule bearer_token)
    show "Ctx_Metadata (bearer_ctx (''Bearer '' @ ?tok)) = Some (\<lambda>k. if k = ''authorization'' then [''Bearer '' @ ?tok] else [])"
      by (rule bearer_ctx_metadata)
  qed (use rnd(4) in \<open>simp_all add: generateAuthToken_def\<close>)
  have "\<exists>token n r. tokenFromMetadata (bearer_ctx (''Bearer '' @ ?tok)) = Inr token \<and> row_of t2 n = Some r \<and> row_auth_token_hash r = HashToken token"
    by (intro exI conjI, rule bearer, rule t2(3))
      (cases "row_of t (AC_Name (Ag_cfg a))"; simp add: reg_agent_def created_row_def agent_row_def)
  then have "is_ok (fst (Heartbeat_Handler s wd env (bearer_ctx (''Bearer '' @ ?tok)) hb db2))" for hb
    using Heartbeat_Handler_live(1) [OF L t2(1,2) doc(1)] by blast
  then show ?thesis using once wire by (simp add: over_wire_def client_def)
qed

definition wired_deps :: "(WgPeer list, unit, string \<rightharpoonup> string list list, string \<rightharpoonup> string, Row list option) Deps" where
  "wired_deps =
     \<lparr>dep_files = example_key_env, dep_wgctrl = Some mem_kernel, dep_iptables = Some mem_iptables, dep_LookupIP = example_LookupIP,
      dep_iter = (\<lambda>_. []), dep_NewClient = (\<lambda>addr n. (None, n)), dep_ConnClose = (\<lambda>n. n),
      dep_Register = (\<lambda>req db. client (\<lambda>_. []) (Register_Handler example_server () (example_env 7) \<lparr>Ctx_Metadata = None, Ctx_Agent = None\<rparr> req db)),
      dep_Heartbeat = (\<lambda>hdr req db. client (\<lambda>_. []) (Heartbeat_Handler example_server () (example_env 7) (bearer_ctx hdr) req db)),
      dep_Version = ''dev'', dep_Commit = ''unknown''\<rparr>"

theorem agent_self_heals_witness:
  "\<exists>a1 w1. reconcileOnce wired_deps (sample_agent_state ''boot'')
       \<lparr>wd_kernel = [], wd_ipt = [''FORWARD'' \<mapsto> []], wd_fs = Map.empty, wd_net = Some [], wd_watcher = loaded_watcher\<rparr> = (None, a1, w1) \<and>
     Ag_authToken a1 = example_token 7 \<and>
     (\<forall>hb. is_ok (fst (dep_Heartbeat wired_deps (''Bearer '' @ Ag_authToken a1) hb (wd_net w1))))"
  unfolding example_token_def
proof (rule agent_self_heals [OF _ example_laws, where t = "[]" and ib = "[7]" and tb = "[7]"])
  show "over_wire (\<lambda>_. []) example_server () (example_env 7) wired_deps" by (simp add: over_wire_def wired_deps_def)
  show "Server_Spec example_server () = Inr (Some example_doc, ''c0ffee'')" by (simp add: example_server_def)
  show "key_env_ok (dep_files wired_deps)" by (simp add: wired_deps_def example_key_env_ok)
qed (simp_all add: wired_deps_def example_key_env_def sample_agent_state_def sample_config_def example_server_def
    example_env_sel table_ok_def)

end
